theory Spec2Isabelle
  imports Main "HOL-Library.AList"
begin

section \<open>The sign-up router machine: data model\<close>

text \<open>
  The theory embeds \<^verbatim>\<open>packages/elements/src/internals/machines/sign-up/router.machine.ts\<close>.
  The machine is an XState (version 5) state chart built by \<^verbatim>\<open>setup({actors, actions,
  guards, delays}).createMachine({...})\<close>. Its guards and actions are embedded as HOL
  functions under their source names, its transition tables as lists in source order,
  and the three rules of XState the tables rely on are written out: a transition array
  takes the first entry whose guard is satisfied, the actions of a transition run in
  order with every \<^verbatim>\<open>assign\<close> visible to the actions after it, and a built-in action
  creator (\<^verbatim>\<open>sendTo\<close>, \<^verbatim>\<open>raise\<close>, \<^verbatim>\<open>assign\<close>) is declarative: it has an effect only as an
  entry of an \<^verbatim>\<open>actions\<close>/\<^verbatim>\<open>entry\<close>/\<^verbatim>\<open>exit\<close> list (or enqueued through
  \<^verbatim>\<open>enqueueActions\<close>), never when it is merely called inside a function body.
  The steps of the machine as a whole (which transition an event selects, which nodes
  a transition leaves and enters, what a history node stands for, the run to completion
  on eventless transitions and raised events) follow the algorithm of XState, under
  the names of its functions.
\<close>

subsection \<open>JavaScript values\<close>

text \<open>An exception thrown while a guard or an action runs.\<close>

datatype thrown = TypeError | ExpectedDoneEvent | ExpectedErrorEvent

text \<open>
  \<^verbatim>\<open>Boolean(x)\<close> for \<^verbatim>\<open>x : string | null | undefined\<close>: the empty string is falsy.
  \<^verbatim>\<open>a || b\<close> on such values gives \<^verbatim>\<open>a\<close> when it is truthy and \<^verbatim>\<open>b\<close> otherwise.
\<close>

fun truthy :: "string option \<Rightarrow> bool" where
  "truthy None = False"
| "truthy (Some s) = (s \<noteq> [])"

definition or_else :: "string option \<Rightarrow> string option \<Rightarrow> string option" where
  "or_else a b = (if truthy a then a else b)"

subsection \<open>Resources, the identity client, the navigation adapter\<close>

text \<open>
  \<^verbatim>\<open>SignUpResource\<close>, as far as the machine reads it. \<open>properties\<close> is the object's
  property table for \<^verbatim>\<open>key in signUp\<close> and \<^verbatim>\<open>signUp[key]\<close> (a value is a string or null).
\<close>

record SignUpResource =
  status :: "string option"
  createdSessionId :: "string option"
  missingFields :: "string list"
  unverifiedFields :: "string list"
  optionalFields :: "string list"
  requiredFields :: "string list"
  properties :: "string \<rightharpoonup> string option"

text \<open>\<^verbatim>\<open>clerk.client.signIn.firstFactorVerification.error\<close>.\<close>

record VerificationError =
  code :: string
  longMessage :: "string option"

text \<open>
  \<^verbatim>\<open>clerk.__unstable__environment\<close>: \<^verbatim>\<open>authConfig.singleSessionMode\<close>,
  \<^verbatim>\<open>userSettings.signUp.mode\<close>, \<^verbatim>\<open>displayConfig.signUpUrl\<close> and
  \<^verbatim>\<open>userSettings.attributes\<close> (attribute name to its \<^verbatim>\<open>verifications\<close> list).
\<close>

record Environment =
  singleSessionMode :: bool
  signUpMode :: string
  signUpUrl :: string
  attributes :: "(string \<Rightarrow> string list) option"

text \<open>
  The loaded Clerk object: \<^verbatim>\<open>clerk.user\<close>, \<^verbatim>\<open>clerk.client.signUp\<close>,
  \<^verbatim>\<open>clerk.client.signIn.firstFactorVerification.error\<close>,
  \<^verbatim>\<open>clerk.client.lastActiveSessionId\<close>, the environment, and the values of
  \<^verbatim>\<open>buildAfterSignUpUrl()\<close> and \<^verbatim>\<open>buildSignInUrl()\<close>.
\<close>

record Clerk =
  user :: "string option"
  signUp :: SignUpResource
  firstFactorVerificationError :: "VerificationError option"
  lastActiveSessionId :: "string option"
  environment :: "Environment option"
  buildAfterSignUpUrl :: string
  buildSignInUrl :: string

text \<open>
  The router adapter as an action or guard observes it: \<^verbatim>\<open>basePath\<close>, \<^verbatim>\<open>pathname()\<close>,
  \<^verbatim>\<open>match(path)\<close>, \<^verbatim>\<open>searchParams().get(name)\<close> and \<^verbatim>\<open>mode\<close>. Its \<^verbatim>\<open>push\<close> and
  \<^verbatim>\<open>shallowPush\<close> are effects, recorded in the snapshot below.
\<close>

record Router =
  basePath :: string
  pathname :: string
  match :: "string \<Rightarrow> bool"
  searchParams :: "string \<rightharpoonup> string"
  mode :: string

datatype ElementsError =
    ClerkElementsError string "string option"
  | ClerkElementsRuntimeError string
  | ThrownError string

record Loading =
  isLoading :: bool
  step :: "string option"
  strategy :: "string option"
  action :: "string option"

text \<open>
  \<^verbatim>\<open>SignUpRouterContext\<close>. The machine starts with \<^verbatim>\<open>context: {}\<close>; the record is the
  context from \<^verbatim>\<open>INIT\<close> on. The fields the \<^verbatim>\<open>INIT\<close> assignment does not write
  (\<open>resource\<close>, \<open>resendable\<close>, \<open>resendableAfter\<close>, \<open>error\<close>) are undefined until an
  action assigns them, so they are options. \<open>formRef\<close> is a reference to a form actor.
\<close>

record SignUpRouterContext =
  clerk :: Clerk
  router :: "Router option"
  signInPath :: string
  loading :: Loading
  exampleMode :: bool
  formRef :: nat
  ticket :: "string option"
  resource :: "SignUpResource option"
  resendable :: "bool option"
  resendableAfter :: "int option"
  error :: "ElementsError option"

subsection \<open>Events\<close>

record InitEvent =
  init_clerk :: Clerk
  init_router :: "Router option"
  init_signInPath :: "string option"
  init_exampleMode :: "bool option"
  init_formRef :: nat

text \<open>
  \<^verbatim>\<open>SignUpRouterEvents\<close>, with the events XState itself delivers: the completion of an
  invoked actor (\<open>done_actor id output\<close>, \<open>error_actor id error\<close>) and a delay
  (\<open>after_delay name\<close>). \<open>EMAIL_LINK_other\<close> is any \<^verbatim>\<open>EMAIL_LINK.*\<close> event other than
  \<^verbatim>\<open>RESTART\<close> and \<^verbatim>\<open>FAILED\<close>.
\<close>

datatype SignUpRouterEvents =
    INIT InitEvent
  | RESET
  | RESET_STEP
  | SUBMIT
  | RETRY
  | NEXT "SignUpResource option"
  | NAVIGATE_START
  | NAVIGATE_PREVIOUS
  | AUTHENTICATE_OAUTH string
  | AUTHENTICATE_SAML
  | AUTHENTICATE_WEB3 string
  | FORM_ATTACH nat
  | LOADING Loading
  | EMAIL_LINK_RESTART
  | EMAIL_LINK_FAILED ElementsError SignUpResource
  | EMAIL_LINK_other string SignUpResource
  | done_actor string SignUpResource
  | error_actor string ElementsError
  | after_delay string

text \<open>\<^verbatim>\<open>(event as SignUpRouterNextEvent)?.resource\<close>: the \<^verbatim>\<open>resource\<close> property of any event.\<close>

fun event_resource :: "SignUpRouterEvents \<Rightarrow> SignUpResource option" where
  "event_resource (NEXT r) = r"
| "event_resource (EMAIL_LINK_FAILED x r) = Some r"
| "event_resource (EMAIL_LINK_other n r) = Some r"
| "event_resource e = None"

subsection \<open>Imported constants and helpers\<close>

text \<open>
  \<^verbatim>\<open>~/internals/constants\<close>, \<^verbatim>\<open>@clerk/shared\<close> and \<^verbatim>\<open>~/internals/machines/utils/next\<close>
  are not among the sources. Their constants and functions are parameters of the model:
  every theorem holds for all of their values.
\<close>

record Constants =
  NOT_ALLOWED_TO_SIGN_UP :: string
  OAUTH_ACCESS_DENIED :: string
  NOT_ALLOWED_ACCESS :: string
  SAML_USER_ATTRIBUTE_MISSING :: string
  OAUTH_EMAIL_DOMAIN_RESERVED_BY_SAML :: string
  USER_LOCKED :: string
  SEARCH_PARAMS_ticket :: string
  SEARCH_PARAMS_invitationToken :: string
  SEARCH_PARAMS_createdSession :: string
  SEARCH_PARAMS_status :: string
  SEARCH_PARAMS_transfer :: string
  MAGIC_LINK_VERIFY_PATH_ROUTE :: string
  SSO_CALLBACK_PATH_ROUTE :: string
  ROUTING_virtual :: string
  SIGN_IN_DEFAULT_BASE_PATH :: string
  SIGN_UP_DEFAULT_BASE_PATH :: string
  SIGN_UP_MODES_RESTRICTED :: string
  RESENDABLE_COUNTDOWN_DEFAULT :: int
  joinURL :: "string \<Rightarrow> string \<Rightarrow> string"
  snakeToCamel :: "string \<Rightarrow> string"
  shouldUseVirtualRouting :: bool

section \<open>Guards\<close>

text \<open>
  A guard reads the context and the event of the transition being tried; it returns a
  boolean or throws. \<^verbatim>\<open>and\<close>, \<^verbatim>\<open>or\<close> and \<^verbatim>\<open>not\<close> of XState evaluate their operands left
  to right with \<^verbatim>\<open>every\<close>/\<^verbatim>\<open>some\<close>, so they stop at the first operand that decides (or
  throws).
\<close>

type_synonym guard = "Constants \<Rightarrow> SignUpRouterContext \<Rightarrow> SignUpRouterEvents \<Rightarrow> thrown + bool"

fun and_guard :: "guard list \<Rightarrow> guard" where
  "and_guard [] k c e = Inr True"
| "and_guard (g # gs) k c e =
     (case g k c e of
        Inl x \<Rightarrow> Inl x
      | Inr b \<Rightarrow> if b then and_guard gs k c e else Inr False)"

fun or_guard :: "guard list \<Rightarrow> guard" where
  "or_guard [] k c e = Inr False"
| "or_guard (g # gs) k c e =
     (case g k c e of
        Inl x \<Rightarrow> Inl x
      | Inr b \<Rightarrow> if b then Inr True else or_guard gs k c e)"

definition not_guard :: "guard \<Rightarrow> guard" where
  "not_guard g k c e = (case g k c e of Inl x \<Rightarrow> Inl x | Inr b \<Rightarrow> Inr (\<not> b))"

text \<open>\<^verbatim>\<open>context.router?.searchParams().get(name)\<close>.\<close>

definition searchParam :: "SignUpRouterContext \<Rightarrow> string \<Rightarrow> string option" where
  "searchParam c name = (case router c of None \<Rightarrow> None | Some r \<Rightarrow> searchParams r name)"

definition isCurrentPath :: "string \<Rightarrow> guard" where
  "isCurrentPath path k c e = Inr (case router c of None \<Rightarrow> False | Some r \<Rightarrow> match r path)"

definition needsStatus :: "string \<Rightarrow> guard" where
  "needsStatus s k c e =
     Inr ((case event_resource e of None \<Rightarrow> False | Some r \<Rightarrow> status r = Some s)
          \<or> status (signUp (clerk c)) = Some s)"

definition areFieldsMissing :: guard where
  "areFieldsMissing k c e = Inr (length (missingFields (signUp (clerk c))) > 0)"

definition areFieldsUnverified :: guard where
  "areFieldsUnverified k c e = Inr (length (unverifiedFields (signUp (clerk c))) > 0)"

definition hasAuthenticatedViaClerkJS :: guard where
  "hasAuthenticatedViaClerkJS k c e =
     Inr (status (signUp (clerk c)) = None \<and> truthy (lastActiveSessionId (clerk c)))"

definition hasCreatedSession :: guard where
  "hasCreatedSession k c e = Inr (truthy (searchParam c (SEARCH_PARAMS_createdSession k)))"

definition hasClerkStatus :: "string option \<Rightarrow> guard" where
  "hasClerkStatus params k c e =
     (let v = searchParam c (SEARCH_PARAMS_status k) in
      case params of None \<Rightarrow> Inr (truthy v) | Some s \<Rightarrow> Inr (v = Some s))"

definition hasClerkTransfer :: guard where
  "hasClerkTransfer k c e = Inr (truthy (searchParam c (SEARCH_PARAMS_transfer k)))"

text \<open>\<^verbatim>\<open>Boolean(context.clerk.client.signUp)\<close>: the client always holds a sign-up object.\<close>

definition hasResource :: guard where
  "hasResource k c e = Inr True"

definition hasTicket :: guard where
  "hasTicket k c e = Inr (truthy (ticket c))"

definition isResendable :: guard where
  "isResendable k c e = Inr (resendable c = Some True \<or> resendableAfter c = Some 0)"

definition isStatusAbandoned :: guard where
  "isStatusAbandoned = needsStatus ''abandoned''"

definition completeWithSession :: "SignUpResource \<Rightarrow> bool" where
  "completeWithSession r = (status r = Some ''complete'' \<and> truthy (createdSessionId r))"

definition isComplete :: guard where
  "isComplete k c e =
     Inr ((case resource c of None \<Rightarrow> False | Some r \<Rightarrow> completeWithSession r)
          \<or> (case event_resource e of None \<Rightarrow> False | Some r \<Rightarrow> completeWithSession r)
          \<or> completeWithSession (signUp (clerk c)))"

definition isStatusMissingRequirements :: guard where
  "isStatusMissingRequirements = needsStatus ''missing_requirements''"

text \<open>
  \<^verbatim>\<open>isFieldUnverified\<close> reads the resource of a \<^verbatim>\<open>NEXT\<close> event when it carries one and
  the context's resource otherwise; \<^verbatim>\<open>resource.unverifiedFields\<close> throws when that
  resource is undefined.
\<close>

definition effective_resource :: "SignUpRouterContext \<Rightarrow> SignUpRouterEvents \<Rightarrow> SignUpResource option" where
  "effective_resource c e =
     (case e of NEXT (Some r) \<Rightarrow> Some r | _ \<Rightarrow> resource c)"

definition isFieldUnverified :: "string \<Rightarrow> guard" where
  "isFieldUnverified field k c e =
     (case effective_resource c e of
        None \<Rightarrow> Inl TypeError
      | Some r \<Rightarrow> Inr (field \<in> set (unverifiedFields r)))"

definition clerkUser :: guard where
  "clerkUser k c e = Inr (user (clerk c) \<noteq> None)"

definition isLoggedIn :: guard where
  "isLoggedIn = or_guard [isComplete, clerkUser]"

definition isSingleSessionMode :: guard where
  "isSingleSessionMode k c e =
     Inr (case environment (clerk c) of None \<Rightarrow> False | Some env \<Rightarrow> singleSessionMode env)"

definition isRestricted :: guard where
  "isRestricted k c e =
     Inr (case environment (clerk c) of
            None \<Rightarrow> False
          | Some env \<Rightarrow> signUpMode env = SIGN_UP_MODES_RESTRICTED k)"

definition isRestrictedWithoutTicket :: guard where
  "isRestrictedWithoutTicket = and_guard [isRestricted, not_guard hasTicket]"

definition isExampleMode :: guard where
  "isExampleMode k c e = Inr (exampleMode c)"

definition isLoggedInAndSingleSession :: guard where
  "isLoggedInAndSingleSession = and_guard [isLoggedIn, isSingleSessionMode, not_guard isExampleMode]"

definition isMissingRequiredFields :: guard where
  "isMissingRequiredFields = and_guard [isStatusMissingRequirements, areFieldsMissing]"

definition isMissingRequiredUnverifiedFields :: guard where
  "isMissingRequiredUnverifiedFields = and_guard [isStatusMissingRequirements, areFieldsUnverified]"

definition isStrategyEnabled :: "string \<Rightarrow> string \<Rightarrow> guard" where
  "isStrategyEnabled attribute strat k c e =
     Inr (case environment (clerk c) of
            None \<Rightarrow> False
          | Some env \<Rightarrow>
              (case attributes env of
                 None \<Rightarrow> False
               | Some attrs \<Rightarrow> strat \<in> set (attrs attribute)))"

definition statusNeedsIdentifier :: guard where
  "statusNeedsIdentifier = or_guard [not_guard hasResource, isStatusAbandoned]"

definition statusNeedsContinue :: guard where
  "statusNeedsContinue = or_guard [isMissingRequiredFields]"

definition statusNeedsVerification :: guard where
  "statusNeedsVerification =
     or_guard [isMissingRequiredUnverifiedFields, and_guard [areFieldsMissing, hasClerkStatus None]]"

definition needsIdentifier :: guard where
  "needsIdentifier = or_guard [statusNeedsIdentifier, isCurrentPath ''/'']"

definition needsContinue :: guard where
  "needsContinue = and_guard [statusNeedsContinue, isCurrentPath ''/continue'']"

definition needsVerification :: guard where
  "needsVerification = and_guard [statusNeedsVerification, isCurrentPath ''/verify'']"

definition needsCallback :: guard where
  "needsCallback k = isCurrentPath (SSO_CALLBACK_PATH_ROUTE k) k"

text \<open>
  \<^verbatim>\<open>shouldVerify(field, strategy?)\<close>: the field is unverified and, when a strategy is
  given, the strategy is enabled for the field.
\<close>

definition shouldVerify :: "string \<Rightarrow> string option \<Rightarrow> guard" where
  "shouldVerify field strat =
     and_guard (isFieldUnverified field #
       (case strat of None \<Rightarrow> [] | Some s \<Rightarrow> [isStrategyEnabled field s]))"

definition shouldVerifyPhoneCode :: guard where
  "shouldVerifyPhoneCode = shouldVerify ''phone_number'' None"

definition shouldVerifyEmailLink :: guard where
  "shouldVerifyEmailLink = shouldVerify ''email_address'' (Some ''email_link'')"

definition shouldVerifyEmailCode :: guard where
  "shouldVerifyEmailCode = shouldVerify ''email_address'' (Some ''email_code'')"

section \<open>Effects and actions\<close>

subsection \<open>What an action can do\<close>

datatype RouterCall = push string | shallowPush string

datatype LogEntry = message string | not_retriable_in "int option"

text \<open>The events the form store receives. A \<^verbatim>\<open>Map\<close> of default values is an association
  list in insertion order.\<close>

datatype FormEvent =
    ERRORS_CLEAR
  | ERRORS_SET ElementsError
  | MARK_AS_PROGRESSIVE "string list" "string list" "string list" "(string \<times> string option) list"
  | UNMARK_AS_PROGRESSIVE
  | PREFILL_DEFAULT_VALUES "(string \<times> string option) list"
  | FIELD_DISABLE string

text \<open>
  A call \<^verbatim>\<open>clerk.setActive({session, beforeEmit})\<close>: the session, and the path
  \<^verbatim>\<open>beforeEmit\<close> pushes on the router when it is called (none without a router).
\<close>

record SetActiveCall =
  session :: "string option"
  beforeEmit :: "string option"

datatype ThirdPartyEvent =
    REDIRECT string "string option" string string
  | CALLBACK

text \<open>
  The machine as an action sees it and leaves it: the context, and what has been done to
  the collaborators so far, in order: calls on the router adapter, events delivered to
  form actors (by reference), calls of \<^verbatim>\<open>clerk.setActive\<close>, events raised on the machine's
  own queue (with their delay in ms), events sent to the third-party child and to the
  actor \<^verbatim>\<open>'start'\<close>, whether the child is spawned, and the console. \<open>formFields\<close> is
  \<^verbatim>\<open>formRef.getSnapshot().context.fields\<close> of each form actor (field name to value).
\<close>

record Snapshot =
  ctx :: SignUpRouterContext
  routerCalls :: "RouterCall list"
  formInbox :: "(nat \<times> FormEvent) list"
  setActiveCalls :: "SetActiveCall list"
  raised :: "(SignUpRouterEvents \<times> nat option) list"
  thirdPartyInbox :: "ThirdPartyEvent list"
  startInbox :: "SignUpRouterEvents list"
  thirdPartySpawned :: bool
  console :: "LogEntry list"
  formFields :: "nat \<Rightarrow> (string \<rightharpoonup> string)"

type_synonym act = "Constants \<Rightarrow> SignUpRouterEvents \<Rightarrow> Snapshot \<Rightarrow> thrown + Snapshot"

text \<open>
  \<^verbatim>\<open>sendTo(({context}) => context.formRef, ev)\<close> as an entry of an action list, and
  \<^verbatim>\<open>context.formRef.send(ev)\<close> inside a function: both deliver \<open>ev\<close> to the form actor
  the context refers to.
\<close>

definition sendToForm :: "FormEvent \<Rightarrow> Snapshot \<Rightarrow> Snapshot" where
  "sendToForm ev s = s\<lparr>formInbox := formInbox s @ [(formRef (ctx s), ev)]\<rparr>"

definition raise_event :: "SignUpRouterEvents \<Rightarrow> nat option \<Rightarrow> Snapshot \<Rightarrow> Snapshot" where
  "raise_event ev delay s = s\<lparr>raised := raised s @ [(ev, delay)]\<rparr>"

definition console_log :: "LogEntry \<Rightarrow> Snapshot \<Rightarrow> Snapshot" where
  "console_log entry s = s\<lparr>console := console s @ [entry]\<rparr>"

text \<open>An action whose \<^verbatim>\<open>params\<close> are computed from the context.\<close>

definition with_params :: "(SignUpRouterContext \<Rightarrow> 'p) \<Rightarrow> ('p \<Rightarrow> act) \<Rightarrow> act" where
  "with_params f a k e s = a (f (ctx s)) k e s"

text \<open>\<^verbatim>\<open>context.router?.searchParams().get('redirect_url') || context.clerk.buildAfterSignUpUrl()\<close>.\<close>

definition redirect_target :: "SignUpRouterContext \<Rightarrow> string" where
  "redirect_target c =
     (case searchParam c ''redirect_url'' of
        None \<Rightarrow> buildAfterSignUpUrl (clerk c)
      | Some u \<Rightarrow> if u \<noteq> [] then u else buildAfterSignUpUrl (clerk c))"

text \<open>
  Modelled from the spec: the assertion helpers \<^verbatim>\<open>assertActorEventDone\<close> and
  \<^verbatim>\<open>assertActorEventError\<close> of \<^verbatim>\<open>../utils/assert\<close> are not among the sources. The spec
  has the completion of an invoked operation delivered as an event that carries the
  result or the error; \<^verbatim>\<open>assertActorEventDone\<close> passes on an event that carries an
  \<^verbatim>\<open>output\<close> and gives it, \<^verbatim>\<open>assertActorEventError\<close> passes on an event that carries an
  \<^verbatim>\<open>error\<close>; on any other event they throw.
\<close>

fun assertActorEventDone :: "SignUpRouterEvents \<Rightarrow> thrown + SignUpResource" where
  "assertActorEventDone (done_actor i out) = Inr out"
| "assertActorEventDone e = Inl ExpectedDoneEvent"

fun assertActorEventError :: "SignUpRouterEvents \<Rightarrow> thrown + ElementsError" where
  "assertActorEventError (error_actor i err) = Inr err"
| "assertActorEventError (EMAIL_LINK_FAILED err r) = Inr err"
| "assertActorEventError e = Inl ExpectedErrorEvent"

subsection \<open>The actions of \<^verbatim>\<open>setup({actions})\<close>\<close>

definition clearFormErrors :: act where
  "clearFormErrors k e s = Inr (sendToForm ERRORS_CLEAR s)"

definition logUnknownError :: act where
  "logUnknownError k e s = Inr (console_log (message ''Unknown error:'') s)"

definition navigateInternal :: "string \<Rightarrow> bool \<Rightarrow> act" where
  "navigateInternal path force k e s =
     (case router (ctx s) of
        None \<Rightarrow> Inr s
      | Some r \<Rightarrow>
          if \<not> force \<and> shouldUseVirtualRouting k then Inr s
          else if exampleMode (ctx s) then Inr s
          else
            (let resolvedPath = joinURL k (basePath r) path in
             if resolvedPath = pathname r then Inr s
             else Inr (s\<lparr>routerCalls := routerCalls s @ [shallowPush resolvedPath]\<rparr>)))"

definition navigateExternal :: "string \<Rightarrow> act" where
  "navigateExternal path k e s =
     (case router (ctx s) of
        None \<Rightarrow> Inr s
      | Some r \<Rightarrow> Inr (s\<lparr>routerCalls := routerCalls s @ [push path]\<rparr>))"

definition raiseNext :: act where
  "raiseNext k e s = Inr (raise_event (NEXT None) None s)"

definition resendableTick :: act where
  "resendableTick k e s =
     Inr (s\<lparr>ctx := (ctx s)\<lparr>
       resendable := Some (resendableAfter (ctx s) = Some 0),
       resendableAfter :=
         (case resendableAfter (ctx s) of
            None \<Rightarrow> None
          | Some n \<Rightarrow> if n > 0 then Some (n - 1) else Some n)\<rparr>\<rparr>)"

definition resendableReset :: act where
  "resendableReset k e s =
     Inr (s\<lparr>ctx := (ctx s)\<lparr>
       resendable := Some False,
       resendableAfter := Some (RESENDABLE_COUNTDOWN_DEFAULT k)\<rparr>\<rparr>)"

text \<open>
  \<^verbatim>\<open>setActive\<close> with \<^verbatim>\<open>params?.sessionId\<close> and \<^verbatim>\<open>params?.useLastActiveSession\<close>
  (a reference without params is \<open>setActive None False\<close>).
\<close>

definition setActive :: "string option \<Rightarrow> bool \<Rightarrow> act" where
  "setActive sessionId useLastActiveSession k e s =
     (if exampleMode (ctx s) then Inr s
      else
        (let c = ctx s;
             last = (if useLastActiveSession then lastActiveSessionId (clerk c) else None);
             created = createdSessionId
               (case event_resource e of Some r \<Rightarrow> r | None \<Rightarrow> signUp (clerk c));
             call = \<lparr>session = or_else sessionId (or_else last created),
                     beforeEmit = (case router c of
                                     None \<Rightarrow> None
                                   | Some r \<Rightarrow> Some (redirect_target c))\<rparr>
         in Inr (s\<lparr>setActiveCalls := setActiveCalls s @ [call]\<rparr>)))"

definition delayedReset :: act where
  "delayedReset k e s = Inr (raise_event RESET (Some 3000) s)"

definition goToNextStep :: act where
  "goToNextStep k e s =
     (case assertActorEventDone e of
        Inl x \<Rightarrow> Inl x
      | Inr out \<Rightarrow> Inr (raise_event (NEXT (Some out)) None s))"

text \<open>
  \<^verbatim>\<open>markFormAsProgressive\<close> builds the \<^verbatim>\<open>MARK_AS_PROGRESSIVE\<close> event and passes it to
  \<^verbatim>\<open>sendTo(context.formRef, ...)\<close> inside its own function body. That call only builds
  an action object, which the function drops: nothing is delivered.
\<close>

definition progressiveFieldValues :: "SignUpResource \<Rightarrow> string list \<Rightarrow> (string \<times> string option) list" where
  "progressiveFieldValues su keys =
     fold (\<lambda>key m. case properties su key of
                      None \<Rightarrow> m
                    | Some v \<Rightarrow> AList.update key v m) keys []"

definition MARK_AS_PROGRESSIVE_event :: "Constants \<Rightarrow> SignUpRouterContext \<Rightarrow> FormEvent" where
  "MARK_AS_PROGRESSIVE_event k c =
     (let su = signUp (clerk c);
          missing = map (snakeToCamel k) (missingFields su);
          optional = map (snakeToCamel k) (optionalFields su);
          required = map (snakeToCamel k) (requiredFields su)
      in MARK_AS_PROGRESSIVE missing optional required
           (progressiveFieldValues su (required @ optional)))"

definition markFormAsProgressive :: act where
  "markFormAsProgressive k e s =
     (let dropped_action_object = (formRef (ctx s), MARK_AS_PROGRESSIVE_event k (ctx s))
      in Inr s)"

definition unmarkFormAsProgressive :: act where
  "unmarkFormAsProgressive k e s = Inr (sendToForm UNMARK_AS_PROGRESSIVE s)"

definition loadingBegin :: "string \<Rightarrow> string option \<Rightarrow> string option \<Rightarrow> act" where
  "loadingBegin stp strat actn k e s =
     Inr (s\<lparr>ctx := (ctx s)\<lparr>loading :=
       \<lparr>isLoading = True, step = Some stp, strategy = strat, action = actn\<rparr>\<rparr>\<rparr>)"

definition loadingEnd :: act where
  "loadingEnd k e s =
     Inr (s\<lparr>ctx := (ctx s)\<lparr>loading :=
       \<lparr>isLoading = False, step = None, strategy = None, action = None\<rparr>\<rparr>\<rparr>)"

definition setError :: "ElementsError option \<Rightarrow> act" where
  "setError err k e s =
     Inr (s\<lparr>ctx := (ctx s)\<lparr>error :=
       Some (case err of
               Some x \<Rightarrow> x
             | None \<Rightarrow> ClerkElementsRuntimeError ''Unknown error'')\<rparr>\<rparr>)"

definition PREFILL_FIELDS :: "string list" where
  "PREFILL_FIELDS = [''firstName'', ''lastName'', ''emailAddress'', ''username'', ''phoneNumber'']"

definition DISABLEABLE_FIELDS :: "string list" where
  "DISABLEABLE_FIELDS = [''emailAddress'', ''phoneNumber'']"

definition setFormDefaultValues :: act where
  "setFormDefaultValues k e s =
     Inr (sendToForm
       (PREFILL_DEFAULT_VALUES (progressiveFieldValues (signUp (clerk (ctx s))) PREFILL_FIELDS)) s)"

text \<open>
  \<^verbatim>\<open>setFormDisabledTicketFields\<close> returns at once without a ticket. With one it walks
  \<^verbatim>\<open>DISABLEABLE_FIELDS\<close> and, for each field the form has, calls
  \<^verbatim>\<open>sendTo(context.formRef, {type: 'FIELD.DISABLE', field: {name}})\<close> inside its own
  function body: the action objects are built and dropped, nothing is delivered.
\<close>

definition FIELD_DISABLE_events :: "Snapshot \<Rightarrow> (nat \<times> FormEvent) list" where
  "FIELD_DISABLE_events s =
     (let currentFields = formFields s (formRef (ctx s)) in
      map (\<lambda>name. (formRef (ctx s), FIELD_DISABLE name))
        (filter (\<lambda>name. currentFields name \<noteq> None) DISABLEABLE_FIELDS))"

definition setFormDisabledTicketFields :: act where
  "setFormDisabledTicketFields k e s =
     (if \<not> truthy (ticket (ctx s)) then Inr s
      else (let dropped_action_objects = FIELD_DISABLE_events s in Inr s))"

definition setFormErrors :: act where
  "setFormErrors k e s =
     (case assertActorEventError e of
        Inl x \<Rightarrow> Inl x
      | Inr err \<Rightarrow> Inr (sendToForm (ERRORS_SET err) s))"

definition setFormOAuthErrors :: act where
  "setFormOAuthErrors k e s =
     (case firstFactorVerificationError (clerk (ctx s)) of
        None \<Rightarrow> Inr s
      | Some errorOrig \<Rightarrow>
          (let err =
             (if code errorOrig = NOT_ALLOWED_TO_SIGN_UP k
                 \<or> code errorOrig = OAUTH_ACCESS_DENIED k
                 \<or> code errorOrig = NOT_ALLOWED_ACCESS k
                 \<or> code errorOrig = SAML_USER_ATTRIBUTE_MISSING k
                 \<or> code errorOrig = OAUTH_EMAIL_DOMAIN_RESERVED_BY_SAML k
                 \<or> code errorOrig = USER_LOCKED k
              then ClerkElementsError (code errorOrig) (longMessage errorOrig)
              else ClerkElementsError ''unable_to_complete''
                (Some ''Unable to complete action at this time. If the problem persists please contact support.''))
           in Inr (sendToForm (ERRORS_SET err) s)))"

definition resetResource :: act where
  "resetResource k e s = Inr (s\<lparr>ctx := (ctx s)\<lparr>resource := Some (signUp (clerk (ctx s)))\<rparr>\<rparr>)"

definition setResource :: act where
  "setResource k e s =
     (case assertActorEventDone e of
        Inl x \<Rightarrow> Inl x
      | Inr out \<Rightarrow> Inr (s\<lparr>ctx := (ctx s)\<lparr>resource := Some out\<rparr>\<rparr>))"

definition transfer :: act where
  "transfer k e s =
     (case router (ctx s) of
        None \<Rightarrow> Inr s
      | Some r \<Rightarrow> Inr (s\<lparr>routerCalls := routerCalls s @ [push (buildSignInUrl (clerk (ctx s)))]\<rparr>))"

subsection \<open>The actions written inline in the machine\<close>

definition log :: "string \<Rightarrow> act" where
  "log msg k e s = Inr (console_log (message msg) s)"

text \<open>\<^verbatim>\<open>log(({context}) => `Not retriable; Try again in ${context.resendableAfter}s`)\<close>.\<close>

definition log_not_retriable :: act where
  "log_not_retriable k e s = Inr (console_log (not_retriable_in (resendableAfter (ctx s))) s)"

text \<open>
  The assignment of \<^verbatim>\<open>Idle.on.INIT\<close>. The ticket is
  \<^verbatim>\<open>searchParams?.get(SEARCH_PARAMS.ticket) || searchParams?.get(SEARCH_PARAMS.invitationToken) || undefined\<close>.
  (The handler is attached to \<^verbatim>\<open>INIT\<close> only; on another event the model leaves the
  snapshot as it is.)
\<close>

definition INIT_ticket :: "Constants \<Rightarrow> Router option \<Rightarrow> string option" where
  "INIT_ticket k r =
     (let get = (\<lambda>name. case r of None \<Rightarrow> None | Some rt \<Rightarrow> searchParams rt name);
          t1 = get (SEARCH_PARAMS_ticket k);
          t2 = get (SEARCH_PARAMS_invitationToken k)
      in if truthy t1 then t1 else if truthy t2 then t2 else None)"

definition INIT_assign :: act where
  "INIT_assign k e s =
     (case e of
        INIT ev \<Rightarrow>
          Inr (s\<lparr>ctx := (ctx s)\<lparr>
            clerk := init_clerk ev,
            router := init_router ev,
            signInPath := (case init_signInPath ev of
                             None \<Rightarrow> SIGN_IN_DEFAULT_BASE_PATH k
                           | Some p \<Rightarrow> if p \<noteq> [] then p else SIGN_IN_DEFAULT_BASE_PATH k),
            loading := \<lparr>isLoading = False, step = None, strategy = None, action = None\<rparr>,
            exampleMode := (case init_exampleMode ev of None \<Rightarrow> False | Some b \<Rightarrow> b),
            formRef := init_formRef ev,
            ticket := INIT_ticket k (init_router ev)\<rparr>\<rparr>)
      | _ \<Rightarrow> Inr s)"

text \<open>The entry action of \<^verbatim>\<open>Init\<close>: spawn the third-party machine unless it is running.\<close>

definition Init_entry :: act where
  "Init_entry k e s = (if \<not> thirdPartySpawned s then Inr (s\<lparr>thirdPartySpawned := True\<rparr>) else Inr s)"

text \<open>A template literal prints an undefined value as \<^verbatim>\<open>undefined\<close>.\<close>

definition template_text :: "string option \<Rightarrow> string" where
  "template_text v = (case v of None \<Rightarrow> ''undefined'' | Some x \<Rightarrow> x)"

definition sso_redirectUrl :: "Constants \<Rightarrow> SignUpRouterContext \<Rightarrow> string" where
  "sso_redirectUrl k c =
     template_text
       (if map_option mode (router c) = Some (ROUTING_virtual k)
        then map_option signUpUrl (environment (clerk c))
        else map_option basePath (router c))
     @ SSO_CALLBACK_PATH_ROUTE k"

definition AUTHENTICATE_OAUTH_action :: act where
  "AUTHENTICATE_OAUTH_action k e s =
     (case e of
        AUTHENTICATE_OAUTH strat \<Rightarrow>
          Inr (s\<lparr>thirdPartyInbox := thirdPartyInbox s @
            [REDIRECT strat None (sso_redirectUrl k (ctx s)) (redirect_target (ctx s))]\<rparr>)
      | _ \<Rightarrow> Inr s)"

definition AUTHENTICATE_SAML_action :: act where
  "AUTHENTICATE_SAML_action k e s =
     Inr (s\<lparr>thirdPartyInbox := thirdPartyInbox s @
       [REDIRECT ''saml'' (formFields s (formRef (ctx s)) ''emailAddress'')
          (sso_redirectUrl k (ctx s)) (redirect_target (ctx s))]\<rparr>)"

definition AUTHENTICATE_WEB3_action :: act where
  "AUTHENTICATE_WEB3_action k e s = Inr (s\<lparr>startInbox := startInbox s @ [e]\<rparr>)"

definition FORM_ATTACH_action :: act where
  "FORM_ATTACH_action k e s =
     (case e of
        FORM_ATTACH ref \<Rightarrow> Inr (raise_event RESET_STEP None (s\<lparr>ctx := (ctx s)\<lparr>formRef := ref\<rparr>\<rparr>))
      | _ \<Rightarrow> Inr s)"

definition LOADING_assign :: act where
  "LOADING_assign k e s =
     (case e of
        LOADING l \<Rightarrow> Inr (s\<lparr>ctx := (ctx s)\<lparr>loading := l\<rparr>\<rparr>)
      | _ \<Rightarrow> Inr s)"

text \<open>
  The first action of \<^verbatim>\<open>Verification.always[0]\<close> is an inline function that returns the
  object \<^verbatim>\<open>{type: 'setActive', params: ...}\<close>; XState runs the function and ignores what
  it returns.
\<close>

definition Verification_hasCreatedSession_action :: act where
  "Verification_hasCreatedSession_action k e s = Inr s"

text \<open>\<^verbatim>\<open>assign({resource: ({event}) => event.resource})\<close> of \<^verbatim>\<open>EMAIL_LINK.FAILED\<close>.\<close>

definition assign_event_resource :: act where
  "assign_event_resource k e s = Inr (s\<lparr>ctx := (ctx s)\<lparr>resource := event_resource e\<rparr>\<rparr>)"

definition EMAIL_LINK_wildcard_action :: act where
  "EMAIL_LINK_wildcard_action k e s =
     (case e of
        EMAIL_LINK_RESTART \<Rightarrow> Inr s
      | _ \<Rightarrow> Inr (raise_event (NEXT (event_resource e)) None
                   (s\<lparr>ctx := (ctx s)\<lparr>resource := event_resource e\<rparr>\<rparr>)))"

definition emailLinkTimeout_action :: act where
  "emailLinkTimeout_action k e s =
     Inr (sendToForm (ERRORS_SET (ClerkElementsError ''verify-email-link-timeout''
                        (Some ''Email link verification timed out''))) s)"

definition Callback_entry :: act where
  "Callback_entry k e s = Inr (s\<lparr>thirdPartyInbox := thirdPartyInbox s @ [CALLBACK]\<rparr>)"

section \<open>The state chart\<close>

datatype StateNode =
    SignUpRouter
  | Idle
  | Init
  | Start | Start_Init | Start_Pending | Start_Attempting | Start_AttemptingWeb3
  | Continue | Continue_Pending | Continue_Attempting
  | Verification | Verification_Init
  | EmailLink | EmailLink_Preparing | EmailLink_Pending | EmailLink_Attempting
  | EmailLink_Attempting_Resendable | EmailLink_Attempting_NotResendable
  | EmailCode | EmailCode_Preparing | EmailCode_Pending
  | EmailCode_Pending_Resendable | EmailCode_Pending_NotResendable | EmailCode_Attempting
  | PhoneCode | PhoneCode_Preparing | PhoneCode_Pending
  | PhoneCode_Pending_Resendable | PhoneCode_Pending_NotResendable | PhoneCode_Attempting
  | Callback
  | Restricted
  | Error
  | Hist

text \<open>
  What a transition table hangs on: \<^verbatim>\<open>always\<close>, \<^verbatim>\<open>on[event type]\<close>, the \<^verbatim>\<open>onDone\<close> and
  \<^verbatim>\<open>onError\<close> of the node's \<^verbatim>\<open>invoke\<close>, or \<^verbatim>\<open>after[delay]\<close>.
\<close>

datatype Trigger = always | on string | onDone | onError | after string

text \<open>A transition: its guard (if any), its actions, its target (if any), \<^verbatim>\<open>reenter\<close>.
  Relative targets are written as the node they resolve to.\<close>

record Transition =
  guard :: "guard option"
  actions :: "act list"
  target :: "StateNode option"
  reenter :: bool

text \<open>The first transition of the array whose guard is satisfied; a throwing guard
  stops the evaluation.\<close>

fun select :: "Constants \<Rightarrow> Transition list \<Rightarrow> SignUpRouterContext \<Rightarrow> SignUpRouterEvents
    \<Rightarrow> thrown + Transition option" where
  "select k [] c e = Inr None"
| "select k (t # ts) c e =
     (case guard t of
        None \<Rightarrow> Inr (Some t)
      | Some g \<Rightarrow>
          (case g k c e of
             Inl x \<Rightarrow> Inl x
           | Inr b \<Rightarrow> if b then Inr (Some t) else select k ts c e))"

text \<open>The decision alone: the target and the actions of the selected transition.\<close>

definition decision :: "Constants \<Rightarrow> Transition list \<Rightarrow> SignUpRouterContext \<Rightarrow> SignUpRouterEvents
    \<Rightarrow> thrown + (StateNode option \<times> act list) option" where
  "decision k ts c e =
     (case select k ts c e of
        Inl x \<Rightarrow> Inl x
      | Inr None \<Rightarrow> Inr None
      | Inr (Some t) \<Rightarrow> Inr (Some (target t, actions t)))"

fun run_actions :: "act list \<Rightarrow> act" where
  "run_actions [] k e s = Inr s"
| "run_actions (a # as) k e s =
     (case a k e s of
        Inl x \<Rightarrow> Inl x
      | Inr s' \<Rightarrow> run_actions as k e s')"

text \<open>
  Taking a transition of an array on an event: nothing when no guard is satisfied,
  otherwise the target of the selected transition and the snapshot after its actions.
\<close>

definition fire :: "Constants \<Rightarrow> Transition list \<Rightarrow> SignUpRouterEvents \<Rightarrow> Snapshot
    \<Rightarrow> thrown + (StateNode option \<times> Snapshot) option" where
  "fire k ts e s =
     (case select k ts (ctx s) e of
        Inl x \<Rightarrow> Inl x
      | Inr None \<Rightarrow> Inr None
      | Inr (Some t) \<Rightarrow>
          (case run_actions (actions t) k e s of
             Inl x \<Rightarrow> Inl x
           | Inr s' \<Rightarrow> Inr (Some (target t, s'))))"

subsection \<open>The transition tables, in source order\<close>

definition SignUpRouter_on :: "(string \<times> Transition list) list" where
  "SignUpRouter_on =
     [(''AUTHENTICATE.OAUTH'',
         [\<lparr>guard = None, actions = [AUTHENTICATE_OAUTH_action], target = None, reenter = False\<rparr>]),
      (''AUTHENTICATE.SAML'',
         [\<lparr>guard = None, actions = [AUTHENTICATE_SAML_action], target = None, reenter = False\<rparr>]),
      (''AUTHENTICATE.WEB3'',
         [\<lparr>guard = None, actions = [AUTHENTICATE_WEB3_action], target = None, reenter = False\<rparr>]),
      (''FORM.ATTACH'',
         [\<lparr>guard = None, actions = [FORM_ATTACH_action], target = None, reenter = False\<rparr>]),
      (''NAVIGATE.PREVIOUS'',
         [\<lparr>guard = None, actions = [], target = Some Hist, reenter = False\<rparr>]),
      (''NAVIGATE.START'',
         [\<lparr>guard = None, actions = [], target = Some Start, reenter = False\<rparr>]),
      (''LOADING'',
         [\<lparr>guard = None, actions = [LOADING_assign], target = None, reenter = False\<rparr>]),
      (''RESET'',
         [\<lparr>guard = None, actions = [], target = Some Idle, reenter = False\<rparr>])]"

definition Idle_on_INIT :: "Transition list" where
  "Idle_on_INIT =
     [\<lparr>guard = None, actions = [INIT_assign], target = Some Init, reenter = False\<rparr>]"

definition Init_always :: "Transition list" where
  "Init_always =
     [\<lparr>guard = Some isLoggedInAndSingleSession,
       actions = [log ''Already logged in'', with_params redirect_target navigateExternal],
       target = None, reenter = False\<rparr>,
      \<lparr>guard = Some needsCallback, actions = [], target = Some Callback, reenter = False\<rparr>,
      \<lparr>guard = Some hasTicket,
       actions = [navigateInternal ''/'' True],
       target = Some Start, reenter = False\<rparr>,
      \<lparr>guard = Some needsVerification,
       actions = [navigateInternal ''/verify'' True],
       target = Some Verification, reenter = False\<rparr>,
      \<lparr>guard = Some (or_guard [needsContinue, hasClerkTransfer]),
       actions = [navigateInternal ''/continue'' True],
       target = Some Continue, reenter = False\<rparr>,
      \<lparr>guard = Some isRestrictedWithoutTicket, actions = [], target = Some Restricted, reenter = False\<rparr>,
      \<lparr>guard = None,
       actions = [navigateInternal ''/'' True],
       target = Some Start, reenter = False\<rparr>]"

definition Start_on_RESET_STEP :: "Transition list" where
  "Start_on_RESET_STEP = [\<lparr>guard = None, actions = [], target = Some Start, reenter = True\<rparr>]"

definition Start_on_NEXT :: "Transition list" where
  "Start_on_NEXT =
     [\<lparr>guard = Some isComplete,
       actions = [setActive None False, delayedReset],
       target = None, reenter = False\<rparr>,
      \<lparr>guard = Some (and_guard [hasTicket, statusNeedsContinue]),
       actions = [navigateInternal ''/'' False],
       target = Some Start, reenter = False\<rparr>,
      \<lparr>guard = Some statusNeedsVerification,
       actions = [navigateInternal ''/verify'' False],
       target = Some Verification, reenter = False\<rparr>,
      \<lparr>guard = Some statusNeedsContinue,
       actions = [navigateInternal ''/continue'' False],
       target = Some Continue, reenter = False\<rparr>]"

definition Start_Init_always :: "Transition list" where
  "Start_Init_always =
     [\<lparr>guard = Some hasTicket, actions = [], target = Some Start_Attempting, reenter = False\<rparr>,
      \<lparr>guard = None, actions = [], target = Some Start_Pending, reenter = False\<rparr>]"

definition Start_Pending_on_SUBMIT :: "Transition list" where
  "Start_Pending_on_SUBMIT =
     [\<lparr>guard = Some (not_guard isExampleMode), actions = [],
       target = Some Start_Attempting, reenter = True\<rparr>]"

definition Start_Pending_on_AUTHENTICATE_WEB3 :: "Transition list" where
  "Start_Pending_on_AUTHENTICATE_WEB3 =
     [\<lparr>guard = Some (not_guard isExampleMode), actions = [],
       target = Some Start_AttemptingWeb3, reenter = True\<rparr>]"

definition Start_Attempting_onDone :: "Transition list" where
  "Start_Attempting_onDone =
     [\<lparr>guard = None,
       actions = [setResource, setFormDisabledTicketFields, goToNextStep],
       target = None, reenter = False\<rparr>]"

definition Start_Attempting_onError :: "Transition list" where
  "Start_Attempting_onError =
     [\<lparr>guard = None,
       actions = [setFormDisabledTicketFields, setFormErrors],
       target = Some Start_Pending, reenter = False\<rparr>]"

definition Start_AttemptingWeb3_onDone :: "Transition list" where
  "Start_AttemptingWeb3_onDone =
     [\<lparr>guard = None, actions = [setResource, goToNextStep], target = None, reenter = False\<rparr>]"

definition Start_AttemptingWeb3_onError :: "Transition list" where
  "Start_AttemptingWeb3_onError =
     [\<lparr>guard = None, actions = [setFormErrors], target = Some Start_Pending, reenter = False\<rparr>]"

definition Continue_on_RESET_STEP :: "Transition list" where
  "Continue_on_RESET_STEP = [\<lparr>guard = None, actions = [], target = Some Continue, reenter = True\<rparr>]"

definition Continue_on_NEXT :: "Transition list" where
  "Continue_on_NEXT =
     [\<lparr>guard = Some isComplete,
       actions = [setActive None False, delayedReset],
       target = None, reenter = False\<rparr>,
      \<lparr>guard = Some statusNeedsVerification,
       actions = [navigateInternal ''/verify'' False],
       target = Some Verification, reenter = False\<rparr>]"

definition Continue_Pending_on_SUBMIT :: "Transition list" where
  "Continue_Pending_on_SUBMIT =
     [\<lparr>guard = None, actions = [], target = Some Continue_Attempting, reenter = True\<rparr>]"

definition Continue_Attempting_onDone :: "Transition list" where
  "Continue_Attempting_onDone =
     [\<lparr>guard = None, actions = [setResource, goToNextStep], target = None, reenter = False\<rparr>]"

definition Continue_Attempting_onError :: "Transition list" where
  "Continue_Attempting_onError =
     [\<lparr>guard = None, actions = [setFormErrors], target = Some Continue_Pending, reenter = False\<rparr>]"

definition Verification_always :: "Transition list" where
  "Verification_always =
     [\<lparr>guard = Some hasCreatedSession,
       actions = [Verification_hasCreatedSession_action, delayedReset],
       target = None, reenter = False\<rparr>,
      \<lparr>guard = Some (hasClerkStatus (Some ''verified'')),
       actions = [navigateInternal ''/continue'' True],
       target = None, reenter = False\<rparr>,
      \<lparr>guard = Some (hasClerkStatus (Some ''expired'')),
       actions = [navigateInternal ''/'' True],
       target = None, reenter = False\<rparr>]"

definition Verification_on_RESET_STEP :: "Transition list" where
  "Verification_on_RESET_STEP =
     [\<lparr>guard = None, actions = [], target = Some Verification, reenter = True\<rparr>]"

definition Verification_on_NEXT :: "Transition list" where
  "Verification_on_NEXT =
     [\<lparr>guard = Some isComplete,
       actions = [setActive None False, delayedReset],
       target = None, reenter = False\<rparr>,
      \<lparr>guard = Some statusNeedsContinue,
       actions = [navigateInternal ''/continue'' False],
       target = Some Continue, reenter = False\<rparr>,
      \<lparr>guard = None, actions = [], target = Some Verification_Init, reenter = False\<rparr>]"

definition Verification_Init_always :: "Transition list" where
  "Verification_Init_always =
     [\<lparr>guard = Some shouldVerifyPhoneCode, actions = [], target = Some PhoneCode, reenter = False\<rparr>,
      \<lparr>guard = Some shouldVerifyEmailLink, actions = [], target = Some EmailLink, reenter = False\<rparr>,
      \<lparr>guard = Some shouldVerifyEmailCode, actions = [], target = Some EmailCode, reenter = False\<rparr>]"

definition EmailLink_on :: "(string \<times> Transition list) list" where
  "EmailLink_on =
     [(''RETRY'',
         [\<lparr>guard = None, actions = [], target = Some EmailLink_Preparing, reenter = False\<rparr>]),
      (''EMAIL_LINK.RESTART'',
         [\<lparr>guard = None, actions = [], target = Some EmailLink_Attempting, reenter = True\<rparr>]),
      (''EMAIL_LINK.FAILED'',
         [\<lparr>guard = None, actions = [setFormErrors, assign_event_resource],
           target = Some EmailLink_Pending, reenter = False\<rparr>]),
      (''EMAIL_LINK.*'',
         [\<lparr>guard = None, actions = [EMAIL_LINK_wildcard_action], target = None, reenter = False\<rparr>])]"

definition EmailLink_Preparing_onDone :: "Transition list" where
  "EmailLink_Preparing_onDone =
     [\<lparr>guard = None, actions = [setResource], target = Some EmailLink_Attempting, reenter = False\<rparr>]"

definition EmailLink_Preparing_onError :: "Transition list" where
  "EmailLink_Preparing_onError =
     [\<lparr>guard = None, actions = [setFormErrors], target = Some EmailLink_Pending, reenter = False\<rparr>]"

definition EmailLink_Pending_on_NEXT :: "Transition list" where
  "EmailLink_Pending_on_NEXT =
     [\<lparr>guard = None, actions = [], target = Some EmailLink_Preparing, reenter = False\<rparr>]"

definition EmailLink_Attempting_after_emailLinkTimeout :: "Transition list" where
  "EmailLink_Attempting_after_emailLinkTimeout =
     [\<lparr>guard = None, actions = [emailLinkTimeout_action],
       target = Some EmailLink_Pending, reenter = False\<rparr>]"

text \<open>The three \<^verbatim>\<open>NotResendable\<close> states have the same two tables; \<open>res\<close> and \<open>notres\<close>
  are the \<^verbatim>\<open>Resendable\<close> and \<^verbatim>\<open>NotResendable\<close> siblings.\<close>

definition NotResendable_on_RETRY :: "Transition list" where
  "NotResendable_on_RETRY =
     [\<lparr>guard = None, actions = [log_not_retriable], target = None, reenter = False\<rparr>]"

definition NotResendable_after_resendableTimeout :: "StateNode \<Rightarrow> StateNode \<Rightarrow> Transition list" where
  "NotResendable_after_resendableTimeout res notres =
     [\<lparr>guard = Some isResendable, actions = [resendableTick], target = Some res, reenter = False\<rparr>,
      \<lparr>guard = None, actions = [resendableTick], target = Some notres, reenter = True\<rparr>]"

definition EmailCode_Preparing_onDone :: "Transition list" where
  "EmailCode_Preparing_onDone =
     [\<lparr>guard = Some shouldVerifyEmailCode, actions = [setResource],
       target = Some EmailCode_Pending, reenter = False\<rparr>,
      \<lparr>guard = None, actions = [setResource, goToNextStep], target = None, reenter = False\<rparr>]"

definition EmailCode_Preparing_onError :: "Transition list" where
  "EmailCode_Preparing_onError =
     [\<lparr>guard = None, actions = [setFormErrors], target = Some EmailCode_Pending, reenter = False\<rparr>]"

definition EmailCode_Pending_on :: "(string \<times> Transition list) list" where
  "EmailCode_Pending_on =
     [(''RETRY'',
         [\<lparr>guard = None, actions = [], target = Some EmailCode_Preparing, reenter = False\<rparr>]),
      (''SUBMIT'',
         [\<lparr>guard = None, actions = [], target = Some EmailCode_Attempting, reenter = True\<rparr>])]"

definition EmailCode_Attempting_onDone :: "Transition list" where
  "EmailCode_Attempting_onDone =
     [\<lparr>guard = None, actions = [setResource, goToNextStep], target = None, reenter = False\<rparr>]"

definition EmailCode_Attempting_onError :: "Transition list" where
  "EmailCode_Attempting_onError =
     [\<lparr>guard = None, actions = [setFormErrors], target = Some EmailCode_Pending, reenter = False\<rparr>]"

definition PhoneCode_Preparing_onDone :: "Transition list" where
  "PhoneCode_Preparing_onDone =
     [\<lparr>guard = Some shouldVerifyPhoneCode, actions = [setResource],
       target = Some PhoneCode_Pending, reenter = False\<rparr>,
      \<lparr>guard = None, actions = [setResource, goToNextStep], target = None, reenter = False\<rparr>]"

definition PhoneCode_Preparing_onError :: "Transition list" where
  "PhoneCode_Preparing_onError =
     [\<lparr>guard = None, actions = [setFormErrors], target = Some PhoneCode_Pending, reenter = False\<rparr>]"

definition PhoneCode_Pending_on :: "(string \<times> Transition list) list" where
  "PhoneCode_Pending_on =
     [(''RETRY'',
         [\<lparr>guard = None, actions = [], target = Some PhoneCode_Preparing, reenter = False\<rparr>]),
      (''SUBMIT'',
         [\<lparr>guard = None, actions = [], target = Some PhoneCode_Attempting, reenter = True\<rparr>])]"

definition PhoneCode_Attempting_onDone :: "Transition list" where
  "PhoneCode_Attempting_onDone =
     [\<lparr>guard = None, actions = [setResource, goToNextStep], target = None, reenter = False\<rparr>]"

definition PhoneCode_Attempting_onError :: "Transition list" where
  "PhoneCode_Attempting_onError =
     [\<lparr>guard = None, actions = [setFormErrors], target = Some PhoneCode_Pending, reenter = False\<rparr>]"

definition Callback_on_NEXT :: "Transition list" where
  "Callback_on_NEXT =
     [\<lparr>guard = Some isComplete,
       actions = [setActive None False, delayedReset],
       target = None, reenter = False\<rparr>,
      \<lparr>guard = Some hasAuthenticatedViaClerkJS,
       actions = [setActive None True, delayedReset],
       target = None, reenter = False\<rparr>,
      \<lparr>guard = Some statusNeedsVerification,
       actions = [navigateInternal ''/verify'' False],
       target = Some Verification, reenter = False\<rparr>,
      \<lparr>guard = Some statusNeedsContinue,
       actions = [navigateInternal ''/continue'' False],
       target = Some Continue, reenter = False\<rparr>,
      \<lparr>guard = None,
       actions = [navigateInternal ''/'' False],
       target = Some Start, reenter = False\<rparr>]"

definition Restricted_on_NEXT :: "Transition list" where
  "Restricted_on_NEXT = [\<lparr>guard = None, actions = [], target = Some Start, reenter = False\<rparr>]"

definition Error_on_NEXT :: "Transition list" where
  "Error_on_NEXT =
     [\<lparr>guard = None, actions = [clearFormErrors], target = Some Start, reenter = False\<rparr>]"

text \<open>The whole chart: every transition table with its node and its trigger.\<close>

definition machine :: "(StateNode \<times> Trigger \<times> Transition list) list" where
  "machine =
     map (\<lambda>(ev, ts). (SignUpRouter, on ev, ts)) SignUpRouter_on @
     [(Idle, on ''INIT'', Idle_on_INIT),
      (Init, always, Init_always),
      (Start, on ''RESET.STEP'', Start_on_RESET_STEP),
      (Start, on ''NEXT'', Start_on_NEXT),
      (Start_Init, always, Start_Init_always),
      (Start_Pending, on ''SUBMIT'', Start_Pending_on_SUBMIT),
      (Start_Pending, on ''AUTHENTICATE.WEB3'', Start_Pending_on_AUTHENTICATE_WEB3),
      (Start_Attempting, onDone, Start_Attempting_onDone),
      (Start_Attempting, onError, Start_Attempting_onError),
      (Start_AttemptingWeb3, onDone, Start_AttemptingWeb3_onDone),
      (Start_AttemptingWeb3, onError, Start_AttemptingWeb3_onError),
      (Continue, on ''RESET.STEP'', Continue_on_RESET_STEP),
      (Continue, on ''NEXT'', Continue_on_NEXT),
      (Continue_Pending, on ''SUBMIT'', Continue_Pending_on_SUBMIT),
      (Continue_Attempting, onDone, Continue_Attempting_onDone),
      (Continue_Attempting, onError, Continue_Attempting_onError),
      (Verification, always, Verification_always),
      (Verification, on ''RESET.STEP'', Verification_on_RESET_STEP),
      (Verification, on ''NEXT'', Verification_on_NEXT),
      (Verification_Init, always, Verification_Init_always)] @
     map (\<lambda>(ev, ts). (EmailLink, on ev, ts)) EmailLink_on @
     [(EmailLink_Preparing, onDone, EmailLink_Preparing_onDone),
      (EmailLink_Preparing, onError, EmailLink_Preparing_onError),
      (EmailLink_Pending, on ''NEXT'', EmailLink_Pending_on_NEXT),
      (EmailLink_Attempting, after ''emailLinkTimeout'', EmailLink_Attempting_after_emailLinkTimeout),
      (EmailLink_Attempting_NotResendable, on ''RETRY'', NotResendable_on_RETRY),
      (EmailLink_Attempting_NotResendable, after ''resendableTimeout'',
         NotResendable_after_resendableTimeout
           EmailLink_Attempting_Resendable EmailLink_Attempting_NotResendable),
      (EmailCode_Preparing, onDone, EmailCode_Preparing_onDone),
      (EmailCode_Preparing, onError, EmailCode_Preparing_onError)] @
     map (\<lambda>(ev, ts). (EmailCode_Pending, on ev, ts)) EmailCode_Pending_on @
     [(EmailCode_Pending_NotResendable, on ''RETRY'', NotResendable_on_RETRY),
      (EmailCode_Pending_NotResendable, after ''resendableTimeout'',
         NotResendable_after_resendableTimeout
           EmailCode_Pending_Resendable EmailCode_Pending_NotResendable),
      (EmailCode_Attempting, onDone, EmailCode_Attempting_onDone),
      (EmailCode_Attempting, onError, EmailCode_Attempting_onError),
      (PhoneCode_Preparing, onDone, PhoneCode_Preparing_onDone),
      (PhoneCode_Preparing, onError, PhoneCode_Preparing_onError)] @
     map (\<lambda>(ev, ts). (PhoneCode_Pending, on ev, ts)) PhoneCode_Pending_on @
     [(PhoneCode_Pending_NotResendable, on ''RETRY'', NotResendable_on_RETRY),
      (PhoneCode_Pending_NotResendable, after ''resendableTimeout'',
         NotResendable_after_resendableTimeout
           PhoneCode_Pending_Resendable PhoneCode_Pending_NotResendable),
      (PhoneCode_Attempting, onDone, PhoneCode_Attempting_onDone),
      (PhoneCode_Attempting, onError, PhoneCode_Attempting_onError),
      (Callback, on ''NEXT'', Callback_on_NEXT),
      (Restricted, on ''NEXT'', Restricted_on_NEXT),
      (Error, on ''NEXT'', Error_on_NEXT)]"

text \<open>The \<^verbatim>\<open>entry\<close> and \<^verbatim>\<open>exit\<close> actions of the nodes.\<close>

fun entry :: "StateNode \<Rightarrow> act list" where
  "entry Init = [Init_entry]"
| "entry Start = [setFormDefaultValues]"
| "entry Start_Attempting = [loadingBegin ''start'' None None]"
| "entry Start_AttemptingWeb3 = [loadingBegin ''start'' None None]"
| "entry Continue = [markFormAsProgressive]"
| "entry Continue_Attempting = [loadingBegin ''continue'' None None]"
| "entry EmailCode_Attempting = [loadingBegin ''verifications'' None None]"
| "entry PhoneCode_Attempting = [loadingBegin ''verifications'' None None]"
| "entry Callback = [Callback_entry]"
| "entry n = []"

fun exit :: "StateNode \<Rightarrow> act list" where
  "exit Start = [clearFormErrors]"
| "exit Start_Attempting = [loadingEnd]"
| "exit Start_AttemptingWeb3 = [loadingEnd]"
| "exit Continue = [unmarkFormAsProgressive]"
| "exit Continue_Attempting = [loadingEnd]"
| "exit EmailLink_Preparing = [resendableReset]"
| "exit EmailCode_Preparing = [resendableReset]"
| "exit EmailCode_Attempting = [loadingEnd]"
| "exit PhoneCode_Preparing = [resendableReset]"
| "exit PhoneCode_Attempting = [loadingEnd]"
| "exit Hist = [clearFormErrors]"
| "exit n = []"

subsection \<open>The hierarchy of the nodes\<close>

text \<open>The node a node is declared in (\<^verbatim>\<open>states\<close>); the root has none.\<close>

fun parent :: "StateNode \<Rightarrow> StateNode option" where
  "parent SignUpRouter = None"
| "parent Start_Init = Some Start"
| "parent Start_Pending = Some Start"
| "parent Start_Attempting = Some Start"
| "parent Start_AttemptingWeb3 = Some Start"
| "parent Continue_Pending = Some Continue"
| "parent Continue_Attempting = Some Continue"
| "parent Verification_Init = Some Verification"
| "parent EmailLink = Some Verification"
| "parent EmailCode = Some Verification"
| "parent PhoneCode = Some Verification"
| "parent EmailLink_Preparing = Some EmailLink"
| "parent EmailLink_Pending = Some EmailLink"
| "parent EmailLink_Attempting = Some EmailLink"
| "parent EmailLink_Attempting_Resendable = Some EmailLink_Attempting"
| "parent EmailLink_Attempting_NotResendable = Some EmailLink_Attempting"
| "parent EmailCode_Preparing = Some EmailCode"
| "parent EmailCode_Pending = Some EmailCode"
| "parent EmailCode_Attempting = Some EmailCode"
| "parent EmailCode_Pending_Resendable = Some EmailCode_Pending"
| "parent EmailCode_Pending_NotResendable = Some EmailCode_Pending"
| "parent PhoneCode_Preparing = Some PhoneCode"
| "parent PhoneCode_Pending = Some PhoneCode"
| "parent PhoneCode_Attempting = Some PhoneCode"
| "parent PhoneCode_Pending_Resendable = Some PhoneCode_Pending"
| "parent PhoneCode_Pending_NotResendable = Some PhoneCode_Pending"
| "parent n = Some SignUpRouter"

text \<open>The \<^verbatim>\<open>initial\<close> child of a compound node.\<close>

fun initial :: "StateNode \<Rightarrow> StateNode option" where
  "initial SignUpRouter = Some Idle"
| "initial Start = Some Start_Init"
| "initial Continue = Some Continue_Pending"
| "initial Verification = Some Verification_Init"
| "initial EmailLink = Some EmailLink_Preparing"
| "initial EmailLink_Attempting = Some EmailLink_Attempting_NotResendable"
| "initial EmailCode = Some EmailCode_Preparing"
| "initial EmailCode_Pending = Some EmailCode_Pending_NotResendable"
| "initial PhoneCode = Some PhoneCode_Preparing"
| "initial PhoneCode_Pending = Some PhoneCode_Pending_NotResendable"
| "initial n = None"

text \<open>\<^verbatim>\<open>type: 'history'\<close>: \<^verbatim>\<open>Hist\<close>, a child of the root, with no \<^verbatim>\<open>target\<close> and no
  \<^verbatim>\<open>history: 'deep'\<close>.\<close>

fun isHistoryNode :: "StateNode \<Rightarrow> bool" where
  "isHistoryNode Hist = True"
| "isHistoryNode n = False"

text \<open>The \<^verbatim>\<open>id\<close> of the actor a node invokes.\<close>

fun invoke :: "StateNode \<Rightarrow> string option" where
  "invoke Start_Attempting = Some ''startAttempt''"
| "invoke Start_AttemptingWeb3 = Some ''startAttemptWeb3''"
| "invoke Continue_Attempting = Some ''continueAttempt''"
| "invoke EmailLink_Preparing = Some ''prepareEmailLinkVerification''"
| "invoke EmailLink_Attempting = Some ''attemptEmailLinkVerification''"
| "invoke EmailCode_Preparing = Some ''prepareEmailAddressCodeVerification''"
| "invoke EmailCode_Attempting = Some ''attemptEmailAddressCodeVerification''"
| "invoke PhoneCode_Preparing = Some ''preparePhoneCodeVerification''"
| "invoke PhoneCode_Attempting = Some ''attemptPhoneNumberVerification''"
| "invoke n = None"

text \<open>The proper ancestors of a node, innermost first; the chart is five levels deep.\<close>

fun climb :: "nat \<Rightarrow> StateNode \<Rightarrow> StateNode list" where
  "climb 0 n = []"
| "climb (Suc f) n = (case parent n of None \<Rightarrow> [] | Some p \<Rightarrow> p # climb f p)"

definition getProperAncestors :: "StateNode \<Rightarrow> StateNode list" where
  "getProperAncestors n = climb 4 n"

definition isDescendant :: "StateNode \<Rightarrow> StateNode \<Rightarrow> bool" where
  "isDescendant n d = (d \<in> set (getProperAncestors n))"

text \<open>The nodes entered below a node by default: its initial child, that child's
  initial child, and so on, outermost first.\<close>

fun descend :: "nat \<Rightarrow> StateNode \<Rightarrow> StateNode list" where
  "descend 0 n = []"
| "descend (Suc f) n = (case initial n of None \<Rightarrow> [] | Some c \<Rightarrow> c # descend f c)"

section \<open>Steps of the machine\<close>

text \<open>
  The machine between two events, as XState v5 keeps it: the active atomic node (the
  chart has no parallel node, so the active nodes are that node and its ancestors), the
  snapshot, what is recorded for the history node \<^verbatim>\<open>Hist\<close> (\<^verbatim>\<open>historyValue\<close>), and how
  many entries of \<open>raised\<close> have been taken from the internal queue.
\<close>

record Configuration =
  atomic :: StateNode
  snap :: Snapshot
  historyValue :: "StateNode option"
  dequeued :: nat

definition active :: "Configuration \<Rightarrow> StateNode list" where
  "active cf = atomic cf # getProperAncestors (atomic cf)"

text \<open>The event descriptors an event type matches: the type itself, then the partial
  wildcard \<^verbatim>\<open>EMAIL_LINK.*\<close>.\<close>

fun descriptors :: "SignUpRouterEvents \<Rightarrow> string list" where
  "descriptors (INIT ev) = [''INIT'']"
| "descriptors RESET = [''RESET'']"
| "descriptors RESET_STEP = [''RESET.STEP'']"
| "descriptors SUBMIT = [''SUBMIT'']"
| "descriptors RETRY = [''RETRY'']"
| "descriptors (NEXT r) = [''NEXT'']"
| "descriptors NAVIGATE_START = [''NAVIGATE.START'']"
| "descriptors NAVIGATE_PREVIOUS = [''NAVIGATE.PREVIOUS'']"
| "descriptors (AUTHENTICATE_OAUTH st) = [''AUTHENTICATE.OAUTH'']"
| "descriptors AUTHENTICATE_SAML = [''AUTHENTICATE.SAML'']"
| "descriptors (AUTHENTICATE_WEB3 st) = [''AUTHENTICATE.WEB3'']"
| "descriptors (FORM_ATTACH ref) = [''FORM.ATTACH'']"
| "descriptors (LOADING l) = [''LOADING'']"
| "descriptors EMAIL_LINK_RESTART = [''EMAIL_LINK.RESTART'', ''EMAIL_LINK.*'']"
| "descriptors (EMAIL_LINK_FAILED err r) = [''EMAIL_LINK.FAILED'', ''EMAIL_LINK.*'']"
| "descriptors (EMAIL_LINK_other n r) = [''EMAIL_LINK.*'']"
| "descriptors e = []"

text \<open>
  The tables of a node an event can take: \<^verbatim>\<open>on\<close> by descriptor; \<^verbatim>\<open>onDone\<close> and
  \<^verbatim>\<open>onError\<close> for the completion of the actor the node itself invokes; \<^verbatim>\<open>after\<close> for
  a delay (a node's timers are cancelled when it is exited, so a delay reaches active
  nodes only).
\<close>

fun triggers :: "SignUpRouterEvents \<Rightarrow> StateNode \<Rightarrow> Trigger list" where
  "triggers (done_actor i out) n = (if invoke n = Some i then [onDone] else [])"
| "triggers (error_actor i err) n = (if invoke n = Some i then [onError] else [])"
| "triggers (after_delay d) n = [after d]"
| "triggers e n = map on (descriptors e)"

definition transitions :: "StateNode \<Rightarrow> Trigger \<rightharpoonup> Transition list" where
  "transitions n trig = map_of (map (\<lambda>(n, trig, ts). ((n, trig), ts)) machine) (n, trig)"

text \<open>\<^verbatim>\<open>getCandidates\<close>: the table under the exact event type if the node has one,
  otherwise the table under a wildcard that matches.\<close>

fun getCandidates :: "StateNode \<Rightarrow> Trigger list \<Rightarrow> Transition list" where
  "getCandidates n [] = []"
| "getCandidates n (d # ds) =
     (case transitions n d of Some ts \<Rightarrow> ts | None \<Rightarrow> getCandidates n ds)"

text \<open>
  \<^verbatim>\<open>selectTransitions\<close>: from the atomic node outwards, the first node one of whose
  candidates has a satisfied guard, with that candidate.
\<close>

fun selectTransitions :: "Constants \<Rightarrow> (StateNode \<Rightarrow> Trigger list) \<Rightarrow> StateNode list
    \<Rightarrow> SignUpRouterContext \<Rightarrow> SignUpRouterEvents \<Rightarrow> thrown + (StateNode \<times> Transition) option" where
  "selectTransitions k trs [] c e = Inr None"
| "selectTransitions k trs (n # ns) c e =
     (case select k (getCandidates n (trs n)) c e of
        Inl x \<Rightarrow> Inl x
      | Inr None \<Rightarrow> selectTransitions k trs ns c e
      | Inr (Some t) \<Rightarrow> Inr (Some (n, t)))"

text \<open>
  \<^verbatim>\<open>getEffectiveTargetStates\<close>: a history node stands for what is recorded for it and,
  with nothing recorded and no \<^verbatim>\<open>target\<close> of its own, for the initial child of its
  parent (\<^verbatim>\<open>resolveHistoryDefaultTransition\<close>).
\<close>

definition getEffectiveTargetStates :: "StateNode option \<Rightarrow> StateNode \<Rightarrow> StateNode" where
  "getEffectiveTargetStates h tg =
     (if isHistoryNode tg
      then (case h of
              Some n \<Rightarrow> n
            | None \<Rightarrow> (case Option.bind (parent tg) initial of Some i \<Rightarrow> i | None \<Rightarrow> tg))
      else tg)"

text \<open>\<^verbatim>\<open>findLeastCommonAncestor\<close>: the innermost proper ancestor of the target that the
  source is a proper descendant of.\<close>

definition findLeastCommonAncestor :: "StateNode \<Rightarrow> StateNode \<Rightarrow> StateNode option" where
  "findLeastCommonAncestor goal src = find (\<lambda>a. isDescendant src a) (getProperAncestors goal)"

text \<open>
  \<^verbatim>\<open>getTransitionDomain\<close>: the source, for a transition without \<^verbatim>\<open>reenter\<close> into the
  source or below it; otherwise the least common ancestor; without one, the root, or
  nothing when the transition has \<^verbatim>\<open>reenter\<close>.
\<close>

definition getTransitionDomain :: "StateNode \<Rightarrow> bool \<Rightarrow> StateNode \<Rightarrow> StateNode option" where
  "getTransitionDomain src re goal =
     (if \<not> re \<and> (goal = src \<or> isDescendant goal src) then Some src
      else (case findLeastCommonAncestor goal src of
              Some a \<Rightarrow> Some a
            | None \<Rightarrow> if re then None else Some SignUpRouter))"

text \<open>\<^verbatim>\<open>computeExitSet\<close>: the active nodes below the domain (all of them without a domain),
  innermost first.\<close>

definition computeExitSet :: "StateNode option \<Rightarrow> StateNode \<Rightarrow> bool \<Rightarrow> StateNode list
    \<Rightarrow> StateNode list" where
  "computeExitSet d src re act =
     (case d of
        None \<Rightarrow> act
      | Some dn \<Rightarrow> filter (\<lambda>n. isDescendant n dn \<or> (re \<and> src = dn \<and> n = dn)) act)"

text \<open>\<^verbatim>\<open>computeEntrySet\<close>: the ancestors of the target below the domain, the target, and
  the nodes entered by default below it, outermost first.\<close>

definition computeEntrySet :: "StateNode option \<Rightarrow> StateNode \<Rightarrow> bool \<Rightarrow> StateNode \<Rightarrow> StateNode
    \<Rightarrow> StateNode list" where
  "computeEntrySet d src re tg goal =
     rev (filter (\<lambda>a. case d of None \<Rightarrow> True | Some dn \<Rightarrow> isDescendant a dn)
            (getProperAncestors goal))
     @ (if isHistoryNode tg \<or> tg \<noteq> src \<or> Some src \<noteq> d \<or> re then [goal] else [])
     @ descend 4 goal"

text \<open>
  \<^verbatim>\<open>microstep\<close>: taking the transition \<open>t\<close> of the node \<open>src\<close>. Without a target its
  actions run and the active nodes stay. With one, the exit actions of the nodes left,
  the actions of the transition and the entry actions of the nodes entered run in that
  order. What is recorded for \<^verbatim>\<open>Hist\<close> changes only when its parent, the root, is among
  the nodes left: then it is the child of the root that was active.
\<close>

definition microstep :: "Constants \<Rightarrow> SignUpRouterEvents \<Rightarrow> StateNode \<Rightarrow> Transition \<Rightarrow> Configuration
    \<Rightarrow> thrown + Configuration" where
  "microstep k e src t cf =
     (case target t of
        None \<Rightarrow>
          (case run_actions (actions t) k e (snap cf) of
             Inl x \<Rightarrow> Inl x
           | Inr s \<Rightarrow> Inr (cf\<lparr>snap := s\<rparr>))
      | Some tg \<Rightarrow>
          (let goal = getEffectiveTargetStates (historyValue cf) tg;
               d = getTransitionDomain src (reenter t) goal;
               leaving = computeExitSet d src (reenter t) (active cf);
               entering = computeEntrySet d src (reenter t) tg goal
           in case run_actions (concat (map exit leaving) @ actions t @ concat (map entry entering))
                     k e (snap cf) of
                Inl x \<Rightarrow> Inl x
              | Inr s \<Rightarrow>
                  Inr (cf\<lparr>atomic := last (atomic cf # entering), snap := s,
                         historyValue :=
                           (if SignUpRouter \<in> set leaving
                            then find (\<lambda>n. parent n = Some SignUpRouter) (active cf)
                            else historyValue cf)\<rparr>)))"

text \<open>The internal queue: the next entry of \<open>raised\<close> that was raised without a delay.
  An entry raised with a delay is a timer; it comes back as an event from outside.\<close>

fun first_undelayed :: "nat \<Rightarrow> (SignUpRouterEvents \<times> nat option) list
    \<Rightarrow> (SignUpRouterEvents \<times> nat) option" where
  "first_undelayed i [] = None"
| "first_undelayed i ((ev, d) # q) =
     (case d of None \<Rightarrow> Some (ev, Suc i) | Some ms \<Rightarrow> first_undelayed (Suc i) q)"

definition internalQueue_shift :: "Configuration \<Rightarrow> (SignUpRouterEvents \<times> Configuration) option" where
  "internalQueue_shift cf =
     map_option (\<lambda>(ev, i). (ev, cf\<lparr>dequeued := i\<rparr>))
       (first_undelayed (dequeued cf) (drop (dequeued cf) (raised (snap cf))))"

text \<open>
  The loop of \<^verbatim>\<open>macrostep\<close>: eventless (\<^verbatim>\<open>always\<close>) transitions first, then the next
  event of the internal queue, until neither is left. XState selects eventless
  transitions again only after a microstep that gave a new snapshot; the eventless
  transitions of this machine that have no target (\<^verbatim>\<open>Init.always[0]\<close> and the three of
  \<^verbatim>\<open>Verification.always\<close>) assign nothing, so after one of them the snapshot is the same
  and the selection is not repeated. The loop has fuel: without fuel left the result is
  \<open>None\<close>.
\<close>

fun macrostep_loop :: "nat \<Rightarrow> Constants \<Rightarrow> bool \<Rightarrow> SignUpRouterEvents \<Rightarrow> Configuration
    \<Rightarrow> thrown + Configuration option" where
  "macrostep_loop 0 k eventless e cf = Inr None"
| "macrostep_loop (Suc f) k eventless e cf =
     (case (if eventless then selectTransitions k (\<lambda>n. [always]) (active cf) (ctx (snap cf)) e
            else Inr None) of
        Inl x \<Rightarrow> Inl x
      | Inr (Some (src, t)) \<Rightarrow>
          (case microstep k e src t cf of
             Inl x \<Rightarrow> Inl x
           | Inr cf' \<Rightarrow> macrostep_loop f k (target t \<noteq> None) e cf')
      | Inr None \<Rightarrow>
          (case internalQueue_shift cf of
             None \<Rightarrow> Inr (Some cf)
           | Some (e', cf1) \<Rightarrow>
               (case selectTransitions k (triggers e') (active cf1) (ctx (snap cf1)) e' of
                  Inl x \<Rightarrow> Inl x
                | Inr None \<Rightarrow> macrostep_loop f k True e' cf1
                | Inr (Some (src, t)) \<Rightarrow>
                    (case microstep k e' src t cf1 of
                       Inl x \<Rightarrow> Inl x
                     | Inr cf' \<Rightarrow> macrostep_loop f k True e' cf'))))"

text \<open>\<^verbatim>\<open>macrostep\<close>: the machine takes an event from outside and runs to completion.\<close>

definition macrostep :: "nat \<Rightarrow> Constants \<Rightarrow> SignUpRouterEvents \<Rightarrow> Configuration
    \<Rightarrow> thrown + Configuration option" where
  "macrostep f k e cf =
     (case selectTransitions k (triggers e) (active cf) (ctx (snap cf)) e of
        Inl x \<Rightarrow> Inl x
      | Inr None \<Rightarrow> macrostep_loop f k True e cf
      | Inr (Some (src, t)) \<Rightarrow>
          (case microstep k e src t cf of
             Inl x \<Rightarrow> Inl x
           | Inr cf' \<Rightarrow> macrostep_loop f k True e cf'))"

text \<open>The configurations after each event of a list sent to the machine; the list ends
  at an event on which an action or a guard throws or the fuel runs out.\<close>

fun run :: "nat \<Rightarrow> Constants \<Rightarrow> SignUpRouterEvents list \<Rightarrow> Configuration \<Rightarrow> Configuration list" where
  "run f k [] cf = []"
| "run f k (e # es) cf =
     (case macrostep f k e cf of
        Inr (Some cf') \<Rightarrow> cf' # run f k es cf'
      | _ \<Rightarrow> [])"

section \<open>Runs of the machine\<close>

text \<open>
  A routine action: it leaves the ticket, the example-mode flag and both countdown
  fields as they are, and in example mode it calls neither the router adapter nor
  \<^verbatim>\<open>clerk.setActive\<close>.
\<close>

definition routine :: "act \<Rightarrow> bool" where
  "routine a =
     (\<forall>k e s s'. a k e s = Inr s' \<longrightarrow>
        ticket (ctx s') = ticket (ctx s)
        \<and> exampleMode (ctx s') = exampleMode (ctx s)
        \<and> resendable (ctx s') = resendable (ctx s)
        \<and> resendableAfter (ctx s') = resendableAfter (ctx s)
        \<and> (exampleMode (ctx s) \<longrightarrow>
             routerCalls s' = routerCalls s \<and> setActiveCalls s' = setActiveCalls s))"

text \<open>
  The snapshots the machine can reach, over-approximated: it starts with neither
  countdown field assigned (\<^verbatim>\<open>context: {}\<close>, and \<^verbatim>\<open>INIT\<close> assigns neither), and a step
  takes a transition of any table on any event, or runs the entry or exit actions of any
  node.
\<close>

inductive reachable :: "Constants \<Rightarrow> Snapshot \<Rightarrow> bool" for k :: Constants where
  initial: "resendable (ctx s) = None \<Longrightarrow> resendableAfter (ctx s) = None \<Longrightarrow> reachable k s"
| transition: "reachable k s \<Longrightarrow> (n, trig, ts) \<in> set machine \<Longrightarrow>
    fire k ts e s = Inr (Some (tg, s')) \<Longrightarrow> reachable k s'"
| enter: "reachable k s \<Longrightarrow> run_actions (entry n) k e s = Inr s' \<Longrightarrow> reachable k s'"
| leave: "reachable k s \<Longrightarrow> run_actions (exit n) k e s = Inr s' \<Longrightarrow> reachable k s'"

text \<open>The countdown is not negative, and \<open>resendable\<close> is true only at zero.\<close>

definition countdown_ok :: "Snapshot \<Rightarrow> bool" where
  "countdown_ok s =
     ((case resendableAfter (ctx s) of None \<Rightarrow> True | Some n \<Rightarrow> 0 \<le> n)
      \<and> (resendable (ctx s) = Some True \<longrightarrow> resendableAfter (ctx s) = Some 0))"

text \<open>Firing any table, or entering any node, keeps the countdown in order and keeps a
  true \<open>resendable\<close> true.\<close>

definition countdown_kept :: "Snapshot \<Rightarrow> Snapshot \<Rightarrow> bool" where
  "countdown_kept s s' =
     (countdown_ok s \<longrightarrow>
        countdown_ok s' \<and> (resendable (ctx s) = Some True \<longrightarrow> resendable (ctx s') = Some True))"

text \<open>
  The steps the machine can take other than \<^verbatim>\<open>Idle.on.INIT\<close>: a transition of any other
  table on any event, or the entry or exit actions of any node; \<open>after_INIT k s s'\<close> is a
  run of such steps from \<open>s\<close> to \<open>s'\<close>.
\<close>

inductive after_INIT :: "Constants \<Rightarrow> Snapshot \<Rightarrow> Snapshot \<Rightarrow> bool" for k :: Constants where
  stay: "after_INIT k s s"
| transition: "after_INIT k s s1 \<Longrightarrow> (n, trig, ts) \<in> set machine \<Longrightarrow>
    (n, trig) \<noteq> (Idle, on ''INIT'') \<Longrightarrow>
    fire k ts e s1 = Inr (Some (tg, s2)) \<Longrightarrow> after_INIT k s s2"
| enter: "after_INIT k s s1 \<Longrightarrow> run_actions (entry n) k e s1 = Inr s2 \<Longrightarrow> after_INIT k s s2"
| leave: "after_INIT k s s1 \<Longrightarrow> run_actions (exit n) k e s1 = Inr s2 \<Longrightarrow> after_INIT k s s2"

definition keeps_ticket :: "act \<Rightarrow> bool" where
  "keeps_ticket a = (\<forall>k e s s'. a k e s = Inr s' \<longrightarrow> ticket (ctx s') = ticket (ctx s))"

text \<open>In example mode: the flag stays set and neither the router adapter nor
  \<^verbatim>\<open>clerk.setActive\<close> is called.\<close>

definition quiet :: "Snapshot \<Rightarrow> Snapshot \<Rightarrow> bool" where
  "quiet s s' =
     (exampleMode (ctx s) \<longrightarrow>
        exampleMode (ctx s') \<and> routerCalls s' = routerCalls s
        \<and> setActiveCalls s' = setActiveCalls s)"

section \<open>Sample inputs\<close>

text \<open>Concrete values on which the theorems below are instantiated.\<close>

definition sample_constants :: Constants where
  "sample_constants =
     \<lparr>NOT_ALLOWED_TO_SIGN_UP = ''not_allowed_to_sign_up'',
      OAUTH_ACCESS_DENIED = ''oauth_access_denied'',
      NOT_ALLOWED_ACCESS = ''not_allowed_access'',
      SAML_USER_ATTRIBUTE_MISSING = ''saml_user_attribute_missing'',
      OAUTH_EMAIL_DOMAIN_RESERVED_BY_SAML = ''oauth_email_domain_reserved_by_saml'',
      USER_LOCKED = ''user_locked'',
      SEARCH_PARAMS_ticket = ''__clerk_ticket'',
      SEARCH_PARAMS_invitationToken = ''__clerk_invitation_token'',
      SEARCH_PARAMS_createdSession = ''__clerk_created_session'',
      SEARCH_PARAMS_status = ''__clerk_status'',
      SEARCH_PARAMS_transfer = ''__clerk_transfer'',
      MAGIC_LINK_VERIFY_PATH_ROUTE = ''/verify'',
      SSO_CALLBACK_PATH_ROUTE = ''/sso-callback'',
      ROUTING_virtual = ''virtual'',
      SIGN_IN_DEFAULT_BASE_PATH = ''/sign-in'',
      SIGN_UP_DEFAULT_BASE_PATH = ''/sign-up'',
      SIGN_UP_MODES_RESTRICTED = ''restricted'',
      RESENDABLE_COUNTDOWN_DEFAULT = 60,
      joinURL = (\<lambda>a b. a @ b),
      snakeToCamel = (\<lambda>x. x),
      shouldUseVirtualRouting = False\<rparr>"

definition sample_signUp :: "string option \<Rightarrow> string list \<Rightarrow> string list \<Rightarrow> SignUpResource" where
  "sample_signUp st missing unverified =
     \<lparr>status = st, createdSessionId = None, missingFields = missing,
      unverifiedFields = unverified, optionalFields = [], requiredFields = missing,
      properties = Map.empty\<rparr>"

definition sample_environment :: "string \<Rightarrow> string list \<Rightarrow> Environment" where
  "sample_environment md email_verifications =
     \<lparr>singleSessionMode = True, signUpMode = md, signUpUrl = ''/sign-up'',
      attributes = Some (\<lambda>a. if a = ''email_address'' then email_verifications else [])\<rparr>"

definition sample_clerk :: "SignUpResource \<Rightarrow> Environment \<Rightarrow> Clerk" where
  "sample_clerk su env =
     \<lparr>user = None, signUp = su, firstFactorVerificationError = None,
      lastActiveSessionId = None, environment = Some env,
      buildAfterSignUpUrl = ''/dashboard'', buildSignInUrl = ''/sign-in''\<rparr>"

definition sample_router :: "string \<Rightarrow> (string \<rightharpoonup> string) \<Rightarrow> Router" where
  "sample_router path params =
     \<lparr>basePath = ''/sign-up'', pathname = ''/sign-up'' @ path, match = (\<lambda>p. p = path),
      searchParams = params, mode = ''path''\<rparr>"

definition sample_context :: "Clerk \<Rightarrow> Router \<Rightarrow> SignUpRouterContext" where
  "sample_context cl r =
     \<lparr>clerk = cl, router = Some r, signInPath = ''/sign-in'',
      loading = \<lparr>isLoading = False, step = None, strategy = None, action = None\<rparr>,
      exampleMode = False, formRef = 0, ticket = None, resource = None,
      resendable = None, resendableAfter = None, error = None\<rparr>"

definition sample_snapshot :: "SignUpRouterContext \<Rightarrow> (string \<rightharpoonup> string) \<Rightarrow> Snapshot" where
  "sample_snapshot c form_fields =
     \<lparr>ctx = c, routerCalls = [], formInbox = [], setActiveCalls = [], raised = [],
      thirdPartyInbox = [], startInbox = [], thirdPartySpawned = True, console = [],
      formFields = (\<lambda>ref. form_fields)\<rparr>"

definition sample_InitEvent :: InitEvent where
  "sample_InitEvent =
     \<lparr>init_clerk = sample_clerk (sample_signUp None [] []) (sample_environment ''public'' []),
      init_router = Some (sample_router ''/'' Map.empty),
      init_signInPath = None, init_exampleMode = None, init_formRef = 0\<rparr>"

definition sample_INIT :: SignUpRouterEvents where
  "sample_INIT = INIT sample_InitEvent"

definition sample_blank_context :: "string \<Rightarrow> string \<Rightarrow> SignUpRouterContext" where
  "sample_blank_context md path =
     sample_context (sample_clerk (sample_signUp None [] []) (sample_environment md []))
       (sample_router path Map.empty)"

definition sample_continue_context :: SignUpRouterContext where
  "sample_continue_context =
     sample_context
       (sample_clerk (sample_signUp (Some ''missing_requirements'') [''password''] [])
          (sample_environment ''public'' []))
       (sample_router ''/'' Map.empty)"

definition sample_verify_context :: "string list \<Rightarrow> string list \<Rightarrow> SignUpRouterContext" where
  "sample_verify_context unverified email_verifications =
     (sample_context
        (sample_clerk (sample_signUp (Some ''missing_requirements'') [] unverified)
           (sample_environment ''public'' email_verifications))
        (sample_router ''/verify'' Map.empty))
     \<lparr>resource := Some (sample_signUp (Some ''missing_requirements'') [] unverified)\<rparr>"

definition sample_locked_context :: "string \<Rightarrow> SignUpRouterContext" where
  "sample_locked_context cd =
     (sample_blank_context ''public'' ''/'')
       \<lparr>clerk := (sample_clerk (sample_signUp None [] []) (sample_environment ''public'' []))
          \<lparr>firstFactorVerificationError :=
             Some \<lparr>code = cd, longMessage = Some ''Your account is locked.''\<rparr>\<rparr>\<rparr>"

definition sample_ticket_snapshot :: Snapshot where
  "sample_ticket_snapshot =
     sample_snapshot ((sample_blank_context ''public'' ''/'')\<lparr>ticket := Some ''ticket_123''\<rparr>)
       [''emailAddress'' \<mapsto> ''ada@example.com'', ''password'' \<mapsto> '''']"

definition sample_countdown_snapshot :: "int option \<Rightarrow> bool option \<Rightarrow> Snapshot" where
  "sample_countdown_snapshot ra rs =
     sample_snapshot
       ((sample_blank_context ''public'' ''/verify'')\<lparr>resendable := rs, resendableAfter := ra\<rparr>)
       Map.empty"

definition sample_constants_no_countdown :: Constants where
  "sample_constants_no_countdown = sample_constants\<lparr>RESENDABLE_COUNTDOWN_DEFAULT := 0\<rparr>"

definition sample_ticket_router :: Router where
  "sample_ticket_router =
     sample_router ''/''
       [''__clerk_ticket'' \<mapsto> ''ticket_123'', ''__clerk_invitation_token'' \<mapsto> ''invite_456'']"

definition sample_example_snapshot :: Snapshot where
  "sample_example_snapshot =
     sample_snapshot ((sample_blank_context ''public'' ''/'')\<lparr>exampleMode := True\<rparr>) Map.empty"

text \<open>
  The machine as it is created: in \<^verbatim>\<open>Idle\<close>, nothing recorded for \<^verbatim>\<open>Hist\<close>, nothing
  raised. The context is \<^verbatim>\<open>{}\<close> then; the record holds sample values in the seven fields
  the first \<^verbatim>\<open>INIT\<close> overwrites and nothing in the other four.
\<close>

definition sample_created :: Configuration where
  "sample_created =
     \<lparr>atomic = Idle,
      snap = (sample_snapshot (sample_blank_context ''public'' ''/'') Map.empty)
               \<lparr>thirdPartySpawned := False\<rparr>,
      historyValue = None, dequeued = 0\<rparr>"

text \<open>Two \<^verbatim>\<open>INIT\<close> events: on a URL with both ticket parameters, and on a URL with
  another ticket.\<close>

definition sample_first_InitEvent :: InitEvent where
  "sample_first_InitEvent = sample_InitEvent\<lparr>init_router := Some sample_ticket_router\<rparr>"

definition sample_second_InitEvent :: InitEvent where
  "sample_second_InitEvent =
     sample_InitEvent
       \<lparr>init_router := Some (sample_router ''/'' [''__clerk_ticket'' \<mapsto> ''ticket_789''])\<rparr>"

section \<open>Evaluating guards and transition arrays\<close>

lemma decision_guarded:
  "g k c e = Inr b \<Longrightarrow>
   decision k (\<lparr>guard = Some g, actions = as, target = tg, reenter = r\<rparr> # ts) c e =
     (if b then Inr (Some (tg, as)) else decision k ts c e)"
  by (simp add: decision_def)

lemma decision_throws:
  "g k c e = Inl x \<Longrightarrow>
   decision k (\<lparr>guard = Some g, actions = as, target = tg, reenter = r\<rparr> # ts) c e = Inl x"
  by (simp add: decision_def)

lemma decision_unguarded:
  "decision k (\<lparr>guard = None, actions = as, target = tg, reenter = r\<rparr> # ts) c e =
     Inr (Some (tg, as))"
  by (simp add: decision_def)

lemma decision_Nil: "decision k [] c e = Inr None"
  by (simp add: decision_def)

lemma isLoggedIn_val:
  "isLoggedIn k c e = Inr (isComplete k c e = Inr True \<or> user (clerk c) \<noteq> None)"
  by (simp add: isLoggedIn_def isComplete_def clerkUser_def)

lemma isLoggedInAndSingleSession_val:
  "isLoggedInAndSingleSession k c e =
     Inr ((isComplete k c e = Inr True \<or> user (clerk c) \<noteq> None)
          \<and> isSingleSessionMode k c e = Inr True \<and> \<not> exampleMode c)"
  by (simp add: isLoggedInAndSingleSession_def isLoggedIn_val isSingleSessionMode_def
      isExampleMode_def not_guard_def)

lemma needsCallback_val:
  "needsCallback k c e = Inr (isCurrentPath (SSO_CALLBACK_PATH_ROUTE k) k c e = Inr True)"
  by (simp add: needsCallback_def isCurrentPath_def)

lemma statusNeedsVerification_total: "\<exists>b. statusNeedsVerification k c e = Inr b"
  by (auto simp add: statusNeedsVerification_def isMissingRequiredUnverifiedFields_def
      isStatusMissingRequirements_def needsStatus_def areFieldsUnverified_def areFieldsMissing_def
      hasClerkStatus_def Let_def)

lemma statusNeedsContinue_total: "\<exists>b. statusNeedsContinue k c e = Inr b"
  by (auto simp add: statusNeedsContinue_def isMissingRequiredFields_def
      isStatusMissingRequirements_def needsStatus_def areFieldsMissing_def)

lemma needsVerification_val:
  "needsVerification k c e =
     Inr (statusNeedsVerification k c e = Inr True \<and> isCurrentPath ''/verify'' k c e = Inr True)"
  using statusNeedsVerification_total [of k c e]
  by (auto simp add: needsVerification_def isCurrentPath_def)

lemma needsContinue_or_transfer_val:
  "or_guard [needsContinue, hasClerkTransfer] k c e =
     Inr ((statusNeedsContinue k c e = Inr True \<and> isCurrentPath ''/continue'' k c e = Inr True)
          \<or> truthy (searchParam c (SEARCH_PARAMS_transfer k)))"
  using statusNeedsContinue_total [of k c e]
  by (auto simp add: needsContinue_def isCurrentPath_def hasClerkTransfer_def)

lemma isRestrictedWithoutTicket_val:
  "isRestrictedWithoutTicket k c e = Inr (isRestricted k c e = Inr True \<and> \<not> truthy (ticket c))"
  by (simp add: isRestrictedWithoutTicket_def isRestricted_def hasTicket_def not_guard_def)

lemma Init_always_decision:
  "decision k Init_always c e =
     Inr (Some
      (if (isComplete k c e = Inr True \<or> user (clerk c) \<noteq> None)
           \<and> isSingleSessionMode k c e = Inr True \<and> \<not> exampleMode c
       then (None, [log ''Already logged in'', with_params redirect_target navigateExternal])
       else if isCurrentPath (SSO_CALLBACK_PATH_ROUTE k) k c e = Inr True
       then (Some Callback, [])
       else if truthy (ticket c)
       then (Some Start, [navigateInternal ''/'' True])
       else if statusNeedsVerification k c e = Inr True \<and> isCurrentPath ''/verify'' k c e = Inr True
       then (Some Verification, [navigateInternal ''/verify'' True])
       else if (statusNeedsContinue k c e = Inr True \<and> isCurrentPath ''/continue'' k c e = Inr True)
               \<or> truthy (searchParam c (SEARCH_PARAMS_transfer k))
       then (Some Continue, [navigateInternal ''/continue'' True])
       else if isRestricted k c e = Inr True \<and> \<not> truthy (ticket c)
       then (Some Restricted, [])
       else (Some Start, [navigateInternal ''/'' True])))"
  unfolding Init_always_def
  by (simp only: decision_guarded [OF isLoggedInAndSingleSession_val]
      decision_guarded [OF needsCallback_val] decision_guarded [OF needsVerification_val]
      decision_guarded [OF needsContinue_or_transfer_val]
      decision_guarded [OF isRestrictedWithoutTicket_val]
      decision_guarded [OF hasTicket_def] decision_unguarded) simp

lemma blank_signUp_statusNeedsContinue:
  assumes "status (signUp (clerk c)) = None" and "event_resource e = None"
  shows "statusNeedsContinue k c e = Inr False"
  using assms
  by (simp add: statusNeedsContinue_def isMissingRequiredFields_def
      isStatusMissingRequirements_def needsStatus_def)

lemma blank_signUp_statusNeedsVerification:
  assumes "status (signUp (clerk c)) = None" and "event_resource e = None"
    and "searchParam c (SEARCH_PARAMS_status k) = None"
  shows "statusNeedsVerification k c e = Inr False"
  using assms
  by (simp add: statusNeedsVerification_def isMissingRequiredUnverifiedFields_def
      isStatusMissingRequirements_def needsStatus_def areFieldsMissing_def hasClerkStatus_def
      Let_def)

lemma blank_not_complete:
  assumes "status (signUp (clerk c)) = None" and "event_resource e = None" and "resource c = None"
  shows "isComplete k c e = Inr False"
  using assms by (simp add: isComplete_def completeWithSession_def)

section \<open>The decision of the Init state\<close>

text \<open>
  C1 (as amended). On entering \<^verbatim>\<open>Init\<close> the machine takes the first branch of a fixed
  list whose guard is satisfied, with that branch's target and actions: (1) logged in
  (a complete sign-up with a session, or a signed-in user) and single-session mode and
  not example mode: log and external navigation, no target; (2) the path matches the SSO
  callback route: \<^verbatim>\<open>Callback\<close>; (3) a ticket: \<^verbatim>\<open>Start\<close>, forced navigation to \<^verbatim>\<open>/\<close>;
  (4) verification needed and the path matches \<^verbatim>\<open>/verify\<close>: \<^verbatim>\<open>Verification\<close>;
  (5) continuation needed and the path matches \<^verbatim>\<open>/continue\<close>, or the transfer flag:
  \<^verbatim>\<open>Continue\<close>; (6) sign-ups restricted and no ticket: \<^verbatim>\<open>Restricted\<close>; (7) otherwise
  \<^verbatim>\<open>Start\<close>, forced navigation to \<^verbatim>\<open>/\<close>. With no ticket, no query parameter and no
  resource (none in the context, none on the event, the client's sign-up without a
  status) branches 3 to 5 cannot fire: the machine enters \<^verbatim>\<open>Start\<close> unless a user is signed
  in under single-session mode outside example mode (branch 1), the path is the callback
  route (branch 2) or sign-ups are restricted (branch 6).
\<close>

theorem Init_always_first_match:
  "decision k Init_always c e =
     Inr (Some
      (if (isComplete k c e = Inr True \<or> user (clerk c) \<noteq> None)
           \<and> isSingleSessionMode k c e = Inr True \<and> \<not> exampleMode c
       then (None, [log ''Already logged in'', with_params redirect_target navigateExternal])
       else if isCurrentPath (SSO_CALLBACK_PATH_ROUTE k) k c e = Inr True
       then (Some Callback, [])
       else if truthy (ticket c)
       then (Some Start, [navigateInternal ''/'' True])
       else if statusNeedsVerification k c e = Inr True \<and> isCurrentPath ''/verify'' k c e = Inr True
       then (Some Verification, [navigateInternal ''/verify'' True])
       else if (statusNeedsContinue k c e = Inr True \<and> isCurrentPath ''/continue'' k c e = Inr True)
               \<or> truthy (searchParam c (SEARCH_PARAMS_transfer k))
       then (Some Continue, [navigateInternal ''/continue'' True])
       else if isRestricted k c e = Inr True \<and> \<not> truthy (ticket c)
       then (Some Restricted, [])
       else (Some Start, [navigateInternal ''/'' True])))
   \<and> (ticket c = None \<and> (\<forall>name. searchParam c name = None) \<and> resource c = None
        \<and> event_resource e = None \<and> status (signUp (clerk c)) = None \<longrightarrow>
      decision k Init_always c e =
        Inr (Some
         (if user (clerk c) \<noteq> None \<and> isSingleSessionMode k c e = Inr True \<and> \<not> exampleMode c
          then (None, [log ''Already logged in'', with_params redirect_target navigateExternal])
          else if isCurrentPath (SSO_CALLBACK_PATH_ROUTE k) k c e = Inr True
          then (Some Callback, [])
          else if isRestricted k c e = Inr True
          then (Some Restricted, [])
          else (Some Start, [navigateInternal ''/'' True]))))"
proof (intro conjI impI)
  show "decision k Init_always c e =
     Inr (Some
      (if (isComplete k c e = Inr True \<or> user (clerk c) \<noteq> None)
           \<and> isSingleSessionMode k c e = Inr True \<and> \<not> exampleMode c
       then (None, [log ''Already logged in'', with_params redirect_target navigateExternal])
       else if isCurrentPath (SSO_CALLBACK_PATH_ROUTE k) k c e = Inr True
       then (Some Callback, [])
       else if truthy (ticket c)
       then (Some Start, [navigateInternal ''/'' True])
       else if statusNeedsVerification k c e = Inr True \<and> isCurrentPath ''/verify'' k c e = Inr True
       then (Some Verification, [navigateInternal ''/verify'' True])
       else if (statusNeedsContinue k c e = Inr True \<and> isCurrentPath ''/continue'' k c e = Inr True)
               \<or> truthy (searchParam c (SEARCH_PARAMS_transfer k))
       then (Some Continue, [navigateInternal ''/continue'' True])
       else if isRestricted k c e = Inr True \<and> \<not> truthy (ticket c)
       then (Some Restricted, [])
       else (Some Start, [navigateInternal ''/'' True])))"
    by (rule Init_always_decision)
next
  assume h: "ticket c = None \<and> (\<forall>name. searchParam c name = None) \<and> resource c = None
        \<and> event_resource e = None \<and> status (signUp (clerk c)) = None"
  have nc: "isComplete k c e = Inr False"
    using h by (intro blank_not_complete) simp_all
  have sv: "statusNeedsVerification k c e = Inr False"
    and sc: "statusNeedsContinue k c e = Inr False"
    using h by (simp_all add: blank_signUp_statusNeedsContinue blank_signUp_statusNeedsVerification)
  have tk: "\<not> truthy (ticket c)" and tr: "\<not> truthy (searchParam c (SEARCH_PARAMS_transfer k))"
    using h by simp_all
  show "decision k Init_always c e =
        Inr (Some
         (if user (clerk c) \<noteq> None \<and> isSingleSessionMode k c e = Inr True \<and> \<not> exampleMode c
          then (None, [log ''Already logged in'', with_params redirect_target navigateExternal])
          else if isCurrentPath (SSO_CALLBACK_PATH_ROUTE k) k c e = Inr True
          then (Some Callback, [])
          else if isRestricted k c e = Inr True
          then (Some Restricted, [])
          else (Some Start, [navigateInternal ''/'' True])))"
    by (simp only: Init_always_decision nc sv sc tk tr) simp
qed

lemma sample_blank_context_fields:
  "ticket (sample_blank_context md path) = None"
  "resource (sample_blank_context md path) = None"
  "searchParam (sample_blank_context md path) name = None"
  "status (signUp (clerk (sample_blank_context md path))) = None"
  "user (clerk (sample_blank_context md path)) = None"
  "exampleMode (sample_blank_context md path) = False"
  "event_resource sample_INIT = None"
  by (simp_all add: sample_blank_context_def sample_context_def sample_clerk_def
      sample_signUp_def sample_router_def searchParam_def sample_INIT_def)

lemma sample_blank_context_guards:
  "isCurrentPath p k (sample_blank_context md path) e = Inr (p = path)"
  "isRestricted sample_constants (sample_blank_context md path) e = Inr (md = ''restricted'')"
  by (simp_all add: sample_blank_context_def sample_context_def sample_clerk_def
      sample_router_def sample_environment_def isCurrentPath_def isRestricted_def
      sample_constants_def)

text \<open>
  C1 on a sample input: no ticket, no query parameter, no resource, nobody signed in,
  the path \<^verbatim>\<open>/\<close>, sign-ups public: the machine enters \<^verbatim>\<open>Start\<close>.
\<close>

theorem Init_always_first_match_witness:
  "ticket (sample_blank_context ''public'' ''/'') = None
   \<and> resource (sample_blank_context ''public'' ''/'') = None
   \<and> decision sample_constants Init_always (sample_blank_context ''public'' ''/'') sample_INIT =
       Inr (Some (Some Start, [navigateInternal ''/'' True]))"
proof -
  let ?c = "sample_blank_context ''public'' ''/''"
  have h: "ticket ?c = None \<and> (\<forall>name. searchParam ?c name = None) \<and> resource ?c = None
        \<and> event_resource sample_INIT = None \<and> status (signUp (clerk ?c)) = None"
    by (simp add: sample_blank_context_fields)
  have "decision sample_constants Init_always ?c sample_INIT =
        Inr (Some
         (if user (clerk ?c) \<noteq> None \<and> isSingleSessionMode sample_constants ?c sample_INIT = Inr True
               \<and> \<not> exampleMode ?c
          then (None, [log ''Already logged in'', with_params redirect_target navigateExternal])
          else if isCurrentPath (SSO_CALLBACK_PATH_ROUTE sample_constants) sample_constants ?c sample_INIT
                  = Inr True
          then (Some Callback, [])
          else if isRestricted sample_constants ?c sample_INIT = Inr True
          then (Some Restricted, [])
          else (Some Start, [navigateInternal ''/'' True])))"
    using Init_always_first_match [of sample_constants ?c sample_INIT] h by blast
  then show ?thesis
    by (simp add: sample_blank_context_fields sample_blank_context_guards)
      (simp add: sample_constants_def)
qed

text \<open>
  C1 as stated fails twice. Continuation needed (status \<^verbatim>\<open>missing_requirements\<close>, a
  missing field) on the path \<^verbatim>\<open>/\<close> with no earlier branch satisfied: the machine enters
  \<^verbatim>\<open>Start\<close>, not \<^verbatim>\<open>Continue\<close>, because branch 5 also asks for the path \<^verbatim>\<open>/continue\<close>. And
  no ticket, no query parameter, no resource, with sign-ups restricted: the machine
  enters \<^verbatim>\<open>Restricted\<close>, not \<^verbatim>\<open>Start\<close>.
\<close>

theorem Init_always_counterexample:
  "statusNeedsContinue sample_constants sample_continue_context sample_INIT = Inr True
   \<and> isLoggedInAndSingleSession sample_constants sample_continue_context sample_INIT = Inr False
   \<and> needsCallback sample_constants sample_continue_context sample_INIT = Inr False
   \<and> hasTicket sample_constants sample_continue_context sample_INIT = Inr False
   \<and> needsVerification sample_constants sample_continue_context sample_INIT = Inr False
   \<and> decision sample_constants Init_always sample_continue_context sample_INIT =
       Inr (Some (Some Start, [navigateInternal ''/'' True]))
   \<and> ticket (sample_blank_context ''restricted'' ''/'') = None
   \<and> map_option searchParams (router (sample_blank_context ''restricted'' ''/'')) = Some Map.empty
   \<and> resource (sample_blank_context ''restricted'' ''/'') = None
   \<and> status (signUp (clerk (sample_blank_context ''restricted'' ''/''))) = None
   \<and> decision sample_constants Init_always (sample_blank_context ''restricted'' ''/'') sample_INIT =
       Inr (Some (Some Restricted, []))"
proof -
  have c1: "statusNeedsContinue sample_constants sample_continue_context sample_INIT = Inr True"
    by (simp add: statusNeedsContinue_def isMissingRequiredFields_def
        isStatusMissingRequirements_def needsStatus_def areFieldsMissing_def
        sample_continue_context_def sample_context_def sample_clerk_def sample_signUp_def
        sample_INIT_def)
  have c2: "statusNeedsVerification sample_constants sample_continue_context sample_INIT = Inr False"
    by (simp add: statusNeedsVerification_def isMissingRequiredUnverifiedFields_def
        isStatusMissingRequirements_def needsStatus_def areFieldsMissing_def
        areFieldsUnverified_def hasClerkStatus_def searchParam_def Let_def
        sample_continue_context_def sample_context_def sample_clerk_def sample_signUp_def
        sample_router_def sample_INIT_def sample_constants_def)
  have c3: "isComplete sample_constants sample_continue_context sample_INIT = Inr False"
    by (simp add: isComplete_def completeWithSession_def
        sample_continue_context_def sample_context_def sample_clerk_def sample_signUp_def
        sample_INIT_def)
  have c4: "user (clerk sample_continue_context) = None"
    "ticket sample_continue_context = None"
    "searchParam sample_continue_context name = None"
    "isCurrentPath p sample_constants sample_continue_context sample_INIT = Inr (p = ''/'')"
    "isRestricted sample_constants sample_continue_context sample_INIT = Inr False"
    for name p
    by (simp_all add: sample_continue_context_def sample_context_def sample_clerk_def
        sample_router_def sample_environment_def searchParam_def isCurrentPath_def
        isRestricted_def sample_constants_def)
  have d1: "decision sample_constants Init_always sample_continue_context sample_INIT =
       Inr (Some (Some Start, [navigateInternal ''/'' True]))"
    by (simp only: Init_always_decision c1 c2 c3 c4) (simp add: sample_constants_def)
  have g1: "isLoggedInAndSingleSession sample_constants sample_continue_context sample_INIT = Inr False"
    by (simp add: isLoggedInAndSingleSession_val c3 c4)
  have g2: "needsCallback sample_constants sample_continue_context sample_INIT = Inr False"
    by (simp add: needsCallback_val c4) (simp add: sample_constants_def)
  have g3: "hasTicket sample_constants sample_continue_context sample_INIT = Inr False"
    by (simp add: hasTicket_def c4)
  have g4: "needsVerification sample_constants sample_continue_context sample_INIT = Inr False"
    by (simp add: needsVerification_val c2)
  let ?r = "sample_blank_context ''restricted'' ''/''"
  have r1: "isComplete sample_constants ?r sample_INIT = Inr False"
    by (intro blank_not_complete) (simp_all add: sample_blank_context_fields)
  have r2: "statusNeedsVerification sample_constants ?r sample_INIT = Inr False"
    "statusNeedsContinue sample_constants ?r sample_INIT = Inr False"
    by (simp_all add: blank_signUp_statusNeedsContinue blank_signUp_statusNeedsVerification
        sample_blank_context_fields)
  have d2: "decision sample_constants Init_always ?r sample_INIT = Inr (Some (Some Restricted, []))"
    by (simp only: Init_always_decision r1 r2 sample_blank_context_fields
        sample_blank_context_guards) (simp add: sample_constants_def)
  have r3: "map_option searchParams (router ?r) = Some Map.empty"
    by (simp add: sample_blank_context_def sample_context_def sample_router_def)
  show ?thesis
    using c1 g1 g2 g3 g4 d1 d2 r3 by (simp add: sample_blank_context_fields)
qed

section \<open>The choice of the verification strategy\<close>

lemma isStrategyEnabled_total: "\<exists>b. isStrategyEnabled a st k c e = Inr b"
  by (simp add: isStrategyEnabled_def)

lemma shouldVerifyPhoneCode_val:
  "shouldVerifyPhoneCode k c e =
     (case effective_resource c e of
        None \<Rightarrow> Inl TypeError
      | Some r \<Rightarrow> Inr (''phone_number'' \<in> set (unverifiedFields r)))"
  by (simp add: shouldVerifyPhoneCode_def shouldVerify_def isFieldUnverified_def
      split: option.splits)

lemma shouldVerify_strategy_val:
  "shouldVerify field (Some st) k c e =
     (case effective_resource c e of
        None \<Rightarrow> Inl TypeError
      | Some r \<Rightarrow> Inr (field \<in> set (unverifiedFields r)
                      \<and> isStrategyEnabled field st k c e = Inr True))"
  using isStrategyEnabled_total [of field st k c e]
  by (auto simp add: shouldVerify_def isFieldUnverified_def split: option.splits)

lemma Verification_Init_decision_Some:
  assumes "effective_resource c e = Some r"
  shows "decision k Verification_Init_always c e =
     Inr (if ''phone_number'' \<in> set (unverifiedFields r) then Some (Some PhoneCode, [])
          else if ''email_address'' \<in> set (unverifiedFields r)
                  \<and> isStrategyEnabled ''email_address'' ''email_link'' k c e = Inr True
          then Some (Some EmailLink, [])
          else if ''email_address'' \<in> set (unverifiedFields r)
                  \<and> isStrategyEnabled ''email_address'' ''email_code'' k c e = Inr True
          then Some (Some EmailCode, [])
          else None)"
proof -
  have p: "shouldVerifyPhoneCode k c e = Inr (''phone_number'' \<in> set (unverifiedFields r))"
    using assms by (simp add: shouldVerifyPhoneCode_val)
  have l: "shouldVerifyEmailLink k c e =
      Inr (''email_address'' \<in> set (unverifiedFields r)
           \<and> isStrategyEnabled ''email_address'' ''email_link'' k c e = Inr True)"
    using assms by (simp add: shouldVerifyEmailLink_def shouldVerify_strategy_val)
  have m: "shouldVerifyEmailCode k c e =
      Inr (''email_address'' \<in> set (unverifiedFields r)
           \<and> isStrategyEnabled ''email_address'' ''email_code'' k c e = Inr True)"
    using assms by (simp add: shouldVerifyEmailCode_def shouldVerify_strategy_val)
  show ?thesis
    unfolding Verification_Init_always_def
    by (simp only: decision_guarded [where g = shouldVerifyPhoneCode, OF p]
        decision_guarded [where g = shouldVerifyEmailLink, OF l]
        decision_guarded [where g = shouldVerifyEmailCode, OF m] decision_Nil) simp
qed

text \<open>
  C2 (as amended). \<^verbatim>\<open>Verification.Init\<close> enters at most one of the three strategy
  sub-flows: the first, in the order phone code, email link, email code, whose field is
  among the unverified fields of the effective resource (the resource of a \<^verbatim>\<open>NEXT\<close> event
  when it carries one, the context's resource otherwise) and, for the two email
  strategies, whose strategy is enabled for \<^verbatim>\<open>email_address\<close> in the environment. When no
  strategy qualifies no sub-flow is entered: the machine stays in \<^verbatim>\<open>Verification.Init\<close>.
  In particular, when the effective resource of a \<^verbatim>\<open>NEXT\<close> event has both
  \<^verbatim>\<open>phone_number\<close> and \<^verbatim>\<open>email_address\<close> among its unverified fields, the phone-code
  sub-flow is chosen, whatever is enabled.
\<close>

theorem Verification_Init_priority:
  "(\<forall>r. effective_resource c e = Some r \<longrightarrow>
      decision k Verification_Init_always c e =
        Inr (if ''phone_number'' \<in> set (unverifiedFields r) then Some (Some PhoneCode, [])
             else if ''email_address'' \<in> set (unverifiedFields r)
                     \<and> isStrategyEnabled ''email_address'' ''email_link'' k c e = Inr True
             then Some (Some EmailLink, [])
             else if ''email_address'' \<in> set (unverifiedFields r)
                     \<and> isStrategyEnabled ''email_address'' ''email_code'' k c e = Inr True
             then Some (Some EmailCode, [])
             else None))
   \<and> (\<forall>r ro. effective_resource c (NEXT ro) = Some r
        \<and> ''phone_number'' \<in> set (unverifiedFields r)
        \<and> ''email_address'' \<in> set (unverifiedFields r) \<longrightarrow>
      decision k Verification_Init_always c (NEXT ro) = Inr (Some (Some PhoneCode, [])))"
  by (simp add: Verification_Init_decision_Some)

lemma sample_verify_context_effective:
  "effective_resource (sample_verify_context u v) (NEXT None) =
     Some (sample_signUp (Some ''missing_requirements'') [] u)"
  by (simp add: effective_resource_def sample_verify_context_def)

lemma sample_verify_context_enabled:
  "isStrategyEnabled ''email_address'' st k (sample_verify_context u v) e = Inr (st \<in> set v)"
  by (simp add: isStrategyEnabled_def sample_verify_context_def sample_context_def
      sample_clerk_def sample_environment_def)

text \<open>
  C2 on a sample input: \<^verbatim>\<open>email_address\<close> and \<^verbatim>\<open>phone_number\<close> both unverified, both
  email strategies enabled: the phone-code sub-flow is chosen.
\<close>

theorem Verification_Init_priority_witness:
  "effective_resource (sample_verify_context [''email_address'', ''phone_number''] [''email_link'', ''email_code''])
      (NEXT None) =
     Some (sample_signUp (Some ''missing_requirements'') [] [''email_address'', ''phone_number''])
   \<and> decision sample_constants Verification_Init_always
       (sample_verify_context [''email_address'', ''phone_number''] [''email_link'', ''email_code''])
       (NEXT None) =
     Inr (Some (Some PhoneCode, []))"
proof -
  let ?c = "sample_verify_context [''email_address'', ''phone_number''] [''email_link'', ''email_code'']"
  let ?r = "sample_signUp (Some ''missing_requirements'') [] [''email_address'', ''phone_number'']"
  have h: "effective_resource ?c (NEXT None) = Some ?r
        \<and> ''phone_number'' \<in> set (unverifiedFields ?r)
        \<and> ''email_address'' \<in> set (unverifiedFields ?r)"
    by (simp add: sample_verify_context_effective) (simp add: sample_signUp_def)
  have "decision sample_constants Verification_Init_always ?c (NEXT None) =
      Inr (Some (Some PhoneCode, []))"
    using Verification_Init_priority [of ?c "NEXT None" sample_constants] h by blast
  then show ?thesis
    using h by simp
qed

text \<open>
  C2 as stated fails: with \<^verbatim>\<open>email_address\<close> the only unverified field and no email
  strategy enabled, none of the three sub-flows is entered.
\<close>

theorem Verification_Init_counterexample:
  "effective_resource (sample_verify_context [''email_address''] []) (NEXT None) =
     Some (sample_signUp (Some ''missing_requirements'') [] [''email_address''])
   \<and> unverifiedFields (sample_signUp (Some ''missing_requirements'') [] [''email_address'']) =
       [''email_address'']
   \<and> decision sample_constants Verification_Init_always
       (sample_verify_context [''email_address''] []) (NEXT None) = Inr None"
proof -
  let ?c = "sample_verify_context [''email_address''] []"
  have "decision sample_constants Verification_Init_always ?c (NEXT None) = Inr None"
    by (simp add: Verification_Init_decision_Some [OF sample_verify_context_effective]
        sample_verify_context_enabled)
      (simp add: sample_signUp_def)
  then show ?thesis
    by (simp add: sample_verify_context_effective) (simp add: sample_signUp_def)
qed

section \<open>Taking a transition\<close>

lemma fire_guarded:
  "g k (ctx s) e = Inr b \<Longrightarrow>
   fire k (\<lparr>guard = Some g, actions = as, target = tg, reenter = r\<rparr> # ts) e s =
     (if b then (case run_actions as k e s of Inl x \<Rightarrow> Inl x | Inr s' \<Rightarrow> Inr (Some (tg, s')))
      else fire k ts e s)"
  by (simp add: fire_def split: sum.splits)


lemma fire_unguarded:
  "fire k (\<lparr>guard = None, actions = as, target = tg, reenter = r\<rparr> # ts) e s =
     (case run_actions as k e s of Inl x \<Rightarrow> Inl x | Inr s' \<Rightarrow> Inr (Some (tg, s')))"
  by (simp add: fire_def split: sum.splits)

lemma fire_Nil: "fire k [] e s = Inr None"
  by (simp add: fire_def)

lemma setResource_done:
  "setResource k (done_actor i out) s = Inr (s\<lparr>ctx := (ctx s)\<lparr>resource := Some out\<rparr>\<rparr>)"
  by (simp add: setResource_def)

lemma goToNextStep_done:
  "goToNextStep k (done_actor i out) s = Inr (raise_event (NEXT (Some out)) None s)"
  by (simp add: goToNextStep_def)

lemma setFormErrors_error:
  "setFormErrors k (error_actor i err) s = Inr (sendToForm (ERRORS_SET err) s)"
  by (simp add: setFormErrors_def)


section \<open>Preparing a verification\<close>












section \<open>Third-party errors\<close>

text \<open>
  C8. \<^verbatim>\<open>setFormOAuthErrors\<close> sends nothing when the client carries no first-factor
  verification error; for an error whose code is one of the six known codes it sends the
  form \<^verbatim>\<open>ERRORS.SET\<close> with an error of that code and the error's long message; for every
  other code it sends \<^verbatim>\<open>ERRORS.SET\<close> with the generic \<^verbatim>\<open>unable_to_complete\<close> error.
\<close>

theorem setFormOAuthErrors_mapping:
  "(firstFactorVerificationError (clerk (ctx s)) = None \<longrightarrow> setFormOAuthErrors k e s = Inr s)
   \<and> (\<forall>err. firstFactorVerificationError (clerk (ctx s)) = Some err \<longrightarrow>
        (code err \<in> {NOT_ALLOWED_TO_SIGN_UP k, OAUTH_ACCESS_DENIED k, NOT_ALLOWED_ACCESS k,
                      SAML_USER_ATTRIBUTE_MISSING k, OAUTH_EMAIL_DOMAIN_RESERVED_BY_SAML k,
                      USER_LOCKED k} \<longrightarrow>
           setFormOAuthErrors k e s =
             Inr (s\<lparr>formInbox := formInbox s @
               [(formRef (ctx s), ERRORS_SET (ClerkElementsError (code err) (longMessage err)))]\<rparr>))
        \<and> (code err \<notin> {NOT_ALLOWED_TO_SIGN_UP k, OAUTH_ACCESS_DENIED k, NOT_ALLOWED_ACCESS k,
                        SAML_USER_ATTRIBUTE_MISSING k, OAUTH_EMAIL_DOMAIN_RESERVED_BY_SAML k,
                        USER_LOCKED k} \<longrightarrow>
           setFormOAuthErrors k e s =
             Inr (s\<lparr>formInbox := formInbox s @
               [(formRef (ctx s), ERRORS_SET (ClerkElementsError ''unable_to_complete''
                  (Some ''Unable to complete action at this time. If the problem persists please contact support.'')))]\<rparr>)))"
  by (auto simp add: setFormOAuthErrors_def sendToForm_def)

lemma sample_locked_context_fields:
  "firstFactorVerificationError (clerk (sample_locked_context cd)) =
     Some \<lparr>code = cd, longMessage = Some ''Your account is locked.''\<rparr>"
  "formRef (sample_locked_context cd) = 0"
  by (simp_all add: sample_locked_context_def sample_blank_context_def sample_context_def)

text \<open>
  C8 on sample inputs: the known code \<^verbatim>\<open>user_locked\<close> is passed on with its long message,
  an unknown code becomes \<^verbatim>\<open>unable_to_complete\<close>.
\<close>

theorem setFormOAuthErrors_mapping_witness:
  "setFormOAuthErrors sample_constants (NEXT None)
       (sample_snapshot (sample_locked_context ''user_locked'') Map.empty) =
     Inr ((sample_snapshot (sample_locked_context ''user_locked'') Map.empty)
       \<lparr>formInbox := [(0, ERRORS_SET (ClerkElementsError ''user_locked''
                                        (Some ''Your account is locked.'')))]\<rparr>)
   \<and> setFormOAuthErrors sample_constants (NEXT None)
       (sample_snapshot (sample_locked_context ''teapot'') Map.empty) =
     Inr ((sample_snapshot (sample_locked_context ''teapot'') Map.empty)
       \<lparr>formInbox := [(0, ERRORS_SET (ClerkElementsError ''unable_to_complete''
          (Some ''Unable to complete action at this time. If the problem persists please contact support.'')))]\<rparr>)"
proof -
  let ?k = sample_constants
  let ?s = "\<lambda>cd. sample_snapshot (sample_locked_context cd) Map.empty"
  let ?err = "\<lambda>cd. \<lparr>code = cd, longMessage = Some ''Your account is locked.''\<rparr>"
  have f: "firstFactorVerificationError (clerk (ctx (?s cd))) = Some (?err cd)"
    "formRef (ctx (?s cd)) = 0" "formInbox (?s cd) = []" for cd
    by (simp_all add: sample_snapshot_def sample_locked_context_fields)
  have known: "code (?err ''user_locked'') \<in> {NOT_ALLOWED_TO_SIGN_UP ?k, OAUTH_ACCESS_DENIED ?k,
      NOT_ALLOWED_ACCESS ?k, SAML_USER_ATTRIBUTE_MISSING ?k,
      OAUTH_EMAIL_DOMAIN_RESERVED_BY_SAML ?k, USER_LOCKED ?k}"
    by (simp add: sample_constants_def)
  have unknown: "code (?err ''teapot'') \<notin> {NOT_ALLOWED_TO_SIGN_UP ?k, OAUTH_ACCESS_DENIED ?k,
      NOT_ALLOWED_ACCESS ?k, SAML_USER_ATTRIBUTE_MISSING ?k,
      OAUTH_EMAIL_DOMAIN_RESERVED_BY_SAML ?k, USER_LOCKED ?k}"
    by (simp add: sample_constants_def)
  have a: "setFormOAuthErrors ?k (NEXT None) (?s ''user_locked'') =
      Inr ((?s ''user_locked'')\<lparr>formInbox := formInbox (?s ''user_locked'') @
        [(formRef (ctx (?s ''user_locked'')),
          ERRORS_SET (ClerkElementsError (code (?err ''user_locked''))
            (longMessage (?err ''user_locked''))))]\<rparr>)"
    using setFormOAuthErrors_mapping [of "?s ''user_locked''" ?k "NEXT None"] f known by blast
  have b: "setFormOAuthErrors ?k (NEXT None) (?s ''teapot'') =
      Inr ((?s ''teapot'')\<lparr>formInbox := formInbox (?s ''teapot'') @
        [(formRef (ctx (?s ''teapot'')), ERRORS_SET (ClerkElementsError ''unable_to_complete''
          (Some ''Unable to complete action at this time. If the problem persists please contact support.'')))]\<rparr>)"
    using setFormOAuthErrors_mapping [of "?s ''teapot''" ?k "NEXT None"] f unknown by blast
  show ?thesis
    using a b by (simp add: f)
qed

section \<open>Internal navigation\<close>

text \<open>
  C10. \<^verbatim>\<open>navigateInternal\<close> leaves everything as it is when no router adapter is
  attached, when virtual routing is active and the navigation is not forced, when
  example mode is set, or when the resolved path (\<^verbatim>\<open>joinURL\<close> of the router's base path
  and the requested path) equals the router's current pathname; in every other case it
  performs exactly one \<^verbatim>\<open>shallowPush\<close> of the resolved path and nothing else.
\<close>

theorem navigateInternal_effect:
  "(router (ctx s) = None \<longrightarrow> navigateInternal path force k e s = Inr s)
   \<and> (\<forall>r. router (ctx s) = Some r \<longrightarrow>
        ((shouldUseVirtualRouting k \<and> \<not> force) \<or> exampleMode (ctx s)
           \<or> joinURL k (basePath r) path = pathname r \<longrightarrow>
         navigateInternal path force k e s = Inr s)
        \<and> (\<not> ((shouldUseVirtualRouting k \<and> \<not> force) \<or> exampleMode (ctx s)
                \<or> joinURL k (basePath r) path = pathname r) \<longrightarrow>
           navigateInternal path force k e s =
             Inr (s\<lparr>routerCalls := routerCalls s @ [shallowPush (joinURL k (basePath r) path)]\<rparr>)))"
  by (auto simp add: navigateInternal_def Let_def)

text \<open>
  C10 on sample inputs: from \<^verbatim>\<open>/sign-up/\<close> a navigation to \<^verbatim>\<open>/verify\<close> is one
  \<^verbatim>\<open>shallowPush\<close> of \<^verbatim>\<open>/sign-up/verify\<close>; a navigation to \<^verbatim>\<open>/\<close>, which resolves to the
  current pathname, does nothing.
\<close>

theorem navigateInternal_effect_witness:
  "navigateInternal ''/verify'' False sample_constants (NEXT None)
       (sample_snapshot (sample_blank_context ''public'' ''/'') Map.empty) =
     Inr ((sample_snapshot (sample_blank_context ''public'' ''/'') Map.empty)
            \<lparr>routerCalls := [shallowPush ''/sign-up/verify'']\<rparr>)
   \<and> navigateInternal ''/'' True sample_constants (NEXT None)
       (sample_snapshot (sample_blank_context ''public'' ''/'') Map.empty) =
     Inr (sample_snapshot (sample_blank_context ''public'' ''/'') Map.empty)"
proof -
  let ?k = sample_constants
  let ?s = "sample_snapshot (sample_blank_context ''public'' ''/'') Map.empty"
  let ?r = "sample_router ''/'' Map.empty"
  have r: "router (ctx ?s) = Some ?r" and x: "\<not> exampleMode (ctx ?s)" and q: "routerCalls ?s = []"
    by (simp_all add: sample_snapshot_def sample_blank_context_def sample_context_def)
  have v: "\<not> shouldUseVirtualRouting ?k"
    and j1: "joinURL ?k (basePath ?r) ''/verify'' = ''/sign-up/verify''"
    and j2: "joinURL ?k (basePath ?r) ''/'' = pathname ?r"
    and p: "pathname ?r = ''/sign-up/''"
    by (simp_all add: sample_constants_def sample_router_def)
  have n1: "\<not> ((shouldUseVirtualRouting ?k \<and> \<not> False) \<or> exampleMode (ctx ?s)
                \<or> joinURL ?k (basePath ?r) ''/verify'' = pathname ?r)"
    using v x by (simp add: j1 p)
  have a: "navigateInternal ''/verify'' False ?k (NEXT None) ?s =
      Inr (?s\<lparr>routerCalls := routerCalls ?s @ [shallowPush (joinURL ?k (basePath ?r) ''/verify'')]\<rparr>)"
    using navigateInternal_effect [of ?s "''/verify''" False ?k "NEXT None"] r n1 by blast
  have b: "navigateInternal ''/'' True ?k (NEXT None) ?s = Inr ?s"
    using navigateInternal_effect [of ?s "''/''" True ?k "NEXT None"] r j2 by blast
  show ?thesis
    using a b by (simp add: q j1)
qed

section \<open>The attempt of the Start step\<close>

lemma run_actions_Cons_Inr:
  "a k e s = Inr s' \<Longrightarrow> run_actions (a # as) k e s = run_actions as k e s'"
  by simp

lemma setFormDisabledTicketFields_sends_nothing: "setFormDisabledTicketFields k e s = Inr s"
  by (simp add: setFormDisabledTicketFields_def Let_def)

text \<open>
  What \<^verbatim>\<open>Start.Attempting\<close> does on every snapshot: a successful attempt stores the
  returned resource and raises \<^verbatim>\<open>NEXT\<close> carrying it, with no target; a failed attempt
  sends the error to the form and goes to \<^verbatim>\<open>Start.Pending\<close>, the context (its resource
  included) unchanged. Neither sends the form a \<^verbatim>\<open>FIELD.DISABLE\<close>.
\<close>

lemma Start_Attempting_onDone_fire:
  "fire k Start_Attempting_onDone (done_actor i out) s =
     Inr (Some (None, raise_event (NEXT (Some out)) None (s\<lparr>ctx := (ctx s)\<lparr>resource := Some out\<rparr>\<rparr>)))"
  unfolding Start_Attempting_onDone_def
  by (simp only: fire_unguarded)
    (simp add: setResource_done goToNextStep_done setFormDisabledTicketFields_sends_nothing)

lemma Start_Attempting_onError_fire:
  "fire k Start_Attempting_onError (error_actor i err) s =
     Inr (Some (Some Start_Pending, sendToForm (ERRORS_SET err) s))"
  unfolding Start_Attempting_onError_def
  by (simp only: fire_unguarded)
    (simp add: setFormErrors_error setFormDisabledTicketFields_sends_nothing)

lemma Start_Attempting_onError_keeps_context:
  "fire k Start_Attempting_onError (error_actor i err) s = Inr (Some (tg, s')) \<Longrightarrow>
   ctx s' = ctx s \<and> tg = Some Start_Pending"
  by (auto simp add: Start_Attempting_onError_fire sendToForm_def)

text \<open>
  C4 at a failing input: a ticket in the context and a form that has the field
  \<^verbatim>\<open>emailAddress\<close>. The action builds the \<^verbatim>\<open>FIELD.DISABLE\<close> event for \<^verbatim>\<open>emailAddress\<close>, yet
  after a successful attempt the form has received nothing, and after a failed attempt
  it has received the error only: the field is never disabled. The rest is as C4 says:
  the resource is stored and \<^verbatim>\<open>NEXT\<close> raised on success; on failure the target is
  \<^verbatim>\<open>Start.Pending\<close> and the context is unchanged.
\<close>

theorem Start_Attempting_ticket_fields_not_disabled:
  "ticket (ctx sample_ticket_snapshot) = Some ''ticket_123''
   \<and> FIELD_DISABLE_events sample_ticket_snapshot = [(0, FIELD_DISABLE ''emailAddress'')]
   \<and> fire sample_constants Start_Attempting_onDone
        (done_actor ''startAttempt'' (sample_signUp (Some ''missing_requirements'') [''password''] []))
        sample_ticket_snapshot =
      Inr (Some (None, sample_ticket_snapshot
        \<lparr>ctx := (ctx sample_ticket_snapshot)
           \<lparr>resource := Some (sample_signUp (Some ''missing_requirements'') [''password''] [])\<rparr>,
         formInbox := [],
         raised := [(NEXT (Some (sample_signUp (Some ''missing_requirements'') [''password''] [])), None)]\<rparr>))
   \<and> fire sample_constants Start_Attempting_onError
        (error_actor ''startAttempt'' (ThrownError ''form_password_pwned''))
        sample_ticket_snapshot =
      Inr (Some (Some Start_Pending, sample_ticket_snapshot
        \<lparr>formInbox := [(0, ERRORS_SET (ThrownError ''form_password_pwned''))]\<rparr>))"
proof -
  have t: "ticket (ctx sample_ticket_snapshot) = Some ''ticket_123''"
    and f: "formRef (ctx sample_ticket_snapshot) = 0"
    and i: "formInbox sample_ticket_snapshot = []"
    and q: "raised sample_ticket_snapshot = []"
    by (simp_all add: sample_ticket_snapshot_def sample_snapshot_def sample_blank_context_def
        sample_context_def)
  have d: "FIELD_DISABLE_events sample_ticket_snapshot = [(0, FIELD_DISABLE ''emailAddress'')]"
    by (simp add: FIELD_DISABLE_events_def DISABLEABLE_FIELDS_def f)
      (simp add: sample_ticket_snapshot_def sample_snapshot_def)
  show ?thesis
    by (simp add: t d Start_Attempting_onDone_fire Start_Attempting_onError_fire
        raise_event_def sendToForm_def f i q)
qed

section \<open>Entering and leaving the Continue step\<close>

lemma Continue_entry_sends_nothing: "run_actions (entry Continue) k e s = Inr s"
  by (simp add: markFormAsProgressive_def Let_def)

lemma Continue_exit_unmarks:
  "run_actions (exit Continue) k e s = Inr (sendToForm UNMARK_AS_PROGRESSIVE s)"
  by (simp add: unmarkFormAsProgressive_def)

text \<open>
  C9 at a failing input: a sign-up with the missing and required field \<^verbatim>\<open>password\<close>.
  \<^verbatim>\<open>markFormAsProgressive\<close> builds the \<^verbatim>\<open>MARK_AS_PROGRESSIVE\<close> event, yet on entry to
  \<^verbatim>\<open>Continue\<close> the form receives nothing. On exit it receives \<^verbatim>\<open>UNMARK_AS_PROGRESSIVE\<close>, as
  C9 says.
\<close>

theorem Continue_entry_does_not_mark:
  "MARK_AS_PROGRESSIVE_event sample_constants sample_continue_context =
     MARK_AS_PROGRESSIVE [''password''] [] [''password''] []
   \<and> run_actions (entry Continue) sample_constants (NEXT None)
        (sample_snapshot sample_continue_context Map.empty) =
      Inr ((sample_snapshot sample_continue_context Map.empty)\<lparr>formInbox := []\<rparr>)
   \<and> run_actions (exit Continue) sample_constants (NEXT None)
        (sample_snapshot sample_continue_context Map.empty) =
      Inr ((sample_snapshot sample_continue_context Map.empty)
             \<lparr>formInbox := [(0, UNMARK_AS_PROGRESSIVE)]\<rparr>)"
proof -
  have m: "MARK_AS_PROGRESSIVE_event sample_constants sample_continue_context =
     MARK_AS_PROGRESSIVE [''password''] [] [''password''] []"
    by (simp add: MARK_AS_PROGRESSIVE_event_def progressiveFieldValues_def Let_def
        sample_continue_context_def sample_context_def sample_clerk_def sample_signUp_def
        sample_constants_def)
  have f: "formInbox (sample_snapshot sample_continue_context Map.empty) = []"
    "formRef (ctx (sample_snapshot sample_continue_context Map.empty)) = 0"
    by (simp_all add: sample_snapshot_def sample_continue_context_def sample_context_def)
  show ?thesis
    by (simp only: m Continue_entry_sends_nothing Continue_exit_unmarks)
      (simp add: sendToForm_def f)
qed

section \<open>The machine's actions, one by one\<close>

lemmas effect_defs = sendToForm_def raise_event_def console_log_def with_params_def

lemma routine_registry:
  "routine clearFormErrors"
  "routine logUnknownError"
  "routine (navigateInternal p f)"
  "routine raiseNext"
  "routine (setActive sid ul)"
  "routine delayedReset"
  "routine goToNextStep"
  "routine markFormAsProgressive"
  "routine unmarkFormAsProgressive"
  "routine (loadingBegin st sg ac)"
  "routine loadingEnd"
  "routine (setError er)"
  "routine setFormDefaultValues"
  "routine setFormDisabledTicketFields"
  "routine setFormErrors"
  "routine setFormOAuthErrors"
  "routine resetResource"
  "routine setResource"
  by (auto simp add: routine_def effect_defs Let_def
      clearFormErrors_def logUnknownError_def navigateInternal_def
      raiseNext_def setActive_def delayedReset_def goToNextStep_def markFormAsProgressive_def
      unmarkFormAsProgressive_def loadingBegin_def loadingEnd_def setError_def
      setFormDefaultValues_def setFormDisabledTicketFields_def setFormErrors_def
      setFormOAuthErrors_def resetResource_def setResource_def
      split: sum.splits option.splits if_splits)

lemma routine_inline:
  "routine (log m)"
  "routine log_not_retriable"
  "routine Init_entry"
  "routine AUTHENTICATE_OAUTH_action"
  "routine AUTHENTICATE_SAML_action"
  "routine AUTHENTICATE_WEB3_action"
  "routine FORM_ATTACH_action"
  "routine LOADING_assign"
  "routine Verification_hasCreatedSession_action"
  "routine assign_event_resource"
  "routine EMAIL_LINK_wildcard_action"
  "routine emailLinkTimeout_action"
  "routine Callback_entry"
  by (auto simp add: routine_def effect_defs
      log_def log_not_retriable_def Init_entry_def AUTHENTICATE_OAUTH_action_def
      AUTHENTICATE_SAML_action_def AUTHENTICATE_WEB3_action_def FORM_ATTACH_action_def
      LOADING_assign_def Verification_hasCreatedSession_action_def assign_event_resource_def
      EMAIL_LINK_wildcard_action_def emailLinkTimeout_action_def Callback_entry_def
      split: SignUpRouterEvents.splits if_splits)

text \<open>
  Every action of every transition is routine, but for three: \<^verbatim>\<open>resendableTick\<close>, the
  assignment of \<^verbatim>\<open>Idle.on.INIT\<close>, and \<^verbatim>\<open>navigateExternal\<close> in the first branch of
  \<^verbatim>\<open>Init.always\<close>. Every entry action is routine, and every exit action but
  \<^verbatim>\<open>resendableReset\<close>.
\<close>

lemmas table_defs =
  SignUpRouter_on_def Idle_on_INIT_def Init_always_def Start_on_RESET_STEP_def
  Start_on_NEXT_def Start_Init_always_def Start_Pending_on_SUBMIT_def
  Start_Pending_on_AUTHENTICATE_WEB3_def Start_Attempting_onDone_def
  Start_Attempting_onError_def Start_AttemptingWeb3_onDone_def
  Start_AttemptingWeb3_onError_def Continue_on_RESET_STEP_def Continue_on_NEXT_def
  Continue_Pending_on_SUBMIT_def Continue_Attempting_onDone_def
  Continue_Attempting_onError_def Verification_always_def Verification_on_RESET_STEP_def
  Verification_on_NEXT_def Verification_Init_always_def EmailLink_on_def
  EmailLink_Preparing_onDone_def EmailLink_Preparing_onError_def
  EmailLink_Pending_on_NEXT_def EmailLink_Attempting_after_emailLinkTimeout_def
  NotResendable_on_RETRY_def NotResendable_after_resendableTimeout_def
  EmailCode_Preparing_onDone_def EmailCode_Preparing_onError_def EmailCode_Pending_on_def
  EmailCode_Attempting_onDone_def EmailCode_Attempting_onError_def
  PhoneCode_Preparing_onDone_def PhoneCode_Preparing_onError_def PhoneCode_Pending_on_def
  PhoneCode_Attempting_onDone_def PhoneCode_Attempting_onError_def Callback_on_NEXT_def
  Restricted_on_NEXT_def Error_on_NEXT_def

lemma machine_actions_classified:
  "\<forall>(n, trig, ts) \<in> set machine. \<forall>t \<in> set ts. \<forall>a \<in> set (actions t).
     routine a
     \<or> a = resendableTick
     \<or> (a = INIT_assign \<and> n = Idle \<and> trig = on ''INIT'' \<and> actions t = [INIT_assign])
     \<or> (a = with_params redirect_target navigateExternal \<and> n = Init \<and> trig = always
          \<and> guard t = Some isLoggedInAndSingleSession)"
  by (simp add: machine_def table_defs routine_registry routine_inline)

lemma entry_actions_routine: "\<forall>a \<in> set (entry n). routine a"
  by (cases n) (simp_all add: routine_registry routine_inline)

lemma exit_actions_classified: "\<forall>a \<in> set (exit n). routine a \<or> a = resendableReset"
  by (cases n) (simp_all add: routine_registry routine_inline)

section \<open>Properties kept along a run of actions\<close>

lemma run_actions_respects:
  assumes "\<forall>a \<in> set as. \<forall>s s'. a k e s = Inr s' \<longrightarrow> R s s'"
    and "\<forall>s. R s s"
    and "\<forall>s1 s2 s3. R s1 s2 \<longrightarrow> R s2 s3 \<longrightarrow> R s1 s3"
  shows "run_actions as k e s = Inr s' \<Longrightarrow> R s s'"
  using assms(1)
proof (induction as arbitrary: s)
  case Nil
  then show ?case using assms(2) by simp
next
  case (Cons a as)
  from Cons.prems(1) obtain s1 where a: "a k e s = Inr s1" and r: "run_actions as k e s1 = Inr s'"
    by (auto split: sum.splits)
  have "R s s1" using Cons.prems(2) a by simp
  moreover have "R s1 s'" using Cons.IH [OF r] Cons.prems(2) by simp
  ultimately show ?case using assms(3) by blast
qed

lemma select_member: "select k ts c e = Inr (Some t) \<Longrightarrow> t \<in> set ts"
  by (induction ts) (auto split: option.splits sum.splits if_splits)

lemma fire_selected:
  assumes "fire k ts e s = Inr (Some (tg, s'))"
  obtains t where "t \<in> set ts" and "select k ts (ctx s) e = Inr (Some t)"
    and "run_actions (actions t) k e s = Inr s'" and "tg = target t"
  using assms
  by (auto simp add: fire_def split: sum.splits option.splits dest: select_member)

section \<open>The resend countdown\<close>

lemma resendableTick_Some:
  "resendableAfter (ctx s) = Some n \<Longrightarrow>
   resendableTick k e s =
     Inr (s\<lparr>ctx := (ctx s)\<lparr>resendable := Some (n = 0),
                            resendableAfter := Some (if 0 < n then n - 1 else n)\<rparr>\<rparr>)"
  by (simp add: resendableTick_def)

lemma resendableTick_countdown_ok:
  "resendableTick k e s = Inr s' \<Longrightarrow> countdown_ok s \<Longrightarrow>
   countdown_ok s' \<and> (resendable (ctx s) = Some True \<longrightarrow> resendable (ctx s') = Some True)"
  by (auto simp add: resendableTick_def countdown_ok_def split: option.splits if_splits)

lemma resendableReset_countdown_ok:
  "0 \<le> RESENDABLE_COUNTDOWN_DEFAULT k \<Longrightarrow> resendableReset k e s = Inr s' \<Longrightarrow> countdown_ok s'"
  by (auto simp add: resendableReset_def countdown_ok_def)

lemma routine_countdown:
  "routine a \<Longrightarrow> a k e s = Inr s' \<Longrightarrow>
   resendable (ctx s') = resendable (ctx s) \<and> resendableAfter (ctx s') = resendableAfter (ctx s)"
  unfolding routine_def by blast

lemma INIT_assign_countdown:
  "INIT_assign k e s = Inr s' \<Longrightarrow>
   resendable (ctx s') = resendable (ctx s) \<and> resendableAfter (ctx s') = resendableAfter (ctx s)"
  by (auto simp add: INIT_assign_def split: SignUpRouterEvents.splits)

lemma navigateExternal_countdown:
  "with_params pf navigateExternal k e s = Inr s' \<Longrightarrow>
   resendable (ctx s') = resendable (ctx s) \<and> resendableAfter (ctx s') = resendableAfter (ctx s)"
  by (auto simp add: with_params_def navigateExternal_def split: option.splits)

lemma countdown_kept_refl_trans:
  "\<forall>s. countdown_kept s s"
  "\<forall>s1 s2 s3. countdown_kept s1 s2 \<longrightarrow> countdown_kept s2 s3 \<longrightarrow> countdown_kept s1 s3"
  by (auto simp add: countdown_kept_def)

lemma same_countdown_kept:
  "resendable (ctx s') = resendable (ctx s) \<and> resendableAfter (ctx s') = resendableAfter (ctx s)
   \<Longrightarrow> countdown_kept s s'"
  by (simp add: countdown_kept_def countdown_ok_def)

lemma machine_action_cases:
  assumes "(n, trig, ts) \<in> set machine" and "t \<in> set ts" and "a \<in> set (actions t)"
  shows "routine a
     \<or> a = resendableTick
     \<or> (a = INIT_assign \<and> n = Idle \<and> trig = on ''INIT'' \<and> actions t = [INIT_assign])
     \<or> (a = with_params redirect_target navigateExternal \<and> n = Init \<and> trig = always
          \<and> guard t = Some isLoggedInAndSingleSession)"
proof -
  have "case (n, trig, ts) of (n, trig, ts) \<Rightarrow> \<forall>t \<in> set ts. \<forall>a \<in> set (actions t).
     routine a
     \<or> a = resendableTick
     \<or> (a = INIT_assign \<and> n = Idle \<and> trig = on ''INIT'' \<and> actions t = [INIT_assign])
     \<or> (a = with_params redirect_target navigateExternal \<and> n = Init \<and> trig = always
          \<and> guard t = Some isLoggedInAndSingleSession)"
    using machine_actions_classified assms(1) by (rule bspec)
  then show ?thesis
    using assms(2,3) by simp
qed

lemma action_countdown_kept:
  assumes "(n, trig, ts) \<in> set machine" and "t \<in> set ts" and "a \<in> set (actions t)"
    and "a k e s = Inr s'"
  shows "countdown_kept s s'"
proof -
  consider "routine a" | "a = resendableTick" | "a = INIT_assign"
    | "a = with_params redirect_target navigateExternal"
    using machine_action_cases [OF assms(1,2,3)] by blast
  then show ?thesis
  proof cases
    case 1
    then show ?thesis using routine_countdown assms(4) same_countdown_kept by blast
  next
    case 2
    then show ?thesis
      using resendableTick_countdown_ok assms(4) unfolding countdown_kept_def by blast
  next
    case 3
    then show ?thesis using INIT_assign_countdown assms(4) same_countdown_kept by blast
  next
    case 4
    then show ?thesis using navigateExternal_countdown assms(4) same_countdown_kept by blast
  qed
qed

lemma fire_countdown_kept:
  assumes "(n, trig, ts) \<in> set machine" and "fire k ts e s = Inr (Some (tg, s'))"
  shows "countdown_kept s s'"
proof -
  from assms(2) obtain t where t: "t \<in> set ts" and r: "run_actions (actions t) k e s = Inr s'"
    by (rule fire_selected)
  have "\<forall>a \<in> set (actions t). \<forall>s s'. a k e s = Inr s' \<longrightarrow> countdown_kept s s'"
    using action_countdown_kept [OF assms(1) t] by blast
  then show ?thesis
    by (rule run_actions_respects [where R = countdown_kept, OF _ countdown_kept_refl_trans r])
qed

lemma entry_countdown_kept:
  assumes "run_actions (entry n) k e s = Inr s'"
  shows "countdown_kept s s'"
proof -
  have "\<forall>a \<in> set (entry n). \<forall>s s'. a k e s = Inr s' \<longrightarrow> countdown_kept s s'"
    using entry_actions_routine [of n] routine_countdown same_countdown_kept by blast
  then show ?thesis
    by (rule run_actions_respects [where R = countdown_kept, OF _ countdown_kept_refl_trans assms])
qed

lemma exit_countdown_ok:
  assumes "0 \<le> RESENDABLE_COUNTDOWN_DEFAULT k" and "run_actions (exit n) k e s = Inr s'"
    and "countdown_ok s"
  shows "countdown_ok s'"
proof -
  have "\<forall>a \<in> set (exit n). \<forall>s s'. a k e s = Inr s' \<longrightarrow> (countdown_ok s \<longrightarrow> countdown_ok s')"
  proof (intro ballI allI impI)
    fix a s s'
    assume a: "a \<in> set (exit n)" and x: "a k e s = Inr s'" and o: "countdown_ok s"
    from exit_actions_classified a have "routine a \<or> a = resendableReset" by blast
    then show "countdown_ok s'"
      using x o assms(1) routine_countdown [of a k e s s'] resendableReset_countdown_ok [of k e s s']
      by (auto simp add: countdown_ok_def)
  qed
  then have "countdown_ok s \<longrightarrow> countdown_ok s'"
    by (rule run_actions_respects [where R = "\<lambda>s s'. countdown_ok s \<longrightarrow> countdown_ok s'",
          OF _ _ _ assms(2)]) auto
  then show ?thesis using assms(3) by simp
qed

lemma exit_keeps_resendable:
  assumes "n \<notin> {EmailLink_Preparing, EmailCode_Preparing, PhoneCode_Preparing}"
    and "run_actions (exit n) k e s = Inr s'"
  shows "resendable (ctx s') = resendable (ctx s)"
proof -
  have "\<forall>a \<in> set (exit n). routine a"
    using assms(1) by (cases n) (simp_all add: routine_registry routine_inline)
  then have "\<forall>a \<in> set (exit n). \<forall>s s'. a k e s = Inr s' \<longrightarrow>
      resendable (ctx s') = resendable (ctx s)"
    using routine_countdown by blast
  then show ?thesis
    by (rule run_actions_respects [where R = "\<lambda>s s'. resendable (ctx s') = resendable (ctx s)",
          OF _ _ _ assms(2)]) auto
qed

lemma reachable_countdown_ok:
  assumes "0 \<le> RESENDABLE_COUNTDOWN_DEFAULT k" and "reachable k s"
  shows "countdown_ok s"
  using assms(2)
proof (induction rule: reachable.induct)
  case (initial s)
  then show ?case by (simp add: countdown_ok_def)
next
  case (transition s n trig ts e tg s')
  then show ?case using fire_countdown_kept by (simp add: countdown_kept_def)
next
  case (enter s n e s')
  then show ?case using entry_countdown_kept by (simp add: countdown_kept_def)
next
  case (leave s n e s')
  then show ?case using exit_countdown_ok [OF assms(1)] by blast
qed

lemma ticks_to_resendable:
  "resendableAfter (ctx s) = Some (int m) \<Longrightarrow>
   \<exists>s'. run_actions (replicate (Suc m) resendableTick) k e s = Inr s'
        \<and> resendable (ctx s') = Some True \<and> resendableAfter (ctx s') = Some 0"
proof (induction m arbitrary: s)
  case 0
  then show ?case by (simp add: resendableTick_def)
next
  case (Suc m)
  let ?s1 = "s\<lparr>ctx := (ctx s)\<lparr>resendable := Some False, resendableAfter := Some (int m)\<rparr>\<rparr>"
  have t: "resendableTick k e s = Inr ?s1"
    using Suc.prems by (simp add: resendableTick_def)
  have "resendableAfter (ctx ?s1) = Some (int m)" by simp
  from Suc.IH [OF this] obtain s' where
    "run_actions (replicate (Suc m) resendableTick) k e ?s1 = Inr s'"
    "resendable (ctx s') = Some True" "resendableAfter (ctx s') = Some 0"
    by blast
  then show ?case using t by simp
qed

lemma Preparing_exit_resets:
  assumes "n \<in> {EmailLink_Preparing, EmailCode_Preparing, PhoneCode_Preparing}"
  shows "run_actions (exit n) k e s =
     Inr (s\<lparr>ctx := (ctx s)\<lparr>resendable := Some False,
                            resendableAfter := Some (RESENDABLE_COUNTDOWN_DEFAULT k)\<rparr>\<rparr>)"
  using assms by (auto simp add: resendableReset_def)

text \<open>
  C5 (as amended). \<^verbatim>\<open>resendableTick\<close> takes a positive \<open>resendableAfter\<close> down by exactly 1 and leaves
  it at 0 when it is 0, and sets \<open>resendable\<close> to whether the countdown it found was 0.
  In every reachable snapshot (the default countdown being non-negative)
  \<open>resendableAfter\<close> is not negative, and once \<open>resendable\<close> is true the countdown is 0 and
  \<open>resendable\<close> stays true through every transition, every entry action and every exit
  action other than the exit of a \<^verbatim>\<open>Preparing\<close> state. From a countdown of \<open>m\<close>, \<open>m + 1\<close>
  ticks make it 0 with \<open>resendable\<close> true. The exit action of each of the three
  \<^verbatim>\<open>Preparing\<close> states is \<^verbatim>\<open>resendableReset\<close>: it sets \<open>resendable\<close> to false and
  \<open>resendableAfter\<close> to the default countdown.
\<close>

theorem resendable_countdown:
  "(\<forall>n. resendableAfter (ctx s) = Some n \<longrightarrow>
      resendableTick k e s =
        Inr (s\<lparr>ctx := (ctx s)\<lparr>resendable := Some (n = 0),
                               resendableAfter := Some (if 0 < n then n - 1 else n)\<rparr>\<rparr>))
   \<and> (0 \<le> RESENDABLE_COUNTDOWN_DEFAULT k \<and> reachable k s \<longrightarrow>
        (\<forall>n. resendableAfter (ctx s) = Some n \<longrightarrow> 0 \<le> n)
        \<and> (resendable (ctx s) = Some True \<longrightarrow>
             resendableAfter (ctx s) = Some 0
             \<and> (\<forall>n trig ts tg s'. (n, trig, ts) \<in> set machine
                   \<and> fire k ts e s = Inr (Some (tg, s')) \<longrightarrow> resendable (ctx s') = Some True)
             \<and> (\<forall>n s'. run_actions (entry n) k e s = Inr s' \<longrightarrow> resendable (ctx s') = Some True)
             \<and> (\<forall>n s'. n \<notin> {EmailLink_Preparing, EmailCode_Preparing, PhoneCode_Preparing}
                   \<and> run_actions (exit n) k e s = Inr s' \<longrightarrow> resendable (ctx s') = Some True)))
   \<and> (\<forall>m. resendableAfter (ctx s) = Some (int m) \<longrightarrow>
        (\<exists>s'. run_actions (replicate (Suc m) resendableTick) k e s = Inr s'
              \<and> resendable (ctx s') = Some True \<and> resendableAfter (ctx s') = Some 0))
   \<and> (\<forall>n \<in> {EmailLink_Preparing, EmailCode_Preparing, PhoneCode_Preparing}.
        run_actions (exit n) k e s =
          Inr (s\<lparr>ctx := (ctx s)\<lparr>resendable := Some False,
                                 resendableAfter := Some (RESENDABLE_COUNTDOWN_DEFAULT k)\<rparr>\<rparr>))"
proof (intro conjI)
  show "\<forall>n. resendableAfter (ctx s) = Some n \<longrightarrow>
      resendableTick k e s =
        Inr (s\<lparr>ctx := (ctx s)\<lparr>resendable := Some (n = 0),
                               resendableAfter := Some (if 0 < n then n - 1 else n)\<rparr>\<rparr>)"
    using resendableTick_Some by blast
next
  show "0 \<le> RESENDABLE_COUNTDOWN_DEFAULT k \<and> reachable k s \<longrightarrow>
        (\<forall>n. resendableAfter (ctx s) = Some n \<longrightarrow> 0 \<le> n)
        \<and> (resendable (ctx s) = Some True \<longrightarrow>
             resendableAfter (ctx s) = Some 0
             \<and> (\<forall>n trig ts tg s'. (n, trig, ts) \<in> set machine
                   \<and> fire k ts e s = Inr (Some (tg, s')) \<longrightarrow> resendable (ctx s') = Some True)
             \<and> (\<forall>n s'. run_actions (entry n) k e s = Inr s' \<longrightarrow> resendable (ctx s') = Some True)
             \<and> (\<forall>n s'. n \<notin> {EmailLink_Preparing, EmailCode_Preparing, PhoneCode_Preparing}
                   \<and> run_actions (exit n) k e s = Inr s' \<longrightarrow> resendable (ctx s') = Some True))"
  proof
    assume h: "0 \<le> RESENDABLE_COUNTDOWN_DEFAULT k \<and> reachable k s"
    then have ok: "countdown_ok s" using reachable_countdown_ok by blast
    have a: "\<forall>n. resendableAfter (ctx s) = Some n \<longrightarrow> 0 \<le> n"
      using ok by (auto simp add: countdown_ok_def)
    have b: "resendable (ctx s) = Some True \<longrightarrow> resendableAfter (ctx s) = Some 0"
      using ok by (simp add: countdown_ok_def)
    have c: "resendable (ctx s') = Some True"
      if "resendable (ctx s) = Some True" and "(n, trig, ts) \<in> set machine"
        and "fire k ts e s = Inr (Some (tg, s'))" for n trig ts tg s'
      using fire_countdown_kept [OF that(2,3)] ok that(1) by (simp add: countdown_kept_def)
    have d: "resendable (ctx s') = Some True"
      if "resendable (ctx s) = Some True" and "run_actions (entry n) k e s = Inr s'" for n s'
      using entry_countdown_kept [OF that(2)] ok that(1) by (simp add: countdown_kept_def)
    have f: "resendable (ctx s') = Some True"
      if "resendable (ctx s) = Some True"
        and "n \<notin> {EmailLink_Preparing, EmailCode_Preparing, PhoneCode_Preparing}"
        and "run_actions (exit n) k e s = Inr s'" for n s'
      using exit_keeps_resendable [OF that(2,3)] that(1) by simp
    show "(\<forall>n. resendableAfter (ctx s) = Some n \<longrightarrow> 0 \<le> n)
        \<and> (resendable (ctx s) = Some True \<longrightarrow>
             resendableAfter (ctx s) = Some 0
             \<and> (\<forall>n trig ts tg s'. (n, trig, ts) \<in> set machine
                   \<and> fire k ts e s = Inr (Some (tg, s')) \<longrightarrow> resendable (ctx s') = Some True)
             \<and> (\<forall>n s'. run_actions (entry n) k e s = Inr s' \<longrightarrow> resendable (ctx s') = Some True)
             \<and> (\<forall>n s'. n \<notin> {EmailLink_Preparing, EmailCode_Preparing, PhoneCode_Preparing}
                   \<and> run_actions (exit n) k e s = Inr s' \<longrightarrow> resendable (ctx s') = Some True))"
      using a b c d f by blast
  qed
next
  show "\<forall>m. resendableAfter (ctx s) = Some (int m) \<longrightarrow>
        (\<exists>s'. run_actions (replicate (Suc m) resendableTick) k e s = Inr s'
              \<and> resendable (ctx s') = Some True \<and> resendableAfter (ctx s') = Some 0)"
    using ticks_to_resendable by blast
next
  show "\<forall>n \<in> {EmailLink_Preparing, EmailCode_Preparing, PhoneCode_Preparing}.
        run_actions (exit n) k e s =
          Inr (s\<lparr>ctx := (ctx s)\<lparr>resendable := Some False,
                                 resendableAfter := Some (RESENDABLE_COUNTDOWN_DEFAULT k)\<rparr>\<rparr>)"
    using Preparing_exit_resets by blast
qed

lemma sample_countdown_snapshot_fields:
  "resendableAfter (ctx (sample_countdown_snapshot ra rs)) = ra"
  "resendable (ctx (sample_countdown_snapshot ra rs)) = rs"
  "(sample_countdown_snapshot ra rs)\<lparr>ctx := (ctx (sample_countdown_snapshot ra rs))
      \<lparr>resendable := rs', resendableAfter := ra'\<rparr>\<rparr> = sample_countdown_snapshot ra' rs'"
  by (simp_all add: sample_countdown_snapshot_def sample_snapshot_def)

lemma sample_countdown_reachable:
  "reachable sample_constants_no_countdown (sample_countdown_snapshot (Some 0) (Some True))"
proof -
  let ?k = sample_constants_no_countdown
  let ?e = "after_delay ''resendableTimeout''"
  have r0: "reachable ?k (sample_countdown_snapshot None None)"
    by (rule reachable.initial) (simp_all add: sample_countdown_snapshot_fields)
  have "run_actions (exit EmailCode_Preparing) ?k ?e (sample_countdown_snapshot None None) =
      Inr (sample_countdown_snapshot (Some 0) (Some False))"
    by (simp add: resendableReset_def sample_countdown_snapshot_fields
        sample_constants_no_countdown_def)
  with r0 have r1: "reachable ?k (sample_countdown_snapshot (Some 0) (Some False))"
    by (rule reachable.leave)
  have m: "(EmailCode_Pending_NotResendable, after ''resendableTimeout'',
        NotResendable_after_resendableTimeout
           EmailCode_Pending_Resendable EmailCode_Pending_NotResendable) \<in> set machine"
    by (simp add: machine_def)
  have g: "isResendable ?k (ctx (sample_countdown_snapshot (Some 0) (Some False))) ?e = Inr True"
    by (simp add: isResendable_def sample_countdown_snapshot_fields)
  have "fire ?k (NotResendable_after_resendableTimeout
           EmailCode_Pending_Resendable EmailCode_Pending_NotResendable) ?e
          (sample_countdown_snapshot (Some 0) (Some False)) =
      Inr (Some (Some EmailCode_Pending_Resendable, sample_countdown_snapshot (Some 0) (Some True)))"
    unfolding NotResendable_after_resendableTimeout_def
    by (simp only: fire_guarded [where g = isResendable, OF g])
      (simp add: resendableTick_Some sample_countdown_snapshot_fields)
  with r1 m show ?thesis
    by (rule reachable.transition)
qed

text \<open>
  C5 on sample inputs: with a default countdown of 0 the snapshot with the countdown at
  0 and \<open>resendable\<close> true is reachable, and a tick leaves it as it is; with the default
  of 60, ticks take the countdown from 2 to 1 and from 1 to 0, and the exit of
  \<^verbatim>\<open>PhoneCode.Preparing\<close> resets it to 60 with \<open>resendable\<close> false.
\<close>

theorem resendable_countdown_witness:
  "0 \<le> RESENDABLE_COUNTDOWN_DEFAULT sample_constants_no_countdown
   \<and> reachable sample_constants_no_countdown (sample_countdown_snapshot (Some 0) (Some True))
   \<and> resendableAfter (ctx (sample_countdown_snapshot (Some 0) (Some True))) = Some 0
   \<and> resendableTick sample_constants_no_countdown (after_delay ''resendableTimeout'')
        (sample_countdown_snapshot (Some 0) (Some True)) =
      Inr (sample_countdown_snapshot (Some 0) (Some True))
   \<and> resendableTick sample_constants (after_delay ''resendableTimeout'')
        (sample_countdown_snapshot (Some 2) (Some False)) =
      Inr (sample_countdown_snapshot (Some 1) (Some False))
   \<and> resendableTick sample_constants (after_delay ''resendableTimeout'')
        (sample_countdown_snapshot (Some 1) (Some False)) =
      Inr (sample_countdown_snapshot (Some 0) (Some False))
   \<and> run_actions (exit PhoneCode_Preparing) sample_constants RETRY
        (sample_countdown_snapshot (Some 0) (Some True)) =
      Inr (sample_countdown_snapshot (Some 60) (Some False))"
proof -
  let ?k = sample_constants_no_countdown
  let ?e = "after_delay ''resendableTimeout''"
  let ?s = "sample_countdown_snapshot (Some 0) (Some True)"
  have d: "0 \<le> RESENDABLE_COUNTDOWN_DEFAULT ?k"
    by (simp add: sample_constants_no_countdown_def)
  have t: "resendable (ctx ?s) = Some True"
    by (simp add: sample_countdown_snapshot_fields)
  note inst = resendable_countdown [of ?s ?k ?e]
  have z: "resendableAfter (ctx ?s) = Some 0"
    using inst d sample_countdown_reachable t by blast
  have t0: "resendableTick ?k ?e ?s =
      Inr (?s\<lparr>ctx := (ctx ?s)\<lparr>resendable := Some ((0::int) = 0),
                               resendableAfter := Some (if 0 < (0::int) then 0 - 1 else 0)\<rparr>\<rparr>)"
    using inst z by blast
  have t2: "resendableTick sample_constants ?e (sample_countdown_snapshot (Some 2) (Some False)) =
      Inr ((sample_countdown_snapshot (Some 2) (Some False))
        \<lparr>ctx := (ctx (sample_countdown_snapshot (Some 2) (Some False)))
           \<lparr>resendable := Some ((2::int) = 0),
            resendableAfter := Some (if 0 < (2::int) then 2 - 1 else 2)\<rparr>\<rparr>)"
    using resendable_countdown [of "sample_countdown_snapshot (Some 2) (Some False)"
        sample_constants ?e]
      sample_countdown_snapshot_fields(1) [of "Some 2" "Some False"] by blast
  have t1: "resendableTick sample_constants ?e (sample_countdown_snapshot (Some 1) (Some False)) =
      Inr ((sample_countdown_snapshot (Some 1) (Some False))
        \<lparr>ctx := (ctx (sample_countdown_snapshot (Some 1) (Some False)))
           \<lparr>resendable := Some ((1::int) = 0),
            resendableAfter := Some (if 0 < (1::int) then 1 - 1 else 1)\<rparr>\<rparr>)"
    using resendable_countdown [of "sample_countdown_snapshot (Some 1) (Some False)"
        sample_constants ?e]
      sample_countdown_snapshot_fields(1) [of "Some 1" "Some False"] by blast
  have x: "run_actions (exit PhoneCode_Preparing) sample_constants RETRY ?s =
      Inr (?s\<lparr>ctx := (ctx ?s)\<lparr>resendable := Some False,
                 resendableAfter := Some (RESENDABLE_COUNTDOWN_DEFAULT sample_constants)\<rparr>\<rparr>)"
    using resendable_countdown [of ?s sample_constants RETRY] by blast
  show ?thesis
    using d sample_countdown_reachable z t0 t1 t2 x
    by (simp add: sample_countdown_snapshot_fields) (simp add: sample_constants_def)
qed

text \<open>
  C5 as stated fails at the tick that takes the countdown to zero: in
  \<^verbatim>\<open>EmailCode.Pending.NotResendable\<close> with the countdown at 1 and \<open>resendable\<close> false, the
  timer finds \<^verbatim>\<open>isResendable\<close> false, takes the second branch and runs \<^verbatim>\<open>resendableTick\<close>:
  the countdown reaches 0, \<open>resendable\<close> is still false and the machine is again in
  \<^verbatim>\<open>NotResendable\<close>. It is the next tick, which finds the countdown at 0, that sets
  \<open>resendable\<close> to true and goes to \<^verbatim>\<open>Resendable\<close>.
\<close>

theorem resendable_false_at_zero_counterexample:
  "resendableTick sample_constants (after_delay ''resendableTimeout'')
       (sample_countdown_snapshot (Some 1) (Some False)) =
     Inr (sample_countdown_snapshot (Some 0) (Some False))
   \<and> fire sample_constants
       (NotResendable_after_resendableTimeout
          EmailCode_Pending_Resendable EmailCode_Pending_NotResendable)
       (after_delay ''resendableTimeout'') (sample_countdown_snapshot (Some 1) (Some False)) =
     Inr (Some (Some EmailCode_Pending_NotResendable,
                sample_countdown_snapshot (Some 0) (Some False)))
   \<and> resendable (ctx (sample_countdown_snapshot (Some 0) (Some False))) = Some False
   \<and> resendableAfter (ctx (sample_countdown_snapshot (Some 0) (Some False))) = Some 0
   \<and> fire sample_constants
       (NotResendable_after_resendableTimeout
          EmailCode_Pending_Resendable EmailCode_Pending_NotResendable)
       (after_delay ''resendableTimeout'') (sample_countdown_snapshot (Some 0) (Some False)) =
     Inr (Some (Some EmailCode_Pending_Resendable,
                sample_countdown_snapshot (Some 0) (Some True)))"
proof -
  let ?k = sample_constants
  let ?e = "after_delay ''resendableTimeout''"
  have g1: "isResendable ?k (ctx (sample_countdown_snapshot (Some 1) (Some False))) ?e = Inr False"
    by (simp add: isResendable_def sample_countdown_snapshot_fields)
  have g0: "isResendable ?k (ctx (sample_countdown_snapshot (Some 0) (Some False))) ?e = Inr True"
    by (simp add: isResendable_def sample_countdown_snapshot_fields)
  have t1: "resendableTick ?k ?e (sample_countdown_snapshot (Some 1) (Some False)) =
      Inr (sample_countdown_snapshot (Some 0) (Some False))"
    by (simp add: resendableTick_Some sample_countdown_snapshot_fields)
  have t0: "resendableTick ?k ?e (sample_countdown_snapshot (Some 0) (Some False)) =
      Inr (sample_countdown_snapshot (Some 0) (Some True))"
    by (simp add: resendableTick_Some sample_countdown_snapshot_fields)
  have f1: "fire ?k (NotResendable_after_resendableTimeout
          EmailCode_Pending_Resendable EmailCode_Pending_NotResendable) ?e
        (sample_countdown_snapshot (Some 1) (Some False)) =
      Inr (Some (Some EmailCode_Pending_NotResendable,
                 sample_countdown_snapshot (Some 0) (Some False)))"
    unfolding NotResendable_after_resendableTimeout_def
    by (simp only: fire_guarded [where g = isResendable, OF g1] fire_unguarded)
      (simp add: t1)
  have f0: "fire ?k (NotResendable_after_resendableTimeout
          EmailCode_Pending_Resendable EmailCode_Pending_NotResendable) ?e
        (sample_countdown_snapshot (Some 0) (Some False)) =
      Inr (Some (Some EmailCode_Pending_Resendable,
                 sample_countdown_snapshot (Some 0) (Some True)))"
    unfolding NotResendable_after_resendableTimeout_def
    by (simp only: fire_guarded [where g = isResendable, OF g0])
      (simp add: t0)
  show ?thesis
    using t1 f1 f0 by (simp add: sample_countdown_snapshot_fields)
qed

section \<open>The ticket\<close>

lemma routine_keeps_ticket: "routine a \<Longrightarrow> keeps_ticket a"
  unfolding routine_def keeps_ticket_def by blast

lemma keeps_ticket_others:
  "keeps_ticket resendableTick"
  "keeps_ticket resendableReset"
  "keeps_ticket (navigateExternal p)"
  "keeps_ticket (with_params pf navigateExternal)"
  "keeps_ticket transfer"
  by (auto simp add: keeps_ticket_def resendableTick_def resendableReset_def
      navigateExternal_def with_params_def transfer_def split: option.splits)

lemma machine_keeps_ticket:
  assumes "(n, trig, ts) \<in> set machine" and "(n, trig) \<noteq> (Idle, on ''INIT'')"
    and "t \<in> set ts" and "a \<in> set (actions t)"
  shows "keeps_ticket a"
  using machine_action_cases [OF assms(1,3,4)] assms(2) routine_keeps_ticket keeps_ticket_others
  by auto

lemma entry_exit_keep_ticket:
  assumes "a \<in> set (entry n @ exit n)"
  shows "keeps_ticket a"
  using assms entry_actions_routine [of n] exit_actions_classified [of n] routine_keeps_ticket
    keeps_ticket_others(2)
  by auto

lemma run_actions_keeps_ticket:
  assumes "\<forall>a \<in> set as. keeps_ticket a" and "run_actions as k e s = Inr s'"
  shows "ticket (ctx s') = ticket (ctx s)"
proof -
  have "\<forall>a \<in> set as. \<forall>s s'. a k e s = Inr s' \<longrightarrow> ticket (ctx s') = ticket (ctx s)"
    using assms(1) unfolding keeps_ticket_def by blast
  then show ?thesis
    by (rule run_actions_respects [where R = "\<lambda>s s'. ticket (ctx s') = ticket (ctx s)",
          OF _ _ _ assms(2)]) auto
qed

lemma fire_keeps_ticket:
  assumes "(n, trig, ts) \<in> set machine" and "(n, trig) \<noteq> (Idle, on ''INIT'')"
    and "fire k ts e s = Inr (Some (tg, s'))"
  shows "ticket (ctx s') = ticket (ctx s)"
proof -
  from assms(3) obtain t where t: "t \<in> set ts" and r: "run_actions (actions t) k e s = Inr s'"
    by (rule fire_selected)
  have "\<forall>a \<in> set (actions t). keeps_ticket a"
    using machine_keeps_ticket [OF assms(1,2) t] by blast
  then show ?thesis using r by (rule run_actions_keeps_ticket)
qed

lemma after_INIT_keeps_ticket: "after_INIT k s s' \<Longrightarrow> ticket (ctx s') = ticket (ctx s)"
proof (induction rule: after_INIT.induct)
  case (stay s)
  then show ?case by simp
next
  case (transition s s1 n trig ts e tg s2)
  then show ?case using fire_keeps_ticket by fastforce
next
  case (enter s s1 n e s2)
  have "\<forall>a \<in> set (entry n). keeps_ticket a"
    using entry_exit_keep_ticket [of _ n] by simp
  then show ?case using run_actions_keeps_ticket enter by fastforce
next
  case (leave s s1 n e s2)
  have "\<forall>a \<in> set (exit n). keeps_ticket a"
    using entry_exit_keep_ticket [of _ n] by simp
  then show ?case using run_actions_keeps_ticket leave by fastforce
qed

lemma INIT_only_in_Idle:
  "\<forall>(n, trig, ts) \<in> set machine. trig = on ''INIT'' \<longrightarrow> n = Idle \<and> ts = Idle_on_INIT"
  by (simp add: machine_def SignUpRouter_on_def EmailLink_on_def EmailCode_Pending_on_def
      PhoneCode_Pending_on_def)

lemma Idle_on_INIT_fire:
  "\<exists>s'. fire k Idle_on_INIT (INIT ev) s = Inr (Some (Some Init, s'))
        \<and> ticket (ctx s') = INIT_ticket k (init_router ev)"
  unfolding Idle_on_INIT_def
  by (simp only: fire_unguarded) (simp add: INIT_assign_def)

lemma INIT_ticket_first_match:
  "INIT_ticket k r =
     (case r of
        None \<Rightarrow> None
      | Some rt \<Rightarrow>
          if truthy (searchParams rt (SEARCH_PARAMS_ticket k))
          then searchParams rt (SEARCH_PARAMS_ticket k)
          else if truthy (searchParams rt (SEARCH_PARAMS_invitationToken k))
          then searchParams rt (SEARCH_PARAMS_invitationToken k)
          else None)"
  by (simp add: INIT_ticket_def Let_def split: option.splits)

text \<open>
  The ticket is assigned by the \<^verbatim>\<open>INIT\<close> handler of \<^verbatim>\<open>Idle\<close>: the value of the first
  of the two query parameters that is present with a non-empty value, and undefined
  when neither is (or no router is given). \<^verbatim>\<open>INIT\<close> has a handler in \<^verbatim>\<open>Idle\<close> only. No
  other action of any transition, no entry action and no exit action changes the
  ticket (nor do the registered actions no transition refers to), so along every run
  of steps other than \<^verbatim>\<open>Idle.on.INIT\<close> the ticket stays what it was.
\<close>

theorem ticket_assigned_only_by_INIT:
  "(\<forall>(n, trig, ts) \<in> set machine. trig = on ''INIT'' \<longrightarrow> n = Idle \<and> ts = Idle_on_INIT)
   \<and> (\<exists>s'. fire k Idle_on_INIT (INIT ev) s = Inr (Some (Some Init, s'))
         \<and> ticket (ctx s') = INIT_ticket k (init_router ev))
   \<and> INIT_ticket k r =
       (case r of
          None \<Rightarrow> None
        | Some rt \<Rightarrow>
            if truthy (searchParams rt (SEARCH_PARAMS_ticket k))
            then searchParams rt (SEARCH_PARAMS_ticket k)
            else if truthy (searchParams rt (SEARCH_PARAMS_invitationToken k))
            then searchParams rt (SEARCH_PARAMS_invitationToken k)
            else None)
   \<and> (\<forall>(n, trig, ts) \<in> set machine. \<forall>t \<in> set ts. \<forall>a \<in> set (actions t).
        (n, trig) \<noteq> (Idle, on ''INIT'') \<longrightarrow> keeps_ticket a)
   \<and> (\<forall>n. \<forall>a \<in> set (entry n @ exit n). keeps_ticket a)
   \<and> keeps_ticket raiseNext \<and> keeps_ticket transfer \<and> keeps_ticket (setError er)
   \<and> keeps_ticket resetResource \<and> keeps_ticket setFormOAuthErrors
   \<and> keeps_ticket logUnknownError
   \<and> (\<forall>s1 s2. after_INIT k s1 s2 \<longrightarrow> ticket (ctx s2) = ticket (ctx s1))"
proof (intro conjI)
  show "\<forall>(n, trig, ts) \<in> set machine. trig = on ''INIT'' \<longrightarrow> n = Idle \<and> ts = Idle_on_INIT"
    by (rule INIT_only_in_Idle)
  show "\<exists>s'. fire k Idle_on_INIT (INIT ev) s = Inr (Some (Some Init, s'))
         \<and> ticket (ctx s') = INIT_ticket k (init_router ev)"
    by (rule Idle_on_INIT_fire)
  show "INIT_ticket k r =
       (case r of
          None \<Rightarrow> None
        | Some rt \<Rightarrow>
            if truthy (searchParams rt (SEARCH_PARAMS_ticket k))
            then searchParams rt (SEARCH_PARAMS_ticket k)
            else if truthy (searchParams rt (SEARCH_PARAMS_invitationToken k))
            then searchParams rt (SEARCH_PARAMS_invitationToken k)
            else None)"
    by (rule INIT_ticket_first_match)
  show "\<forall>(n, trig, ts) \<in> set machine. \<forall>t \<in> set ts. \<forall>a \<in> set (actions t).
        (n, trig) \<noteq> (Idle, on ''INIT'') \<longrightarrow> keeps_ticket a"
    using machine_keeps_ticket by blast
  show "\<forall>n. \<forall>a \<in> set (entry n @ exit n). keeps_ticket a"
    using entry_exit_keep_ticket by blast
  show "\<forall>s1 s2. after_INIT k s1 s2 \<longrightarrow> ticket (ctx s2) = ticket (ctx s1)"
    using after_INIT_keeps_ticket by blast
  show "keeps_ticket raiseNext" "keeps_ticket (setError er)" "keeps_ticket resetResource"
    "keeps_ticket setFormOAuthErrors" "keeps_ticket logUnknownError"
    by (simp_all add: routine_keeps_ticket routine_registry)
  show "keeps_ticket transfer"
    by (rule keeps_ticket_others)
qed

text \<open>
  On sample inputs: with both query parameters present the ticket parameter wins,
  and a successful attempt in \<^verbatim>\<open>Start.Attempting\<close> leaves the ticket of the context as it
  was.
\<close>

theorem ticket_assigned_only_by_INIT_witness:
  "INIT_ticket sample_constants (Some sample_ticket_router) = Some ''ticket_123''
   \<and> ticket (ctx sample_ticket_snapshot) = Some ''ticket_123''
   \<and> fire sample_constants Start_Attempting_onDone
        (done_actor ''startAttempt'' (sample_signUp (Some ''complete'') [] []))
        sample_ticket_snapshot =
      Inr (Some (None,
        (raise_event (NEXT (Some (sample_signUp (Some ''complete'') [] []))) None
          (sample_ticket_snapshot\<lparr>ctx := (ctx sample_ticket_snapshot)
             \<lparr>resource := Some (sample_signUp (Some ''complete'') [] [])\<rparr>\<rparr>))))
   \<and> ticket (ctx (raise_event (NEXT (Some (sample_signUp (Some ''complete'') [] []))) None
          (sample_ticket_snapshot\<lparr>ctx := (ctx sample_ticket_snapshot)
             \<lparr>resource := Some (sample_signUp (Some ''complete'') [] [])\<rparr>\<rparr>)))
      = Some ''ticket_123''"
proof -
  let ?k = sample_constants
  let ?out = "sample_signUp (Some ''complete'') [] []"
  let ?s = sample_ticket_snapshot
  let ?s' = "raise_event (NEXT (Some ?out)) None (?s\<lparr>ctx := (ctx ?s)\<lparr>resource := Some ?out\<rparr>\<rparr>)"
  note inst = ticket_assigned_only_by_INIT [of ?k sample_InitEvent ?s "Some sample_ticket_router" None]
  have t1: "truthy (searchParams sample_ticket_router (SEARCH_PARAMS_ticket ?k))"
    and v1: "searchParams sample_ticket_router (SEARCH_PARAMS_ticket ?k) = Some ''ticket_123''"
    by (simp_all add: sample_ticket_router_def sample_router_def sample_constants_def)
  have "INIT_ticket ?k (Some sample_ticket_router) =
       (case Some sample_ticket_router of
          None \<Rightarrow> None
        | Some rt \<Rightarrow>
            if truthy (searchParams rt (SEARCH_PARAMS_ticket ?k))
            then searchParams rt (SEARCH_PARAMS_ticket ?k)
            else if truthy (searchParams rt (SEARCH_PARAMS_invitationToken ?k))
            then searchParams rt (SEARCH_PARAMS_invitationToken ?k)
            else None)"
    using inst by blast
  then have a: "INIT_ticket ?k (Some sample_ticket_router) = Some ''ticket_123''"
    using t1 v1 by simp
  have b: "ticket (ctx ?s) = Some ''ticket_123''"
    by (simp add: sample_ticket_snapshot_def sample_snapshot_def)
  have f: "fire ?k Start_Attempting_onDone (done_actor ''startAttempt'' ?out) ?s =
      Inr (Some (None, ?s'))"
    by (rule Start_Attempting_onDone_fire)
  have m: "(Start_Attempting, onDone, Start_Attempting_onDone) \<in> set machine"
    by (simp add: machine_def)
  have "after_INIT ?k ?s ?s'"
    by (rule after_INIT.transition [OF after_INIT.stay m _ f]) simp
  then have "ticket (ctx ?s') = ticket (ctx ?s)"
    using inst by blast
  then show ?thesis
    using a b f by simp
qed

section \<open>Navigating back\<close>

text \<open>
  \<^verbatim>\<open>'NAVIGATE.PREVIOUS': '.Hist'\<close> is a transition of the root, and no other node handles
  the event: whatever node is active, the transition selected is the root's, to \<^verbatim>\<open>Hist\<close>,
  without actions.
\<close>

lemma NAVIGATE_PREVIOUS_handled_by_root:
  "map fst (filter (\<lambda>(n, trig, ts). trig = on ''NAVIGATE.PREVIOUS'') machine) = [SignUpRouter]"
  by code_simp

lemma NAVIGATE_PREVIOUS_selected:
  "map_sum id (map_option (\<lambda>(src, t). (src, target t, reenter t, List.null (actions t))))
     (selectTransitions k (triggers NAVIGATE_PREVIOUS) (n # getProperAncestors n) c NAVIGATE_PREVIOUS)
   = Inr (Some (SignUpRouter, Some Hist, False, True))"
  by (cases n; hypsubst; code_simp)

text \<open>
  No transition of the machine leaves the root: no transition of the root has
  \<^verbatim>\<open>reenter\<close>, and every other transition with a target has a domain. So nothing is ever
  recorded for \<^verbatim>\<open>Hist\<close>, whose parent is the root, in any microstep, macrostep or run.
\<close>

lemma machine_domains:
  "\<forall>(n, trig, ts) \<in> set machine. \<forall>t \<in> set ts.
     (n = SignUpRouter \<longrightarrow> \<not> reenter t)
     \<and> (target t = Some Hist \<longrightarrow> \<not> reenter t)
     \<and> (case target t of
          None \<Rightarrow> True
        | Some tg \<Rightarrow> tg \<noteq> Hist \<longrightarrow> getTransitionDomain n (reenter t) tg \<noteq> None)"
  by code_simp

lemma root_not_left:
  assumes "(src, trig, ts) \<in> set machine" and "t \<in> set ts" and "target t = Some tg"
  shows "SignUpRouter \<notin> set (computeExitSet
           (getTransitionDomain src (reenter t) (getEffectiveTargetStates h tg)) src (reenter t) act)"
proof -
  have m: "(src = SignUpRouter \<longrightarrow> \<not> reenter t)
     \<and> (target t = Some Hist \<longrightarrow> \<not> reenter t)
     \<and> (tg \<noteq> Hist \<longrightarrow> getTransitionDomain src (reenter t) tg \<noteq> None)"
    using bspec [OF bspec [OF machine_domains assms(1), simplified] assms(2)] assms(3) by simp
  have r: "\<not> isDescendant SignUpRouter d" for d
    by (simp add: isDescendant_def getProperAncestors_def eval_nat_numeral)
  have d: "getTransitionDomain src (reenter t) (getEffectiveTargetStates h tg) \<noteq> None"
  proof (cases "tg = Hist")
    case True
    then have "\<not> reenter t" using m assms(3) by simp
    then show ?thesis by (simp add: getTransitionDomain_def split: option.splits)
  next
    case False
    then have "getEffectiveTargetStates h tg = tg"
      by (cases tg) (simp_all add: getEffectiveTargetStates_def)
    then show ?thesis using m False by simp
  qed
  then obtain dn where dn: "getTransitionDomain src (reenter t) (getEffectiveTargetStates h tg) = Some dn"
    by blast
  show ?thesis
    using m r by (auto simp add: dn computeExitSet_def)
qed

lemma microstep_records_nothing:
  assumes "(src, trig, ts) \<in> set machine" and "t \<in> set ts"
    and "microstep k e src t cf = Inr cf'"
  shows "historyValue cf' = historyValue cf"
proof (cases "target t")
  case None
  then show ?thesis
    using assms(3) by (auto simp add: microstep_def split: sum.splits)
next
  case (Some tg)
  show ?thesis
    using assms(3) root_not_left [OF assms(1,2) Some, of "historyValue cf" "active cf"]
    by (auto simp add: microstep_def Some Let_def split: sum.splits)
qed

text \<open>
  With nothing recorded, the target \<^verbatim>\<open>Hist\<close> stands for the initial child of the root:
  the microstep of \<^verbatim>\<open>NAVIGATE.PREVIOUS\<close> enters \<^verbatim>\<open>Idle\<close>.
\<close>

lemma NAVIGATE_PREVIOUS_enters_Idle:
  assumes "historyValue cf = None" and "target t = Some Hist" and "\<not> reenter t"
    and "microstep k e SignUpRouter t cf = Inr cf'"
  shows "atomic cf' = Idle" and "historyValue cf' = None"
proof -
  have g: "getEffectiveTargetStates None Hist = Idle"
    by (simp add: getEffectiveTargetStates_def)
  have d: "getTransitionDomain SignUpRouter False Idle = Some SignUpRouter"
    by (simp add: getTransitionDomain_def isDescendant_def getProperAncestors_def eval_nat_numeral)
  have en: "computeEntrySet (Some SignUpRouter) SignUpRouter False Hist Idle = [Idle]"
    by (simp add: computeEntrySet_def isDescendant_def getProperAncestors_def eval_nat_numeral)
  have r: "SignUpRouter \<notin> set (computeExitSet (Some SignUpRouter) SignUpRouter False act)" for act
    by (simp add: computeExitSet_def isDescendant_def getProperAncestors_def eval_nat_numeral)
  show "atomic cf' = Idle" "historyValue cf' = None"
    using assms r [of "active cf"]
    by (auto simp add: microstep_def Let_def g d en split: sum.splits)
qed

text \<open>What \<^verbatim>\<open>selectTransitions\<close> selects is a transition of a table of the machine.\<close>

lemma getCandidates_machine:
  assumes "t \<in> set (getCandidates n ds)"
  shows "\<exists>trig ts. (n, trig, ts) \<in> set machine \<and> t \<in> set ts"
  using assms
proof (induction ds)
  case Nil
  then show ?case by simp
next
  case (Cons d ds)
  show ?case
  proof (cases "transitions n d")
    case None
    then show ?thesis using Cons by simp
  next
    case (Some ts)
    then have "((n, d), ts) \<in> set (map (\<lambda>(n, trig, ts). ((n, trig), ts)) machine)"
      unfolding transitions_def by (rule map_of_SomeD)
    then have "(n, d, ts) \<in> set machine"
      by auto
    then show ?thesis using Cons.prems Some by auto
  qed
qed

lemma selectTransitions_machine:
  assumes "selectTransitions k trs ns c e = Inr (Some (src, t))"
  shows "\<exists>trig ts. (src, trig, ts) \<in> set machine \<and> t \<in> set ts"
  using assms
proof (induction ns)
  case Nil
  then show ?case by simp
next
  case (Cons n ns)
  show ?case
  proof (cases "select k (getCandidates n (trs n)) c e")
    case (Inl x)
    then show ?thesis using Cons.prems by simp
  next
    case (Inr r)
    show ?thesis
    proof (cases r)
      case None
      then show ?thesis using Cons Inr by simp
    next
      case (Some t')
      then have "src = n" and "t = t'" using Cons.prems Inr by simp_all
      moreover have "t' \<in> set (getCandidates n (trs n))"
        using Inr Some by (simp add: select_member)
      ultimately show ?thesis using getCandidates_machine by blast
    qed
  qed
qed

lemma selected_microstep_records_nothing:
  assumes "selectTransitions k trs ns c e = Inr (Some (src, t))"
    and "microstep k e' src t cf = Inr cf'"
  shows "historyValue cf' = historyValue cf"
  using selectTransitions_machine [OF assms(1)] microstep_records_nothing assms(2) by blast

lemma internalQueue_shift_historyValue:
  "internalQueue_shift cf = Some (e', cf1) \<Longrightarrow> historyValue cf1 = historyValue cf"
  by (auto simp add: internalQueue_shift_def)

lemma macrostep_loop_records_nothing:
  "macrostep_loop f k ev e cf = Inr (Some cf') \<Longrightarrow> historyValue cf' = historyValue cf"
proof (induction f arbitrary: ev e cf)
  case 0
  then show ?case by simp
next
  case (Suc f)
  let ?sel = "if ev then selectTransitions k (\<lambda>n. [always]) (active cf) (ctx (snap cf)) e
              else Inr None"
  show ?case
  proof (cases ?sel)
    case (Inl x)
    then show ?thesis using Suc.prems by simp
  next
    case (Inr r)
    show ?thesis
    proof (cases r)
      case (Some st)
      obtain src t where st: "st = (src, t)" by (cases st)
      have sel: "selectTransitions k (\<lambda>n. [always]) (active cf) (ctx (snap cf)) e = Inr (Some (src, t))"
        using Inr Some st by (simp split: if_splits)
      show ?thesis
      proof (cases "microstep k e src t cf")
        case (Inl x)
        then show ?thesis using Suc.prems Inr Some st by simp
      next
        case (Inr cf2)
        then have "macrostep_loop f k (target t \<noteq> None) e cf2 = Inr (Some cf')"
          using Suc.prems \<open>?sel = Inr r\<close> Some st by simp
        then have "historyValue cf' = historyValue cf2" by (rule Suc.IH)
        then show ?thesis
          using selected_microstep_records_nothing [OF sel Inr] by simp
      qed
    next
      case None
      show ?thesis
      proof (cases "internalQueue_shift cf")
        case None
        then show ?thesis using Suc.prems Inr \<open>r = None\<close> by simp
      next
        case (Some q)
        obtain e' cf1 where q: "q = (e', cf1)" by (cases q)
        have h1: "historyValue cf1 = historyValue cf"
          using Some q by (simp add: internalQueue_shift_historyValue)
        show ?thesis
        proof (cases "selectTransitions k (triggers e') (active cf1) (ctx (snap cf1)) e'")
          case (Inl x)
          then show ?thesis using Suc.prems Inr \<open>r = None\<close> Some q by simp
        next
          case sel: (Inr r')
          show ?thesis
          proof (cases r')
            case None
            then have "macrostep_loop f k True e' cf1 = Inr (Some cf')"
              using Suc.prems Inr \<open>r = None\<close> Some q sel by simp
            then have "historyValue cf' = historyValue cf1" by (rule Suc.IH)
            then show ?thesis using h1 by simp
          next
            case (Some st)
            obtain src t where st: "st = (src, t)" by (cases st)
            show ?thesis
            proof (cases "microstep k e' src t cf1")
              case (Inl x)
              then show ?thesis
                using Suc.prems Inr \<open>r = None\<close> \<open>internalQueue_shift cf = Some q\<close> q sel Some st
                by simp
            next
              case m: (Inr cf2)
              then have "macrostep_loop f k True e' cf2 = Inr (Some cf')"
                using Suc.prems Inr \<open>r = None\<close> \<open>internalQueue_shift cf = Some q\<close> q sel Some st
                by simp
              then have "historyValue cf' = historyValue cf2" by (rule Suc.IH)
              moreover have "historyValue cf2 = historyValue cf1"
                using selected_microstep_records_nothing sel Some st m by blast
              ultimately show ?thesis using h1 by simp
            qed
          qed
        qed
      qed
    qed
  qed
qed

lemma macrostep_records_nothing:
  assumes "macrostep f k e cf = Inr (Some cf')"
  shows "historyValue cf' = historyValue cf"
proof (cases "selectTransitions k (triggers e) (active cf) (ctx (snap cf)) e")
  case (Inl x)
  then show ?thesis using assms by (simp add: macrostep_def)
next
  case sel: (Inr r)
  show ?thesis
  proof (cases r)
    case None
    then show ?thesis
      using assms sel macrostep_loop_records_nothing by (simp add: macrostep_def)
  next
    case (Some st)
    obtain src t where st: "st = (src, t)" by (cases st)
    show ?thesis
    proof (cases "microstep k e src t cf")
      case (Inl x)
      then show ?thesis using assms sel Some st by (simp add: macrostep_def)
    next
      case m: (Inr cf2)
      then have "macrostep_loop f k True e cf2 = Inr (Some cf')"
        using assms sel Some st by (simp add: macrostep_def)
      then have "historyValue cf' = historyValue cf2"
        by (rule macrostep_loop_records_nothing)
      moreover have "historyValue cf2 = historyValue cf"
        using selected_microstep_records_nothing sel Some st m by blast
      ultimately show ?thesis by simp
    qed
  qed
qed

lemma run_records_nothing:
  "cf' \<in> set (run f k es cf) \<Longrightarrow> historyValue cf' = historyValue cf"
proof (induction es arbitrary: cf)
  case Nil
  then show ?case by simp
next
  case (Cons e es)
  show ?case
  proof (cases "macrostep f k e cf")
    case (Inl x)
    then show ?thesis using Cons.prems by simp
  next
    case (Inr r)
    show ?thesis
    proof (cases r)
      case None
      then show ?thesis using Cons.prems Inr by simp
    next
      case (Some cf1)
      then have h: "historyValue cf1 = historyValue cf"
        using Inr macrostep_records_nothing by simp
      from Cons.prems Inr Some have "cf' = cf1 \<or> cf' \<in> set (run f k es cf1)"
        by simp
      then show ?thesis
        using h Cons.IH by auto
    qed
  qed
qed

text \<open>
  \<^verbatim>\<open>INIT\<close> is taken in \<^verbatim>\<open>Idle\<close> and nowhere else; the transitions that lead to \<^verbatim>\<open>Idle\<close>
  are the root's \<^verbatim>\<open>RESET\<close> and, through \<^verbatim>\<open>Hist\<close>, the root's \<^verbatim>\<open>NAVIGATE.PREVIOUS\<close>; and
  the microstep of any transition other than \<^verbatim>\<open>Idle.on.INIT\<close>, with the exit and entry
  actions it runs, leaves the ticket as it was.
\<close>

lemma INIT_selected_in_Idle:
  "map_sum id (map_option (\<lambda>(src, t). (src, target t)))
     (selectTransitions k (triggers (INIT ev)) (n # getProperAncestors n) c (INIT ev))
   = (if n = Idle then Inr (Some (Idle, Some Init)) else Inr None)"
  by (cases n; hypsubst; code_simp)

lemma Idle_entered_by:
  "map (\<lambda>(n, trig, ts). (n, trig))
     (filter (\<lambda>(n, trig, ts). list_ex (\<lambda>t. target t = Some Idle \<or> target t = Some Hist) ts) machine)
   = [(SignUpRouter, on ''NAVIGATE.PREVIOUS''), (SignUpRouter, on ''RESET'')]"
  by code_simp

lemma microstep_keeps_ticket:
  assumes "(src, trig, ts) \<in> set machine" and "(src, trig) \<noteq> (Idle, on ''INIT'')"
    and "t \<in> set ts" and "microstep k e src t cf = Inr cf'"
  shows "ticket (ctx (snap cf')) = ticket (ctx (snap cf))"
proof -
  have a: "\<forall>a \<in> set (actions t). keeps_ticket a"
    using machine_keeps_ticket [OF assms(1,2,3)] by blast
  have x: "\<forall>a \<in> set (concat (map exit ns) @ actions t @ concat (map entry ms)). keeps_ticket a"
    for ns ms
    using a entry_exit_keep_ticket by auto
  show ?thesis
  proof (cases "target t")
    case None
    then show ?thesis
      using assms(4) run_actions_keeps_ticket [OF a]
      by (auto simp add: microstep_def split: sum.splits)
  next
    case (Some tg)
    then show ?thesis
      using assms(4) run_actions_keeps_ticket [OF x]
      by (auto simp add: microstep_def Let_def split: sum.splits)
  qed
qed

text \<open>
  C6 at a failing input: the machine as created takes \<^verbatim>\<open>INIT\<close> on a URL with both
  ticket parameters, then \<^verbatim>\<open>NAVIGATE.PREVIOUS\<close>, then \<^verbatim>\<open>INIT\<close> on a URL with another
  ticket; no \<^verbatim>\<open>RESET\<close> is sent. The first \<^verbatim>\<open>INIT\<close> assigns the value of the first
  parameter, as C6 says, and the machine goes on to \<^verbatim>\<open>Start.Attempting\<close>.
  \<^verbatim>\<open>NAVIGATE.PREVIOUS\<close> targets \<^verbatim>\<open>Hist\<close>, for which nothing is recorded, so the machine
  enters \<^verbatim>\<open>Idle\<close>, the ticket unchanged; there the second \<^verbatim>\<open>INIT\<close> is handled and assigns
  the ticket again. Besides the root's \<^verbatim>\<open>RESET\<close>, the root's \<^verbatim>\<open>NAVIGATE.PREVIOUS\<close> is the
  one transition that leads to \<^verbatim>\<open>Idle\<close>.
\<close>

theorem ticket_reassigned_after_NAVIGATE_PREVIOUS:
  "INIT_ticket sample_constants (init_router sample_first_InitEvent) = Some ''ticket_123''
   \<and> INIT_ticket sample_constants (init_router sample_second_InitEvent) = Some ''ticket_789''
   \<and> map (\<lambda>(n, trig, ts). (n, trig))
       (filter (\<lambda>(n, trig, ts). list_ex (\<lambda>t. target t = Some Idle \<or> target t = Some Hist) ts)
          machine)
     = [(SignUpRouter, on ''NAVIGATE.PREVIOUS''), (SignUpRouter, on ''RESET'')]
   \<and> getEffectiveTargetStates None Hist = Idle
   \<and> map (\<lambda>cf. (atomic cf, ticket (ctx (snap cf)), historyValue cf))
       (run 8 sample_constants
          [INIT sample_first_InitEvent, NAVIGATE_PREVIOUS, INIT sample_second_InitEvent]
          sample_created)
     = [(Start_Attempting, Some ''ticket_123'', None),
        (Idle, Some ''ticket_123'', None),
        (Start_Attempting, Some ''ticket_789'', None)]"
  by code_simp

section \<open>Example mode\<close>

lemma quiet_refl_trans:
  "\<forall>s. quiet s s"
  "\<forall>s1 s2 s3. quiet s1 s2 \<longrightarrow> quiet s2 s3 \<longrightarrow> quiet s1 s3"
  by (auto simp add: quiet_def)

lemma routine_quiet: "routine a \<Longrightarrow> a k e s = Inr s' \<Longrightarrow> quiet s s'"
  unfolding routine_def quiet_def by metis

lemma countdown_actions_quiet:
  "resendableTick k e s = Inr s' \<Longrightarrow> quiet s s'"
  "resendableReset k e s = Inr s' \<Longrightarrow> quiet s s'"
  by (auto simp add: quiet_def resendableTick_def resendableReset_def)

lemma INIT_assign_calls:
  "INIT_assign k e s = Inr s' \<Longrightarrow>
   routerCalls s' = routerCalls s \<and> setActiveCalls s' = setActiveCalls s"
  by (auto simp add: INIT_assign_def split: SignUpRouterEvents.splits)

lemma select_guard_holds:
  "select k ts c e = Inr (Some t) \<Longrightarrow> guard t = Some g \<Longrightarrow> g k c e = Inr True"
  by (induction ts) (auto split: option.splits sum.splits if_splits)

lemma example_mode_not_logged_in_branch:
  "exampleMode c \<Longrightarrow> isLoggedInAndSingleSession k c e = Inr False"
  by (simp add: isLoggedInAndSingleSession_val)

lemma Idle_on_INIT_calls:
  assumes "fire k Idle_on_INIT e s = Inr (Some (tg, s'))"
  shows "routerCalls s' = routerCalls s \<and> setActiveCalls s' = setActiveCalls s"
  using assms unfolding Idle_on_INIT_def
  by (simp only: fire_unguarded) (auto split: sum.splits dest: INIT_assign_calls)

lemma fire_quiet:
  assumes "(n, trig, ts) \<in> set machine" and "fire k ts e s = Inr (Some (tg, s'))"
    and "exampleMode (ctx s)"
  shows "routerCalls s' = routerCalls s \<and> setActiveCalls s' = setActiveCalls s"
proof (cases "trig = on ''INIT''")
  case True
  have "case (n, trig, ts) of (n, trig, ts) \<Rightarrow> trig = on ''INIT'' \<longrightarrow> n = Idle \<and> ts = Idle_on_INIT"
    using INIT_only_in_Idle assms(1) by (rule bspec)
  then have "ts = Idle_on_INIT" using True by simp
  then show ?thesis using assms(2) Idle_on_INIT_calls by blast
next
  case False
  from assms(2) obtain t where t: "t \<in> set ts" and sel: "select k ts (ctx s) e = Inr (Some t)"
    and r: "run_actions (actions t) k e s = Inr s'"
    by (rule fire_selected)
  have "\<forall>a \<in> set (actions t). \<forall>s s'. a k e s = Inr s' \<longrightarrow> quiet s s'"
  proof (intro ballI allI impI)
    fix a s1 s2
    assume a: "a \<in> set (actions t)" and x: "a k e s1 = Inr s2"
    consider "routine a" | "a = resendableTick" | "guard t = Some isLoggedInAndSingleSession"
      using machine_action_cases [OF assms(1) t a] False by blast
    then show "quiet s1 s2"
    proof cases
      case 1
      then show ?thesis using x by (rule routine_quiet)
    next
      case 2
      then show ?thesis using x countdown_actions_quiet by blast
    next
      case 3
      then have "isLoggedInAndSingleSession k (ctx s) e = Inr True"
        using sel select_guard_holds by blast
      then show ?thesis
        using example_mode_not_logged_in_branch [OF assms(3)] by simp
    qed
  qed
  then have "quiet s s'"
    by (rule run_actions_respects [where R = quiet, OF _ quiet_refl_trans r])
  then show ?thesis using assms(3) by (simp add: quiet_def)
qed

lemma entry_exit_quiet:
  assumes "run_actions (entry n) k e s = Inr s' \<or> run_actions (exit n) k e s = Inr s'"
    and "exampleMode (ctx s)"
  shows "routerCalls s' = routerCalls s \<and> setActiveCalls s' = setActiveCalls s"
proof -
  have en: "\<forall>a \<in> set (entry n). \<forall>s s'. a k e s = Inr s' \<longrightarrow> quiet s s'"
    using entry_actions_routine [of n] routine_quiet by blast
  have ex: "\<forall>a \<in> set (exit n). \<forall>s s'. a k e s = Inr s' \<longrightarrow> quiet s s'"
    using exit_actions_classified [of n] routine_quiet countdown_actions_quiet(2) by blast
  from assms(1) have "quiet s s'"
  proof
    assume "run_actions (entry n) k e s = Inr s'"
    then show ?thesis
      by (rule run_actions_respects [where R = quiet, OF en quiet_refl_trans])
  next
    assume "run_actions (exit n) k e s = Inr s'"
    then show ?thesis
      by (rule run_actions_respects [where R = quiet, OF ex quiet_refl_trans])
  qed
  then show ?thesis using assms(2) by (simp add: quiet_def)
qed

lemma example_mode_Init_has_target:
  assumes "exampleMode c" and "select k Init_always c e = Inr (Some t)"
  shows "target t \<noteq> None"
proof -
  have "decision k Init_always c e = Inr (Some (target t, actions t))"
    using assms(2) by (simp add: decision_def)
  then have "fst (target t, actions t) = fst
      (if isCurrentPath (SSO_CALLBACK_PATH_ROUTE k) k c e = Inr True
       then (Some Callback, [])
       else if truthy (ticket c)
       then (Some Start, [navigateInternal ''/'' True])
       else if statusNeedsVerification k c e = Inr True \<and> isCurrentPath ''/verify'' k c e = Inr True
       then (Some Verification, [navigateInternal ''/verify'' True])
       else if (statusNeedsContinue k c e = Inr True \<and> isCurrentPath ''/continue'' k c e = Inr True)
               \<or> truthy (searchParam c (SEARCH_PARAMS_transfer k))
       then (Some Continue, [navigateInternal ''/continue'' True])
       else if isRestricted k c e = Inr True \<and> \<not> truthy (ticket c)
       then (Some Restricted, [])
       else (Some Start, [navigateInternal ''/'' True]))"
    using assms(1) by (simp only: Init_always_decision) simp
  then show ?thesis
    by (simp split: if_splits)
qed

text \<open>
  C7. In example mode \<^verbatim>\<open>navigateInternal\<close> and \<^verbatim>\<open>setActive\<close> do nothing at all, and no
  other navigation reaches the router adapter: the only transition that runs
  \<^verbatim>\<open>navigateExternal\<close>, the first branch of \<^verbatim>\<open>Init.always\<close>, is guarded by
  \<^verbatim>\<open>not('isExampleMode')\<close>, so in example mode that branch is never selected, and whatever
  transition of whatever table the machine takes, and whatever entry or exit actions it
  runs, no call reaches the router adapter (\<^verbatim>\<open>push\<close>, \<^verbatim>\<open>shallowPush\<close>) or
  \<^verbatim>\<open>clerk.setActive\<close>.
\<close>

theorem example_mode_no_side_effects:
  "exampleMode (ctx s) \<longrightarrow>
     navigateInternal path force k e s = Inr s
     \<and> setActive sessionId useLastActiveSession k e s = Inr s
     \<and> (\<forall>t. select k Init_always (ctx s) e = Inr (Some t) \<longrightarrow> target t \<noteq> None)
     \<and> (\<forall>n trig ts tg s'. (n, trig, ts) \<in> set machine \<and> fire k ts e s = Inr (Some (tg, s')) \<longrightarrow>
          routerCalls s' = routerCalls s \<and> setActiveCalls s' = setActiveCalls s)
     \<and> (\<forall>n s'. run_actions (entry n) k e s = Inr s' \<or> run_actions (exit n) k e s = Inr s' \<longrightarrow>
          routerCalls s' = routerCalls s \<and> setActiveCalls s' = setActiveCalls s)"
proof
  assume x: "exampleMode (ctx s)"
  have a: "navigateInternal path force k e s = Inr s"
    using x by (simp add: navigateInternal_def split: option.splits)
  have b: "setActive sessionId useLastActiveSession k e s = Inr s"
    using x by (simp add: setActive_def)
  have c: "\<forall>t. select k Init_always (ctx s) e = Inr (Some t) \<longrightarrow> target t \<noteq> None"
    using example_mode_Init_has_target [OF x] by blast
  have d: "\<forall>n trig ts tg s'. (n, trig, ts) \<in> set machine \<and> fire k ts e s = Inr (Some (tg, s')) \<longrightarrow>
          routerCalls s' = routerCalls s \<and> setActiveCalls s' = setActiveCalls s"
    using fire_quiet [OF _ _ x] by blast
  have f: "\<forall>n s'. run_actions (entry n) k e s = Inr s' \<or> run_actions (exit n) k e s = Inr s' \<longrightarrow>
          routerCalls s' = routerCalls s \<and> setActiveCalls s' = setActiveCalls s"
    using entry_exit_quiet [OF _ x] by blast
  show "navigateInternal path force k e s = Inr s
     \<and> setActive sessionId useLastActiveSession k e s = Inr s
     \<and> (\<forall>t. select k Init_always (ctx s) e = Inr (Some t) \<longrightarrow> target t \<noteq> None)
     \<and> (\<forall>n trig ts tg s'. (n, trig, ts) \<in> set machine \<and> fire k ts e s = Inr (Some (tg, s')) \<longrightarrow>
          routerCalls s' = routerCalls s \<and> setActiveCalls s' = setActiveCalls s)
     \<and> (\<forall>n s'. run_actions (entry n) k e s = Inr s' \<or> run_actions (exit n) k e s = Inr s' \<longrightarrow>
          routerCalls s' = routerCalls s \<and> setActiveCalls s' = setActiveCalls s)"
    using a b c d f by blast
qed

lemma sample_example_snapshot_fields:
  "exampleMode (ctx sample_example_snapshot)"
  "router (ctx sample_example_snapshot) = Some (sample_router ''/'' Map.empty)"
  "routerCalls sample_example_snapshot = []"
  "setActiveCalls sample_example_snapshot = []"
  by (simp_all add: sample_example_snapshot_def sample_snapshot_def sample_blank_context_def
      sample_context_def)

text \<open>
  C7 on a sample input in example mode: \<^verbatim>\<open>navigateInternal\<close> (forced) and \<^verbatim>\<open>setActive\<close>
  change nothing, and \<^verbatim>\<open>Init.always\<close> enters \<^verbatim>\<open>Start\<close> with no call on the router adapter.
\<close>

theorem example_mode_no_side_effects_witness:
  "exampleMode (ctx sample_example_snapshot)
   \<and> navigateInternal ''/verify'' True sample_constants (NEXT None) sample_example_snapshot =
       Inr sample_example_snapshot
   \<and> setActive (Some ''sess_1'') False sample_constants (NEXT None) sample_example_snapshot =
       Inr sample_example_snapshot
   \<and> map_option (\<lambda>(tg, s'). (tg, routerCalls s', setActiveCalls s'))
       (projr (fire sample_constants Init_always sample_INIT sample_example_snapshot)) =
       Some (Some Start, [], [])"
proof -
  let ?k = sample_constants
  let ?s = sample_example_snapshot
  note x = sample_example_snapshot_fields(1)
  have a: "navigateInternal ''/verify'' True ?k (NEXT None) ?s = Inr ?s"
    and b: "setActive (Some ''sess_1'') False ?k (NEXT None) ?s = Inr ?s"
    using example_mode_no_side_effects [of ?s "''/verify''" True ?k "NEXT None" "Some ''sess_1''" False]
      x by blast+
  have c: "ctx ?s = (sample_blank_context ''public'' ''/'')\<lparr>exampleMode := True\<rparr>"
    by (simp add: sample_example_snapshot_def sample_snapshot_def)
  have d: "decision ?k Init_always (ctx ?s) sample_INIT =
      Inr (Some (Some Start, [navigateInternal ''/'' True]))"
    unfolding c
    by (simp add: Init_always_decision hasTicket_def isCurrentPath_def searchParam_def
        statusNeedsVerification_def statusNeedsContinue_def isMissingRequiredFields_def
        isMissingRequiredUnverifiedFields_def isStatusMissingRequirements_def needsStatus_def
        areFieldsMissing_def hasClerkStatus_def isRestricted_def Let_def sample_INIT_def
        sample_blank_context_def sample_context_def sample_clerk_def sample_signUp_def
        sample_router_def sample_environment_def sample_constants_def)
  then obtain t where t: "select ?k Init_always (ctx ?s) sample_INIT = Inr (Some t)"
    and tt: "target t = Some Start" and ta: "actions t = [navigateInternal ''/'' True]"
    by (auto simp add: decision_def split: sum.splits option.splits)
  have n: "navigateInternal ''/'' True ?k sample_INIT ?s = Inr ?s"
    using example_mode_no_side_effects [of ?s "''/''" True ?k sample_INIT None False] x by blast
  have "fire ?k Init_always sample_INIT ?s = Inr (Some (Some Start, ?s))"
    by (simp add: fire_def t tt ta n)
  then show ?thesis
    using a b x by (simp add: sample_example_snapshot_fields)
qed

end
